theory Spec2Isabelle
  imports Complex_Main
begin

section \<open>Relational store\<close>

text \<open>
  The program keeps its state in PostgreSQL tables that it reads and writes through
  drizzle-orm query builders. A table is modelled as the list of its rows, and the two
  query shapes the billing code uses are modelled once:
  \<^item> \<open>db.select().from(t).where(c)\<close> returns the rows satisfying \<open>c\<close>;
  \<^item> \<open>db.update(t).set(s).where(c).returning()\<close> rewrites every row satisfying \<open>c\<close>
    in one atomic statement and returns the rewritten rows.
  Of each table only the columns that the modelled code reads or writes are kept.
  Timestamps are natural numbers (milliseconds), identifiers are strings. A table may hold
  any integer; where the code writes an integer column, the 32 bits of the column are
  checked.
\<close>

type_synonym ident = string
type_synonym timestamp = nat

text \<open>
  Exceptions are values. \<open>recordUsage\<close> throws \<open>Error("User not found")\<close>; the insert into
  \<open>usage_records\<close> (the ledger write) can be rejected by the database; a request to Stripe
  can be rejected; and PostgreSQL raises an error for a parameter or a result that does not
  fit its column.
\<close>

datatype exn = UserNotFound | LedgerWriteFailed | StripeError string | DatabaseError string

text \<open>
  What a column accepts. An \<open>integer\<close> column holds 32 bits: a parameter or the result of an
  expression outside that range raises \<open>integer out of range\<close>. A text parameter must not
  contain the character with code 0. Strings are sequences of code units below 256.
\<close>

definition int4 :: "int \<Rightarrow> bool" where
  "int4 n = (- 2147483648 \<le> n \<and> n \<le> 2147483647)"

definition valid_text :: "string \<Rightarrow> bool" where
  "valid_text s = (\<forall>c \<in> set s. (of_char c :: int) \<noteq> 0)"

text \<open>
  The JavaScript numbers that occur: the integers and \<open>NaN\<close>. The statement that writes a
  number into an integer column throws for \<open>NaN\<close> and for a value outside the column.
\<close>

datatype js_number = JNaN | JNum int

fun integer_accepted :: "js_number \<Rightarrow> bool" where
  "integer_accepted JNaN = False"
| "integer_accepted (JNum n) = int4 n"

definition sql_select :: "('r \<Rightarrow> bool) \<Rightarrow> 'r list \<Rightarrow> 'r list" where
  "sql_select cond tbl = filter cond tbl"

definition sql_update :: "('r \<Rightarrow> bool) \<Rightarrow> ('r \<Rightarrow> 'r) \<Rightarrow> 'r list \<Rightarrow> 'r list \<times> 'r list" where
  "sql_update cond setf tbl =
     (map (\<lambda>r. if cond r then setf r else r) tbl, map setf (filter cond tbl))"

subsection \<open>Table \<open>call_logs\<close>\<close>

datatype call_status = Completed | InProgress | Failed

record call_log =
  cl_id :: ident
  cl_restaurantId :: ident
  cl_customerPhone :: string
  cl_twilioCallSid :: "string option"
  cl_duration :: "int option"
  cl_status :: call_status
  cl_lastPolledAt :: "timestamp option"
  cl_usageRecordedAt :: "timestamp option"
  cl_createdAt :: "timestamp option"

text \<open>
  \<open>DatabaseStorage.markUsageRecorded\<close>: one conditional update
  \<open>SET usage_recorded_at = now WHERE id = ? AND usage_recorded_at IS NULL\<close>; the result
  is \<open>!!result\<close> for the first returned row, i.e. whether a row was returned.
\<close>

definition markUsageRecorded :: "timestamp \<Rightarrow> ident \<Rightarrow> call_log list \<Rightarrow> bool \<times> call_log list" where
  "markUsageRecorded now i tbl =
     (let (tbl', result) =
            sql_update (\<lambda>r. cl_id r = i \<and> cl_usageRecordedAt r = None)
                       (\<lambda>r. r\<lparr>cl_usageRecordedAt := Some now\<rparr>) tbl
      in (result \<noteq> [], tbl'))"

text \<open>
  A sequence of claim attempts on one id, each an atomic statement of its own, run one
  after the other at the given times (the order in which the database serialises them).
\<close>

fun claimAll :: "timestamp list \<Rightarrow> ident \<Rightarrow> call_log list \<Rightarrow> bool list \<times> call_log list" where
  "claimAll [] i tbl = ([], tbl)"
| "claimAll (now # nows) i tbl =
     (let (won, tbl') = markUsageRecorded now i tbl;
          (rest, tbl'') = claimAll nows i tbl'
      in (won # rest, tbl''))"

text \<open>
  \<open>DatabaseStorage.updateCallLog\<close>: \<open>UPDATE call_logs SET ... WHERE id = ?\<close> with the
  columns present in the \<open>updates\<close> object. A field of \<open>updates\<close> that is absent is
  \<open>None\<close>; \<open>usageRecordedAt: null\<close> is \<open>Some None\<close>. The duration is the JavaScript number
  the handler computed. The statement throws when the database rejects a parameter: the
  duration, or the call sid taken from the request. Otherwise the result is the first
  returned row, or \<open>undefined\<close>, and the new table.
\<close>

record call_log_updates =
  up_status :: "call_status option"
  up_lastPolledAt :: "timestamp option"
  up_duration :: "js_number option"
  up_twilioCallSid :: "string option"
  up_usageRecordedAt :: "timestamp option option"

definition no_updates :: call_log_updates where
  "no_updates = \<lparr>up_status = None, up_lastPolledAt = None, up_duration = None,
                  up_twilioCallSid = None, up_usageRecordedAt = None\<rparr>"

definition updates_accepted :: "call_log_updates \<Rightarrow> bool" where
  "updates_accepted u =
     ((case up_duration u of None \<Rightarrow> True | Some d \<Rightarrow> integer_accepted d)
      \<and> (case up_twilioCallSid u of None \<Rightarrow> True | Some s \<Rightarrow> valid_text s))"

definition set_call_log :: "call_log_updates \<Rightarrow> call_log \<Rightarrow> call_log" where
  "set_call_log u r =
     r\<lparr>cl_status := (case up_status u of None \<Rightarrow> cl_status r | Some s \<Rightarrow> s),
       cl_lastPolledAt := (case up_lastPolledAt u of None \<Rightarrow> cl_lastPolledAt r | Some t \<Rightarrow> Some t),
       cl_duration := (case up_duration u of Some (JNum d) \<Rightarrow> Some d | _ \<Rightarrow> cl_duration r),
       cl_twilioCallSid := (case up_twilioCallSid u of None \<Rightarrow> cl_twilioCallSid r | Some s \<Rightarrow> Some s),
       cl_usageRecordedAt := (case up_usageRecordedAt u of None \<Rightarrow> cl_usageRecordedAt r | Some v \<Rightarrow> v)\<rparr>"

text \<open>The statement once its parameters are accepted.\<close>

definition write_call_log :: "ident \<Rightarrow> call_log_updates \<Rightarrow> call_log list \<Rightarrow> call_log option \<times> call_log list" where
  "write_call_log i updates tbl =
     (let (tbl', returned) = sql_update (\<lambda>r. cl_id r = i) (set_call_log updates) tbl
      in (case returned of [] \<Rightarrow> None | updated # _ \<Rightarrow> Some updated, tbl'))"

definition updateCallLog ::
  "ident \<Rightarrow> call_log_updates \<Rightarrow> call_log list \<Rightarrow> exn + call_log option \<times> call_log list" where
  "updateCallLog i updates tbl =
     (if updates_accepted updates then Inr (write_call_log i updates tbl)
      else Inl (DatabaseError ''parameter rejected''))"

definition getCallLogById :: "ident \<Rightarrow> call_log list \<Rightarrow> call_log option" where
  "getCallLogById i tbl =
     (case sql_select (\<lambda>r. cl_id r = i) tbl of [] \<Rightarrow> None | callLog # _ \<Rightarrow> Some callLog)"

text \<open>
  The two lookups of the handler take a string from the request as parameter and throw
  when the database rejects it.
\<close>

definition getCallLogByTwilioSid :: "string \<Rightarrow> call_log list \<Rightarrow> exn + call_log option" where
  "getCallLogByTwilioSid twilioCallSid tbl =
     (if \<not> valid_text twilioCallSid then Inl (DatabaseError ''parameter rejected'')
      else Inr (case sql_select (\<lambda>r. cl_twilioCallSid r = Some twilioCallSid) tbl of
                  [] \<Rightarrow> None | callLog # _ \<Rightarrow> Some callLog))"

text \<open>
  \<open>DatabaseStorage.getCallLogsByRestaurant\<close>: the restaurant's calls, newest first, at
  most \<open>limit\<close> of them. \<open>ORDER BY created_at DESC\<close> puts the rows without a creation time
  first and the others after them, latest first; the query does not fix the order among
  rows with the same creation time, and the model takes one. The inner join with
  \<open>restaurants\<close> only adds the restaurant's name (every call log references an existing
  restaurant), so it is left out.
\<close>

definition newest_first :: "call_log list \<Rightarrow> call_log list" where
  "newest_first rows =
     filter (\<lambda>r. cl_createdAt r = None) rows
     @ rev (sort_key (\<lambda>r. case cl_createdAt r of None \<Rightarrow> 0 | Some t \<Rightarrow> t)
              (filter (\<lambda>r. cl_createdAt r \<noteq> None) rows))"

definition getCallLogsByRestaurant :: "ident \<Rightarrow> nat \<Rightarrow> call_log list \<Rightarrow> exn + call_log list" where
  "getCallLogsByRestaurant restaurantId limit tbl =
     (if \<not> valid_text restaurantId then Inl (DatabaseError ''parameter rejected'')
      else Inr (take limit
                  (newest_first (sql_select (\<lambda>r. cl_restaurantId r = restaurantId) tbl))))"

subsection \<open>Tables \<open>agent_configurations\<close>, \<open>users\<close>, \<open>subscription_prices\<close>, \<open>usage_records\<close>\<close>

record agent_configuration =
  ac_id :: ident
  ac_restaurantId :: ident
  ac_billingUserId :: ident
  ac_waitTimeMinutes :: int
  ac_defaultWaitTimeMinutes :: int
  ac_resetWaitTimeAt :: "timestamp option"

record user =
  u_id :: ident
  u_stripeCustomerId :: "string option"
  u_stripeSubscriptionId :: "string option"
  u_subscriptionPlan :: "string option"
  u_billingCycleStart :: "timestamp option"
  u_monthlyCallsUsed :: "int option"
  u_monthlyMinutesUsed :: "int option"

record subscription_price =
  sp_plan :: string
  sp_stripeMeteredPriceId :: "string option"
  sp_includedMinutes :: "int option"
  sp_includedCalls :: "int option"
  sp_perMinuteOverage :: "int option"
  sp_perCallOverage :: "int option"

datatype usage_type = Call | Minute

record usage_record =
  ur_id :: ident
  ur_userId :: ident
  ur_restaurantId :: "ident option"
  ur_type :: usage_type
  ur_quantity :: int
  ur_reportedToStripe :: "bool option"
  ur_stripeUsageRecordId :: "string option"
  ur_billingPeriod :: "timestamp option"

definition getAgentConfiguration ::
  "ident \<Rightarrow> agent_configuration list \<Rightarrow> exn + agent_configuration option" where
  "getAgentConfiguration restaurantId tbl =
     (if \<not> valid_text restaurantId then Inl (DatabaseError ''parameter rejected'')
      else Inr (case sql_select (\<lambda>a. ac_restaurantId a = restaurantId) tbl of
                  [] \<Rightarrow> None | config # _ \<Rightarrow> Some config))"

section \<open>The world outside the handler\<close>

text \<open>
  The meter event sent to \<open>stripe.billing.meterEvents.create\<close>. The payload value is
  \<open>String(totalQuantity)\<close>, kept as the number; the identifier is the template string
  \<open>userId_Date.now()\<close>, kept as its two parts.
\<close>

record meter_event_request =
  me_event_name :: string
  me_value :: int
  me_stripe_customer_id :: "string option"
  me_identifier :: "ident \<times> timestamp"

record meter_event =
  ev_id :: "string option"
  ev_identifier :: string

datatype stripe_call = SubscriptionsRetrieve string | MeterEventsCreate meter_event_request

fun is_submission :: "stripe_call \<Rightarrow> bool" where
  "is_submission (MeterEventsCreate _) = True"
| "is_submission (SubscriptionsRetrieve _) = False"

text \<open>
  What Stripe answers during one run of \<open>reportOveragesToStripe\<close>, which sends at most one
  request of each kind: the price ids of the subscription's items, and the created event.
\<close>

record stripe_behaviour =
  sb_retrieve :: "exn + string list"
  sb_create :: "exn + meter_event"

datatype log_entry = ConsoleError string exn | ConsoleWarn string

text \<open>
  The state: the tables, the requests sent to Stripe (oldest first), and the lines written
  with \<open>console.error\<close> and \<open>console.warn\<close> (\<open>console.log\<close> lines are not kept).
\<close>

record world =
  callLogs :: "call_log list"
  agentConfigurations :: "agent_configuration list"
  users :: "user list"
  subscriptionPrices :: "subscription_price list"
  usageRecords :: "usage_record list"
  stripeCalls :: "stripe_call list"
  console :: "log_entry list"

text \<open>JavaScript truthiness of a nullable string: neither \<open>null\<close>/\<open>undefined\<close> nor empty.\<close>

fun truthy :: "string option \<Rightarrow> bool" where
  "truthy None = False"
| "truthy (Some s) = (s \<noteq> [])"

text \<open>\<open>x || 0\<close> on a nullable integer column.\<close>

fun or_zero :: "int option \<Rightarrow> int" where
  "or_zero None = 0"
| "or_zero (Some n) = n"

section \<open>Billing service\<close>

subsection \<open>\<open>StripeService.reportOveragesToStripe\<close>\<close>

text \<open>
  The plan name is capitalised before the price lookup:
  \<open>plan.charAt(0).toUpperCase() + plan.slice(1)\<close>. Plan names are ASCII.
\<close>

definition toUpperCase_char :: "char \<Rightarrow> char" where
  "toUpperCase_char c =
     (let n = (of_char c :: nat) in if 97 \<le> n \<and> n \<le> 122 then char_of (n - 32) else c)"

fun capitalize :: "string \<Rightarrow> string" where
  "capitalize [] = []"
| "capitalize (c # rest) = toUpperCase_char c # rest"

text \<open>
  The overage block: the values of \<open>overageType\<close> and \<open>overageQuantity\<close> after the
  \<open>if\<close>/\<open>else if\<close> on the plan. They start as \<open>null\<close> and \<open>0\<close>.
\<close>

definition overage :: "user \<Rightarrow> subscription_price \<Rightarrow> usage_type option \<times> int" where
  "overage user priceConfig =
     (if u_subscriptionPlan user = Some ''starter'' then
        (let callsOverage =
               max 0 (or_zero (u_monthlyCallsUsed user) - or_zero (sp_includedCalls priceConfig))
         in if callsOverage > 0 then (Some Call, callsOverage) else (None, 0))
      else if u_subscriptionPlan user = Some ''growth'' \<or> u_subscriptionPlan user = Some ''pro'' then
        (let minutesOverage =
               max 0 (or_zero (u_monthlyMinutesUsed user) - or_zero (sp_includedMinutes priceConfig))
         in if minutesOverage > 0 then (Some Minute, minutesOverage) else (None, 0))
      else (None, 0))"

text \<open>
  The reference definition of the overage, in the words of the specification: a starter
  plan is charged per call beyond the included calls, growth and pro per minute beyond the
  included minutes, and any other plan (unlimited) has no overage.
\<close>

definition overage_reference :: "string \<Rightarrow> int \<Rightarrow> int \<Rightarrow> int \<Rightarrow> int \<Rightarrow> (usage_type \<times> int) option" where
  "overage_reference plan monthlyCallsUsed monthlyMinutesUsed includedCalls includedMinutes =
     (if plan = ''starter'' then Some (Call, max 0 (monthlyCallsUsed - includedCalls))
      else if plan = ''growth'' \<or> plan = ''pro'' then Some (Minute, max 0 (monthlyMinutesUsed - includedMinutes))
      else None)"

definition unreportedRecords :: "ident \<Rightarrow> usage_type \<Rightarrow> usage_record list \<Rightarrow> usage_record list" where
  "unreportedRecords userId overageType tbl =
     sql_select (\<lambda>r. ur_userId r = userId \<and> ur_type r = overageType
                      \<and> ur_reportedToStripe r = Some False) tbl"

definition event_name_of :: "usage_type \<Rightarrow> string" where
  "event_name_of overageType = (if overageType = Call then ''otto_calls'' else ''otto_minutes'')"

text \<open>\<open>meterEventData.id || meterEventData.identifier\<close>\<close>

definition event_id :: "meter_event \<Rightarrow> string" where
  "event_id ev = (if truthy (ev_id ev) then (case ev_id ev of Some s \<Rightarrow> s | None \<Rightarrow> ev_identifier ev)
                  else ev_identifier ev)"

definition mark_reported :: "string \<Rightarrow> usage_record \<Rightarrow> usage_record" where
  "mark_reported eid r = r\<lparr>ur_reportedToStripe := Some True, ur_stripeUsageRecordId := Some eid\<rparr>"

text \<open>
  The body of \<open>if (overageType && overageQuantity > 0)\<close>: select the unreported records
  of that type, retrieve the subscription, send one aggregated meter event and, when
  Stripe accepts it, mark the selected records. The inner \<open>catch\<close> logs and rethrows.
  The result is the exception that leaves the block, if any, and the new state.
\<close>

definition submit_overage ::
  "timestamp \<Rightarrow> stripe_behaviour \<Rightarrow> ident \<Rightarrow> user \<Rightarrow> string \<Rightarrow> subscription_price \<Rightarrow> usage_type
     \<Rightarrow> world \<Rightarrow> exn option \<times> world" where
  "submit_overage now stripe userId user subscriptionId priceConfig overageType w =
     (let unreported = unreportedRecords userId overageType (usageRecords w)
      in if length unreported = 0 then (None, w)
         else if \<not> truthy (sp_stripeMeteredPriceId priceConfig) then (None, w)
         else
           (let w1 = w\<lparr>stripeCalls := stripeCalls w @ [SubscriptionsRetrieve subscriptionId]\<rparr>
            in case sb_retrieve stripe of
                 Inl e \<Rightarrow> (Some e, w1)
               | Inr items \<Rightarrow>
                   if find (\<lambda>priceId. Some priceId = sp_stripeMeteredPriceId priceConfig) items = None
                   then (None, w1)
                   else
                     (let totalQuantity = foldl (\<lambda>sum record. sum + ur_quantity record) 0 unreported;
                          w2 = w1\<lparr>stripeCalls := stripeCalls w1 @
                                 [MeterEventsCreate
                                    \<lparr>me_event_name = event_name_of overageType,
                                     me_value = totalQuantity,
                                     me_stripe_customer_id = u_stripeCustomerId user,
                                     me_identifier = (userId, now)\<rparr>]\<rparr>
                      in case sb_create stripe of
                           Inl meterError \<Rightarrow>
                             (Some meterError,
                              w2\<lparr>console := console w2 @
                                   [ConsoleError ''[CRITICAL] Failed to send meter event to Stripe'' meterError]\<rparr>)
                         | Inr usageRecord \<Rightarrow>
                             (let recordIds = map ur_id unreported
                              in (None,
                                  w2\<lparr>usageRecords :=
                                       fst (sql_update (\<lambda>r. ur_id r \<in> set recordIds)
                                              (mark_reported (event_id usageRecord))
                                              (usageRecords w2))\<rparr>)))))"

text \<open>The \<open>try\<close> block of \<open>reportOveragesToStripe\<close>.\<close>

definition reportOverages_try ::
  "timestamp \<Rightarrow> stripe_behaviour \<Rightarrow> ident \<Rightarrow> world \<Rightarrow> exn option \<times> world" where
  "reportOverages_try now stripe userId w =
     (case sql_select (\<lambda>u. u_id u = userId) (users w) of
        [] \<Rightarrow> (None, w)
      | user # _ \<Rightarrow>
          if \<not> truthy (u_stripeSubscriptionId user) \<or> \<not> truthy (u_subscriptionPlan user)
          then (None, w)
          else
            (case (u_stripeSubscriptionId user, u_subscriptionPlan user) of
               (Some subscriptionId, Some plan) \<Rightarrow>
                 (case sql_select (\<lambda>p. sp_plan p = capitalize plan) (subscriptionPrices w) of
                    [] \<Rightarrow> (None, w)
                  | priceConfig # _ \<Rightarrow>
                      (case overage user priceConfig of
                         (Some overageType, overageQuantity) \<Rightarrow>
                           if overageQuantity > 0
                           then submit_overage now stripe userId user subscriptionId priceConfig
                                  overageType w
                           else (None, w)
                       | (None, _) \<Rightarrow> (None, w)))
             | _ \<Rightarrow> (None, w)))"

text \<open>
  The whole function: the outer \<open>catch\<close> writes the exception to \<open>console.error\<close> and
  the function returns normally. The first component is the exception that reaches the
  caller.
\<close>

definition reportOveragesToStripe ::
  "timestamp \<Rightarrow> stripe_behaviour \<Rightarrow> ident \<Rightarrow> world \<Rightarrow> exn option \<times> world" where
  "reportOveragesToStripe now stripe userId w =
     (case reportOverages_try now stripe userId w of
        (Some error, w') \<Rightarrow>
          (None, w'\<lparr>console := console w' @ [ConsoleError ''[reportOveragesToStripe] Error:'' error]\<rparr>)
      | (None, w') \<Rightarrow> (None, w'))"

subsection \<open>\<open>StripeService.recordUsage\<close>\<close>

text \<open>
  What the environment does during one call of \<open>recordUsage\<close>: the clock, the id the
  database generates for the new ledger row, whether the database rejects the insert for a
  reason outside the model (a lost connection, say), and Stripe's answers.
\<close>

record env =
  e_now :: timestamp
  e_newId :: ident
  e_insertFails :: bool
  e_stripe :: stripe_behaviour

definition increment :: "int \<Rightarrow> int option \<Rightarrow> int option" where
  \<comment> \<open>SQL \<open>column + quantity\<close>: NULL stays NULL\<close>
  "increment quantity v = map_option (\<lambda>n. n + quantity) v"

text \<open>The row inserted into \<open>usage_records\<close>; \<open>reported_to_stripe\<close> takes its default.\<close>

definition new_usage_record :: "env \<Rightarrow> user \<Rightarrow> ident \<Rightarrow> ident \<Rightarrow> usage_type \<Rightarrow> int \<Rightarrow> usage_record" where
  "new_usage_record e user userId restaurantId type quantity =
     \<lparr>ur_id = e_newId e, ur_userId = userId, ur_restaurantId = Some restaurantId,
      ur_type = type, ur_quantity = quantity, ur_reportedToStripe = Some False,
      ur_stripeUsageRecordId = None,
      ur_billingPeriod = Some (case u_billingCycleStart user of Some t \<Rightarrow> t | None \<Rightarrow> e_now e)\<rparr>"

text \<open>
  Why the insert throws, if it does: the environment, a quantity outside the integer
  column, or a restaurant id the database rejects.
\<close>

definition insert_error :: "env \<Rightarrow> ident \<Rightarrow> int \<Rightarrow> exn option" where
  "insert_error e restaurantId quantity =
     (if e_insertFails e then Some LedgerWriteFailed
      else if \<not> int4 quantity then Some (DatabaseError ''integer out of range'')
      else if \<not> valid_text restaurantId then Some (DatabaseError ''parameter rejected'')
      else None)"

text \<open>
  The update of the monthly counter of the user,
  \<open>SET monthly_calls_used = monthly_calls_used + quantity WHERE id = userId\<close> (or the minutes).
  The statement throws \<open>integer out of range\<close> when the sum leaves the 32 bits of the
  column in a row it updates; it then changes nothing. \<open>counter_overflows\<close> says that it
  throws, \<open>add_usage\<close> is the table it writes otherwise.
\<close>

definition counter_of :: "usage_type \<Rightarrow> user \<Rightarrow> int option" where
  "counter_of type u = (if type = Call then u_monthlyCallsUsed u else u_monthlyMinutesUsed u)"

definition counter_overflows :: "ident \<Rightarrow> usage_type \<Rightarrow> int \<Rightarrow> user list \<Rightarrow> bool" where
  "counter_overflows userId type quantity tbl =
     list_ex (\<lambda>u. u_id u = userId
                  \<and> (case counter_of type u of None \<Rightarrow> False | Some n \<Rightarrow> \<not> int4 (n + quantity))) tbl"

definition add_usage :: "ident \<Rightarrow> usage_type \<Rightarrow> int \<Rightarrow> user list \<Rightarrow> user list" where
  "add_usage userId type quantity tbl =
     (if type = Call
      then fst (sql_update (\<lambda>u. u_id u = userId)
                  (\<lambda>u. u\<lparr>u_monthlyCallsUsed := increment quantity (u_monthlyCallsUsed u)\<rparr>) tbl)
      else fst (sql_update (\<lambda>u. u_id u = userId)
                  (\<lambda>u. u\<lparr>u_monthlyMinutesUsed := increment quantity (u_monthlyMinutesUsed u)\<rparr>) tbl))"

definition count_usage :: "ident \<Rightarrow> usage_type \<Rightarrow> int \<Rightarrow> user list \<Rightarrow> exn + user list" where
  "count_usage userId type quantity tbl =
     (if counter_overflows userId type quantity tbl
      then Inl (DatabaseError ''integer out of range'')
      else Inr (add_usage userId type quantity tbl))"

text \<open>
  \<open>recordUsage\<close> reads the user, inserts the ledger row, updates the counter and reports
  overages. Each statement is committed on its own: when the counter update throws, the
  ledger row is already written.
\<close>

definition recordUsage ::
  "env \<Rightarrow> ident \<Rightarrow> ident \<Rightarrow> usage_type \<Rightarrow> int \<Rightarrow> world \<Rightarrow> exn option \<times> world" where
  "recordUsage e userId restaurantId type quantity w =
     (case sql_select (\<lambda>u. u_id u = userId) (users w) of
        [] \<Rightarrow> (Some UserNotFound, w)
      | user # _ \<Rightarrow>
          (case insert_error e restaurantId quantity of
             Some error \<Rightarrow> (Some error, w)
           | None \<Rightarrow>
               (let w1 = w\<lparr>usageRecords := usageRecords w @
                             [new_usage_record e user userId restaurantId type quantity]\<rparr>
                in case count_usage userId type quantity (users w1) of
                     Inl error \<Rightarrow> (Some error, w1)
                   | Inr counted \<Rightarrow>
                       reportOveragesToStripe (e_now e) (e_stripe e) userId
                         (w1\<lparr>users := counted\<rparr>))))"

section \<open>Status callback \<open>POST /twiml/status/:restaurantId\<close>\<close>

text \<open>
  The form fields of the status callback, each a string or absent. The endpoint is public,
  so \<open>CallDuration\<close> is any string.
\<close>

record request =
  CallSid :: "string option"
  CallStatus :: "string option"
  CallDuration :: "string option"
  From :: "string option"

text \<open>
  \<open>parseInt(string)\<close> without a radix: leading white space is dropped, then an optional
  sign, then \<open>0x\<close> or \<open>0X\<close> selects radix 16; the longest prefix of digits of the radix is
  read, and without any digit the result is \<open>NaN\<close>. The integer is kept exactly: JavaScript
  rounds it to a double, which changes no value the integer column accepts and moves no
  value into the column's range.
\<close>

definition isWhiteSpace :: "char \<Rightarrow> bool" where
  "isWhiteSpace c = ((of_char c :: int) \<in> {9, 10, 11, 12, 13, 32, 160})"

definition digit_of :: "char \<Rightarrow> int option" where
  "digit_of c =
     (let n = (of_char c :: int)
      in if 48 \<le> n \<and> n \<le> 57 then Some (n - 48)
         else if 97 \<le> n \<and> n \<le> 122 then Some (n - 87)
         else if 65 \<le> n \<and> n \<le> 90 then Some (n - 55)
         else None)"

definition is_digit :: "int \<Rightarrow> char \<Rightarrow> bool" where
  "is_digit radix c = (case digit_of c of None \<Rightarrow> False | Some d \<Rightarrow> d < radix)"

definition digits_value :: "int \<Rightarrow> string \<Rightarrow> int" where
  "digits_value radix Z =
     foldl (\<lambda>n c. n * radix + (case digit_of c of None \<Rightarrow> 0 | Some d \<Rightarrow> d)) 0 Z"

definition parseInt :: "string \<Rightarrow> js_number" where
  "parseInt str =
     (let S = dropWhile isWhiteSpace str;
          sign = (case S of c # _ \<Rightarrow> if c = CHR ''-'' then - 1 else 1 | [] \<Rightarrow> (1 :: int));
          S1 = (case S of c # cs \<Rightarrow> if c = CHR ''+'' \<or> c = CHR ''-'' then cs else S | [] \<Rightarrow> S);
          hex = (case S1 of a # b # _ \<Rightarrow> a = CHR ''0'' \<and> (b = CHR ''x'' \<or> b = CHR ''X'') | _ \<Rightarrow> False);
          R = (if hex then 16 else 10);
          S2 = (if hex then drop 2 S1 else S1);
          Z = takeWhile (is_digit R) S2
      in if Z = [] then JNaN else JNum (sign * digits_value R Z))"

text \<open>
  \<open>Number(CallDuration ?? 0)\<close>. An absent field gives \<open>Number(0)\<close> and an empty string gives
  0. The handler evaluates this expression for no other string (lemma
  \<open>Number_only_of_falsy\<close>); for those the model reads a decimal integer literal and gives
  \<open>NaN\<close> for every other string, the integers and \<open>NaN\<close> being the only numbers it has.
\<close>

definition Number_or_zero :: "string option \<Rightarrow> js_number" where
  "Number_or_zero v =
     (case v of
        None \<Rightarrow> JNum 0
      | Some s \<Rightarrow>
          (let t = rev (dropWhile isWhiteSpace (rev (dropWhile isWhiteSpace s)));
               sign = (case t of c # _ \<Rightarrow> if c = CHR ''-'' then - 1 else 1 | [] \<Rightarrow> (1 :: int));
               body = (case t of c # cs \<Rightarrow> if c = CHR ''+'' \<or> c = CHR ''-'' then cs else t | [] \<Rightarrow> t)
           in if t = [] then JNum 0
              else if body \<noteq> [] \<and> list_all (is_digit 10) body
              then JNum (sign * digits_value 10 body)
              else JNaN))"

text \<open>
  What the environment does during one callback: the clock read by \<open>new Date()\<close> in the
  handler and in \<open>markUsageRecorded\<close>, and the environment of the call of \<open>recordUsage\<close>
  for each usage type (the handler records each type at most once).
\<close>

record handler_env =
  h_now :: timestamp
  h_record :: "usage_type \<Rightarrow> env"

text \<open>
  The lookup: by \<open>CallSid\<close> first, then by caller among the restaurant's last 100 calls.
  A query that throws ends the handler.
\<close>

definition findCallLog :: "ident \<Rightarrow> request \<Rightarrow> call_log list \<Rightarrow> exn + call_log option" where
  "findCallLog restaurantId req tbl =
     (case (case CallSid req of
              Some sid \<Rightarrow> if sid \<noteq> [] then getCallLogByTwilioSid sid tbl else Inr None
            | None \<Rightarrow> Inr None) of
        Inl error \<Rightarrow> Inl error
      | Inr (Some callLog) \<Rightarrow> Inr (Some callLog)
      | Inr None \<Rightarrow>
          if truthy (From req) \<and> restaurantId \<noteq> []
          then (case getCallLogsByRestaurant restaurantId 100 tbl of
                  Inl error \<Rightarrow> Inl error
                | Inr calls \<Rightarrow>
                    Inr (find (\<lambda>call. Some (cl_customerPhone call) = From req
                                      \<and> cl_status call = InProgress) calls))
          else Inr None)"

text \<open>
  The \<open>updates\<close> object. \<open>!callLog.duration\<close> holds for a null and for a zero duration.
\<close>

definition status_updates :: "timestamp \<Rightarrow> request \<Rightarrow> call_log \<Rightarrow> call_log_updates" where
  "status_updates now req callLog =
     \<lparr>up_status = Some (if CallStatus req = Some ''completed'' then Completed else Failed),
      up_lastPolledAt = Some now,
      up_duration =
        (case CallDuration req of
           Some s \<Rightarrow> if s \<noteq> [] \<and> (cl_duration callLog = None \<or> cl_duration callLog = Some 0)
                     then Some (parseInt s) else None
         | None \<Rightarrow> None),
      up_twilioCallSid =
        (if truthy (CallSid req) \<and> \<not> truthy (cl_twilioCallSid callLog) then CallSid req else None),
      up_usageRecordedAt = None\<rparr>"

text \<open>\<open>updates.duration ?? callLog.duration ?? Number(CallDuration ?? 0)\<close>\<close>

definition durationSeconds :: "call_log_updates \<Rightarrow> call_log \<Rightarrow> request \<Rightarrow> js_number" where
  "durationSeconds updates callLog req =
     (case up_duration updates of
        Some d \<Rightarrow> d
      | None \<Rightarrow>
          (case cl_duration callLog of
             Some d \<Rightarrow> JNum d
           | None \<Rightarrow> Number_or_zero (CallDuration req)))"

text \<open>
  \<open>Math.ceil(durationSeconds / 60)\<close>. For an integer the quotient in double precision has
  the same ceiling as the exact quotient: a multiple of 60 divides exactly, and any other
  quotient lies between two neighbouring integers, which rounding cannot cross. \<open>NaN\<close>
  stays \<open>NaN\<close>, and \<open>NaN > 0\<close> is false.
\<close>

definition minutes_of :: "int \<Rightarrow> int" where
  "minutes_of seconds = \<lceil>rat_of_int seconds / 60\<rceil>"

fun ceil_minutes :: "js_number \<Rightarrow> js_number" where
  "ceil_minutes JNaN = JNaN"
| "ceil_minutes (JNum seconds) = JNum (minutes_of seconds)"

text \<open>
  \<open>storage.updateCallLog(callLog.id, { usageRecordedAt: null })\<close>. The statement has no
  parameter from the request, so it is the plain write.
\<close>

definition rollback_claim :: "ident \<Rightarrow> world \<Rightarrow> world" where
  "rollback_claim i w =
     w\<lparr>callLogs := snd (write_call_log i (no_updates\<lparr>up_usageRecordedAt := Some None\<rparr>) (callLogs w))\<rparr>"

text \<open>
  The block run after a won claim: the \<open>try\<close> with the flag \<open>stripeRecordingStarted\<close>,
  which is set once the first \<open>recordUsage\<close> has returned, and the \<open>catch\<close> that logs the
  exception and rolls the claim back only while the flag is unset.
\<close>

definition record_call_usage ::
  "handler_env \<Rightarrow> ident \<Rightarrow> request \<Rightarrow> call_log \<Rightarrow> call_log_updates \<Rightarrow> world \<Rightarrow> world" where
  "record_call_usage env restaurantId req callLog updates w =
     (case getAgentConfiguration restaurantId (agentConfigurations w) of
        Inl usageError \<Rightarrow>
          rollback_claim (cl_id callLog)
            (w\<lparr>console := console w @ [ConsoleError ''Failed to record usage:'' usageError]\<rparr>)
      | Inr None \<Rightarrow>
          rollback_claim (cl_id callLog)
            (w\<lparr>console := console w @ [ConsoleWarn ''no billing user set, rolling back usage claim'']\<rparr>)
      | Inr (Some agentConfig) \<Rightarrow>
          if ac_billingUserId agentConfig = []
          then rollback_claim (cl_id callLog)
                 (w\<lparr>console := console w @ [ConsoleWarn ''no billing user set, rolling back usage claim'']\<rparr>)
          else
            (let seconds = durationSeconds updates callLog req
             in case recordUsage (h_record env Call) (ac_billingUserId agentConfig) restaurantId Call 1 w of
                  (Some usageError, w1) \<Rightarrow>
                    rollback_claim (cl_id callLog)
                      (w1\<lparr>console := console w1 @ [ConsoleError ''Failed to record usage:'' usageError]\<rparr>)
                | (None, w1) \<Rightarrow>
                    (case ceil_minutes seconds of
                       JNaN \<Rightarrow> w1
                     | JNum minutes \<Rightarrow>
                         if minutes > 0
                         then (case recordUsage (h_record env Minute) (ac_billingUserId agentConfig)
                                      restaurantId Minute minutes w1 of
                                 (Some usageError, w2) \<Rightarrow>
                                   w2\<lparr>console := console w2 @ [ConsoleError ''Failed to record usage:'' usageError]\<rparr>
                               | (None, w2) \<Rightarrow> w2)
                         else w1)))"

text \<open>
  The handler; the result is the HTTP status and the new state. An exception that leaves
  the lookup or the status update reaches the outer \<open>catch\<close>, which logs it and answers
  500; nothing was written by then. The claim and its rollback take no value from the
  request and are taken to succeed.
\<close>

definition status_error :: "exn \<Rightarrow> world \<Rightarrow> nat \<times> world" where
  "status_error error w = (500, w\<lparr>console := console w @ [ConsoleError ''Status callback error:'' error]\<rparr>)"

definition statusCallback :: "handler_env \<Rightarrow> ident \<Rightarrow> request \<Rightarrow> world \<Rightarrow> nat \<times> world" where
  "statusCallback env restaurantId req w =
     (case findCallLog restaurantId req (callLogs w) of
        Inl error \<Rightarrow> status_error error w
      | Inr None \<Rightarrow> (200, w)
      | Inr (Some callLog) \<Rightarrow>
          (let updates = status_updates (h_now env) req callLog
           in case updateCallLog (cl_id callLog) updates (callLogs w) of
                Inl error \<Rightarrow> status_error error w
              | Inr (updated, tbl1) \<Rightarrow>
                  (let w1 = w\<lparr>callLogs := tbl1\<rparr>
                   in if CallStatus req = Some ''completed'' \<and> cl_usageRecordedAt callLog = None
                      then (let (claimedForRecording, tbl) =
                                  markUsageRecorded (h_now env) (cl_id callLog) (callLogs w1);
                                w2 = w1\<lparr>callLogs := tbl\<rparr>
                            in if claimedForRecording
                               then (200, record_call_usage env restaurantId req callLog updates w2)
                               else (200, w2))
                      else (200, w1))))"

section \<open>Scheduled reset sweepers\<close>

datatype override_status = Active | Deleted

record menu_override =
  mo_id :: ident
  mo_agentConfigurationId :: ident
  mo_content :: string
  mo_resetAt :: "timestamp option"
  mo_status :: override_status

definition due :: "timestamp \<Rightarrow> timestamp option \<Rightarrow> bool" where
  \<comment> \<open>\<open>reset_at IS NOT NULL AND reset_at <= now\<close>\<close>
  "due now t = (case t of None \<Rightarrow> False | Some resetAt \<Rightarrow> resetAt \<le> now)"

definition getAgentsNeedingWaitTimeReset ::
  "timestamp \<Rightarrow> agent_configuration list \<Rightarrow> agent_configuration list" where
  "getAgentsNeedingWaitTimeReset now tbl = sql_select (\<lambda>a. due now (ac_resetWaitTimeAt a)) tbl"

definition getOverridesNeedingAutoDelete :: "timestamp \<Rightarrow> menu_override list \<Rightarrow> menu_override list" where
  "getOverridesNeedingAutoDelete now tbl =
     sql_select (\<lambda>m. mo_status m = Active \<and> due now (mo_resetAt m)) tbl"

text \<open>
  The conditional update of \<open>WaitTimeResetScheduler.checkAndResetWaitTimes\<close> for the row
  \<open>agent\<close> as it was read, against the table as it is now. The guard
  \<open>originalResetTime ? eq(..., originalResetTime) : ... IS NULL\<close> is equality of the nullable
  column with the value read. The result is the new table and the returned rows.
\<close>

definition conditionalReset ::
  "agent_configuration \<Rightarrow> agent_configuration list \<Rightarrow> agent_configuration list \<times> agent_configuration list" where
  "conditionalReset agent tbl =
     sql_update (\<lambda>r. ac_id r = ac_id agent \<and> ac_resetWaitTimeAt r = ac_resetWaitTimeAt agent)
                (\<lambda>r. r\<lparr>ac_waitTimeMinutes := ac_defaultWaitTimeMinutes agent,
                       ac_resetWaitTimeAt := None\<rparr>) tbl"

text \<open>
  The loop over the rows read. \<open>fails\<close> tells for which row ids the statement throws; the
  \<open>catch\<close> inside the loop logs and the loop goes on. The state of the loop is the table,
  the counter \<open>resetCount\<close> and the \<open>console.error\<close> lines.
\<close>

datatype sweep_error = SweepError ident

fun resetLoop ::
  "(ident \<Rightarrow> bool) \<Rightarrow> agent_configuration list \<Rightarrow> agent_configuration list \<times> nat \<times> sweep_error list
     \<Rightarrow> agent_configuration list \<times> nat \<times> sweep_error list" where
  "resetLoop fails [] st = st"
| "resetLoop fails (agent # rest) (tbl, resetCount, errors) =
     (if fails (ac_id agent)
      then resetLoop fails rest (tbl, resetCount, errors @ [SweepError (ac_id agent)])
      else
        (let (tbl', result) = conditionalReset agent tbl
         in if length result > 0 then resetLoop fails rest (tbl', resetCount + 1, errors)
            else resetLoop fails rest (tbl', resetCount, errors)))"

definition checkAndResetWaitTimes ::
  "timestamp \<Rightarrow> (ident \<Rightarrow> bool) \<Rightarrow> agent_configuration list
     \<Rightarrow> agent_configuration list \<times> nat \<times> sweep_error list" where
  "checkAndResetWaitTimes now fails tbl =
     (let agentsToReset = getAgentsNeedingWaitTimeReset now tbl
      in if length agentsToReset = 0 then (tbl, 0, [])
         else resetLoop fails agentsToReset (tbl, 0, []))"

text \<open>
  The same for \<open>MenuOverrideResetScheduler.checkAndDeleteExpiredOverrides\<close>, whose guard
  also re-checks the status read.
\<close>

definition conditionalDelete ::
  "menu_override \<Rightarrow> menu_override list \<Rightarrow> menu_override list \<times> menu_override list" where
  "conditionalDelete override tbl =
     sql_update (\<lambda>r. mo_id r = mo_id override \<and> mo_status r = mo_status override
                      \<and> mo_resetAt r = mo_resetAt override)
                (\<lambda>r. r\<lparr>mo_status := Deleted\<rparr>) tbl"

fun deleteLoop ::
  "(ident \<Rightarrow> bool) \<Rightarrow> menu_override list \<Rightarrow> menu_override list \<times> nat \<times> sweep_error list
     \<Rightarrow> menu_override list \<times> nat \<times> sweep_error list" where
  "deleteLoop fails [] st = st"
| "deleteLoop fails (override # rest) (tbl, deletedCount, errors) =
     (if fails (mo_id override)
      then deleteLoop fails rest (tbl, deletedCount, errors @ [SweepError (mo_id override)])
      else
        (let (tbl', result) = conditionalDelete override tbl
         in if length result > 0 then deleteLoop fails rest (tbl', deletedCount + 1, errors)
            else deleteLoop fails rest (tbl', deletedCount, errors)))"

definition checkAndDeleteExpiredOverrides ::
  "timestamp \<Rightarrow> (ident \<Rightarrow> bool) \<Rightarrow> menu_override list
     \<Rightarrow> menu_override list \<times> nat \<times> sweep_error list" where
  "checkAndDeleteExpiredOverrides now fails tbl =
     (let overridesToDelete = getOverridesNeedingAutoDelete now tbl
      in if length overridesToDelete = 0 then (tbl, 0, [])
         else deleteLoop fails overridesToDelete (tbl, 0, []))"

section \<open>Observations on a state\<close>

text \<open>The number of meter events sent to Stripe so far (accepted or not).\<close>

definition submissions :: "world \<Rightarrow> nat" where
  "submissions w = length (filter is_submission (stripeCalls w))"

text \<open>The table after the rows with an id in \<open>ids\<close> were marked reported under \<open>eid\<close>.\<close>

definition marked :: "ident set \<Rightarrow> string \<Rightarrow> usage_record list \<Rightarrow> usage_record list" where
  "marked ids eid tbl = map (\<lambda>r. if ur_id r \<in> ids then mark_reported eid r else r) tbl"

text \<open>
  The state in which the handler starts to record usage: the status update written and the
  claim set.
\<close>

definition claimed_state :: "handler_env \<Rightarrow> request \<Rightarrow> call_log \<Rightarrow> world \<Rightarrow> world" where
  "claimed_state env req callLog w =
     w\<lparr>callLogs := snd (markUsageRecorded (h_now env) (cl_id callLog)
                        (snd (write_call_log (cl_id callLog) (status_updates (h_now env) req callLog)
                                (callLogs w))))\<rparr>"

text \<open>The usage type and quantity of each ledger entry, in the order of the table.\<close>

definition ledger :: "world \<Rightarrow> (usage_type \<times> int) list" where
  "ledger w = map (\<lambda>r. (ur_type r, ur_quantity r)) (usageRecords w)"

text \<open>The usage-recorded timestamp of the call log with the given id, if there is one.\<close>

definition usageRecordedAt_of :: "ident \<Rightarrow> world \<Rightarrow> timestamp option option" where
  "usageRecordedAt_of i w = map_option cl_usageRecordedAt (getCallLogById i (callLogs w))"

section \<open>Example states\<close>

text \<open>
  A restaurant \<open>r1\<close> whose agent bills user \<open>u1\<close>, on the starter plan with 20 included
  calls and 24 calls used so far; one call in progress; and the callback that reports it
  completed after 61 seconds.
\<close>

definition call1 :: call_log where
  "call1 = \<lparr>cl_id = ''c1'', cl_restaurantId = ''r1'', cl_customerPhone = ''+15550100'',
            cl_twilioCallSid = Some ''CA1'', cl_duration = None, cl_status = InProgress,
            cl_lastPolledAt = None, cl_usageRecordedAt = None, cl_createdAt = Some 1\<rparr>"

definition agent1 :: agent_configuration where
  "agent1 = \<lparr>ac_id = ''a1'', ac_restaurantId = ''r1'', ac_billingUserId = ''u1'',
             ac_waitTimeMinutes = 45, ac_defaultWaitTimeMinutes = 30,
             ac_resetWaitTimeAt = Some 100\<rparr>"

definition user1 :: user where
  "user1 = \<lparr>u_id = ''u1'', u_stripeCustomerId = Some ''cus_1'',
            u_stripeSubscriptionId = Some ''sub_1'', u_subscriptionPlan = Some ''starter'',
            u_billingCycleStart = Some 0, u_monthlyCallsUsed = Some 24,
            u_monthlyMinutesUsed = Some 0\<rparr>"

definition price1 :: subscription_price where
  "price1 = \<lparr>sp_plan = ''Starter'', sp_stripeMeteredPriceId = Some ''price_m'',
             sp_includedMinutes = None, sp_includedCalls = Some 20,
             sp_perMinuteOverage = None, sp_perCallOverage = Some 50\<rparr>"

definition world1 :: world where
  "world1 = \<lparr>callLogs = [call1], agentConfigurations = [agent1], users = [user1],
             subscriptionPrices = [price1], usageRecords = [], stripeCalls = [], console = []\<rparr>"

text \<open>
  The same account one call over its allowance, with one call entry not yet reported.
\<close>

definition record1 :: usage_record where
  "record1 = \<lparr>ur_id = ''n0'', ur_userId = ''u1'', ur_restaurantId = Some ''r1'', ur_type = Call,
              ur_quantity = 1, ur_reportedToStripe = Some False, ur_stripeUsageRecordId = None,
              ur_billingPeriod = Some 0\<rparr>"

definition world2 :: world where
  "world2 = world1\<lparr>users := [user1\<lparr>u_monthlyCallsUsed := Some 25\<rparr>], usageRecords := [record1]\<rparr>"

definition override1 :: menu_override where
  "override1 = \<lparr>mo_id = ''m1'', mo_agentConfigurationId = ''a1'', mo_content = ''no soup today'',
                mo_resetAt = Some 100, mo_status = Active\<rparr>"

text \<open>The same state with a billing user who has no Stripe subscription.\<close>

definition world3 :: world where
  "world3 = world1\<lparr>users := [user1\<lparr>u_stripeSubscriptionId := None\<rparr>]\<rparr>"

text \<open>An account on the unlimited plan with heavy usage.\<close>

definition price_unlimited :: subscription_price where
  "price_unlimited = \<lparr>sp_plan = ''Unlimited'', sp_stripeMeteredPriceId = Some ''price_u'',
                      sp_includedMinutes = None, sp_includedCalls = None,
                      sp_perMinuteOverage = None, sp_perCallOverage = None\<rparr>"

definition world4 :: world where
  "world4 = world2\<lparr>users := [user1\<lparr>u_subscriptionPlan := Some ''unlimited'',
                                     u_monthlyCallsUsed := Some 5000,
                                     u_monthlyMinutesUsed := Some 90000\<rparr>],
                    subscriptionPrices := [price1, price_unlimited]\<rparr>"

definition request1 :: request where
  "request1 = \<lparr>CallSid = Some ''CA1'', CallStatus = Some ''completed'',
               CallDuration = Some ''61'', From = Some ''+15550100''\<rparr>"

text \<open>
  A callback that reports the call busy after 61 seconds, and one whose duration is beyond
  the 32 bits of the column.
\<close>

definition request2 :: request where
  "request2 = request1\<lparr>CallStatus := Some ''busy''\<rparr>"

definition request3 :: request where
  "request3 = request1\<lparr>CallStatus := Some ''busy'', CallDuration := Some ''2147483648''\<rparr>"

text \<open>The first state with the call counter of the billing user at the top of its column.\<close>

definition world5 :: world where
  "world5 = world1\<lparr>users := [user1\<lparr>u_monthlyCallsUsed := Some 2147483647\<rparr>]\<rparr>"

definition stripe_ok :: stripe_behaviour where
  "stripe_ok = \<lparr>sb_retrieve = Inr [''price_m''],
                sb_create = Inr \<lparr>ev_id = None, ev_identifier = ''u1_1000''\<rparr>\<rparr>"

definition stripe_down :: stripe_behaviour where
  "stripe_down = \<lparr>sb_retrieve = Inr [''price_m''], sb_create = Inl (StripeError ''timeout'')\<rparr>"

definition env_of :: "bool \<Rightarrow> stripe_behaviour \<Rightarrow> usage_type \<Rightarrow> env" where
  "env_of insertFails stripe type =
     \<lparr>e_now = 1000, e_newId = (if type = Call then ''n1'' else ''n2''),
      e_insertFails = insertFails, e_stripe = stripe\<rparr>"

definition henv :: "bool \<Rightarrow> stripe_behaviour \<Rightarrow> handler_env" where
  "henv insertFails stripe = \<lparr>h_now = 1000, h_record = env_of insertFails stripe\<rparr>"

section \<open>The claim is won at most once\<close>

lemma markUsageRecorded_won:
  "fst (markUsageRecorded now i tbl) \<longleftrightarrow>
     (\<exists>r \<in> set tbl. cl_id r = i \<and> cl_usageRecordedAt r = None)"
  by (auto simp: markUsageRecorded_def sql_update_def filter_empty_conv)

lemma markUsageRecorded_claimed:
  assumes mem: "r' \<in> set (snd (markUsageRecorded now i tbl))" and i: "cl_id r' = i"
  shows "cl_usageRecordedAt r' \<noteq> None"
proof -
  from mem obtain r where r: "r \<in> set tbl"
    and r': "r' = (if cl_id r = i \<and> cl_usageRecordedAt r = None
                  then r\<lparr>cl_usageRecordedAt := Some now\<rparr> else r)"
    by (auto simp: markUsageRecorded_def sql_update_def)
  show ?thesis
  proof (cases "cl_id r = i \<and> cl_usageRecordedAt r = None")
    case True
    with r' show ?thesis by simp
  next
    case False
    with r' i show ?thesis by simp
  qed
qed

lemma call_log_ids_unique:
  "distinct (map cl_id tbl) \<Longrightarrow> r \<in> set tbl \<Longrightarrow> r' \<in> set tbl \<Longrightarrow> cl_id r' = cl_id r \<Longrightarrow> r' = r"
  by (meson distinct_map inj_onD)

lemma claimAll_none:
  "\<forall>r \<in> set tbl. cl_id r = i \<longrightarrow> cl_usageRecordedAt r \<noteq> None \<Longrightarrow>
   filter (\<lambda>won. won) (fst (claimAll nows i tbl)) = []"
proof (induction nows arbitrary: tbl)
  case Nil
  then show ?case by simp
next
  case (Cons now nows)
  have lost: "\<not> fst (markUsageRecorded now i tbl)"
    using Cons.prems by (simp add: markUsageRecorded_won)
  have "\<forall>r \<in> set (snd (markUsageRecorded now i tbl)). cl_id r = i \<longrightarrow> cl_usageRecordedAt r \<noteq> None"
    using markUsageRecorded_claimed by blast
  from Cons.IH [OF this] lost show ?case
    by (simp add: split_beta)
qed

lemma claimAll_count:
  "length (filter (\<lambda>won. won) (fst (claimAll nows i tbl))) =
     (if (\<exists>r \<in> set tbl. cl_id r = i \<and> cl_usageRecordedAt r = None) \<and> nows \<noteq> [] then 1 else 0)"
proof (cases nows)
  case Nil
  then show ?thesis by simp
next
  case (Cons now rest)
  have "filter (\<lambda>won. won) (fst (claimAll rest i (snd (markUsageRecorded now i tbl)))) = []"
    using markUsageRecorded_claimed by (intro claimAll_none) blast
  then show ?thesis
    using Cons by (simp add: split_beta markUsageRecorded_won)
qed

text \<open>
  C1. Let \<open>r\<close> be the call record with id \<open>i\<close> (ids are the primary key, so it is the only
  one). \<open>markUsageRecorded\<close> returns true exactly when \<open>r\<close>'s usage-recorded timestamp was
  null before the conditional write, and after a true return the record's timestamp is
  set. Hence, in any sequence of claim attempts on \<open>i\<close> with nothing in between, the number
  of attempts that return true is one if the record was unclaimed and the sequence is not
  empty, and zero otherwise: one attempt wins and all others lose.
\<close>

theorem markUsageRecorded_claims_once:
  assumes "distinct (map cl_id tbl)" and "r \<in> set tbl" and "cl_id r = i"
  shows "(fst (markUsageRecorded now i tbl) \<longleftrightarrow> cl_usageRecordedAt r = None)
       \<and> (fst (markUsageRecorded now i tbl) \<longrightarrow>
            (\<forall>r' \<in> set (snd (markUsageRecorded now i tbl)). cl_id r' = i \<longrightarrow> cl_usageRecordedAt r' \<noteq> None))
       \<and> length (filter (\<lambda>won. won) (fst (claimAll nows i tbl))) =
            (if cl_usageRecordedAt r = None \<and> nows \<noteq> [] then 1 else 0)"
proof -
  have ex: "(\<exists>r' \<in> set tbl. cl_id r' = i \<and> cl_usageRecordedAt r' = None) \<longleftrightarrow> cl_usageRecordedAt r = None"
    using assms call_log_ids_unique by blast
  show ?thesis
    using ex markUsageRecorded_claimed by (simp add: markUsageRecorded_won claimAll_count)
qed

theorem markUsageRecorded_claims_once_witness:
  "distinct (map cl_id [call1]) \<and> call1 \<in> set [call1] \<and> cl_id call1 = ''c1''
   \<and> fst (markUsageRecorded 10 ''c1'' [call1])
   \<and> map cl_usageRecordedAt (snd (markUsageRecorded 10 ''c1'' [call1])) = [Some 10]
   \<and> length (filter (\<lambda>won. won) (fst (claimAll [10, 11, 12] ''c1'' [call1]))) = 1"
proof -
  have h: "distinct (map cl_id [call1])" "call1 \<in> set [call1]" "cl_id call1 = ''c1''"
    by (simp_all add: call1_def)
  have n: "cl_usageRecordedAt call1 = None"
    by (simp add: call1_def)
  have u: "map cl_usageRecordedAt (snd (markUsageRecorded 10 ''c1'' [call1])) = [Some 10]"
    by (simp add: call1_def markUsageRecorded_def sql_update_def)
  note t = markUsageRecorded_claims_once [OF h, of 10 "[10, 11, 12]"]
  have w: "fst (markUsageRecorded 10 ''c1'' [call1])"
    using t n by blast
  have c: "length (filter (\<lambda>won. won) (fst (claimAll [10, 11, 12] ''c1'' [call1]))) = 1"
    using t n by (simp del: claimAll.simps)
  show ?thesis
    using h w u c by blast
qed

section \<open>Call log lookups and updates\<close>

lemma getCallLogById_Nil [simp]: "getCallLogById i [] = None"
  by (simp add: getCallLogById_def sql_select_def)

lemma getCallLogById_Cons [simp]:
  "getCallLogById i (r # rs) = (if cl_id r = i then Some r else getCallLogById i rs)"
  by (simp add: getCallLogById_def sql_select_def)

lemma getCallLogById_map:
  assumes "\<And>r. cl_id (f r) = cl_id r"
  shows "getCallLogById i (map (\<lambda>r. if cl_id r = i then f r else r) tbl) = map_option f (getCallLogById i tbl)"
  using assms by (induction tbl) simp_all

lemma getCallLogById_mem: "r \<in> set tbl \<Longrightarrow> getCallLogById (cl_id r) tbl \<noteq> None"
  by (induction tbl) auto

lemma getCallLogById_SomeD: "getCallLogById i tbl = Some r \<Longrightarrow> r \<in> set tbl \<and> cl_id r = i"
  by (induction tbl) (auto split: if_splits)

lemma cl_id_set_call_log [simp]: "cl_id (set_call_log u r) = cl_id r"
  by (simp add: set_call_log_def)

lemma write_call_log_snd:
  "snd (write_call_log i u tbl) = map (\<lambda>r. if cl_id r = i then set_call_log u r else r) tbl"
  by (simp add: write_call_log_def sql_update_def)

lemma getCallLogById_write_call_log:
  "getCallLogById i (snd (write_call_log i u tbl)) = map_option (set_call_log u) (getCallLogById i tbl)"
  unfolding write_call_log_snd by (rule getCallLogById_map) simp

lemma markUsageRecorded_snd:
  "snd (markUsageRecorded now i tbl) =
     map (\<lambda>r. if cl_id r = i then (if cl_usageRecordedAt r = None then r\<lparr>cl_usageRecordedAt := Some now\<rparr> else r) else r) tbl"
  by (simp add: markUsageRecorded_def sql_update_def)

lemma getCallLogById_markUsageRecorded:
  "getCallLogById i (snd (markUsageRecorded now i tbl)) =
     map_option (\<lambda>r. if cl_usageRecordedAt r = None then r\<lparr>cl_usageRecordedAt := Some now\<rparr> else r)
       (getCallLogById i tbl)"
  unfolding markUsageRecorded_snd by (rule getCallLogById_map) simp

lemma findCallLog_mem:
  assumes "findCallLog restaurantId req tbl = Inr (Some c)"
  shows "c \<in> set tbl"
proof -
  have sid: "c \<in> set tbl" if "getCallLogByTwilioSid s tbl = Inr (Some c)" for s
  proof -
    from that obtain rest where "filter (\<lambda>r. cl_twilioCallSid r = Some s) tbl = c # rest"
      by (auto simp: getCallLogByTwilioSid_def sql_select_def split: list.splits if_splits)
    then have "c \<in> set (filter (\<lambda>r. cl_twilioCallSid r = Some s) tbl)" by simp
    then show ?thesis by simp
  qed
  have fb: "c \<in> set tbl"
    if "getCallLogsByRestaurant restaurantId n tbl = Inr calls" and "find P calls = Some c" for P n calls
  proof -
    from that(2) have "c \<in> set calls"
      by (auto simp: find_Some_iff)
    moreover from that(1)
    have "calls = take n (newest_first (sql_select (\<lambda>r. cl_restaurantId r = restaurantId) tbl))"
      by (simp add: getCallLogsByRestaurant_def split: if_splits)
    ultimately have "c \<in> set (newest_first (sql_select (\<lambda>r. cl_restaurantId r = restaurantId) tbl))"
      by (auto dest: in_set_takeD)
    then show ?thesis
      by (auto simp: newest_first_def sql_select_def)
  qed
  from assms show ?thesis
    unfolding findCallLog_def
    by (auto split: option.splits if_splits sum.splits dest: sid fb)
qed

section \<open>Overage reporting\<close>

subsection \<open>What the service leaves alone\<close>

lemma submit_overage_frame:
  "callLogs (snd (submit_overage now s uid u sid p ty w)) = callLogs w
   \<and> agentConfigurations (snd (submit_overage now s uid u sid p ty w)) = agentConfigurations w
   \<and> users (snd (submit_overage now s uid u sid p ty w)) = users w
   \<and> subscriptionPrices (snd (submit_overage now s uid u sid p ty w)) = subscriptionPrices w"
  by (simp add: submit_overage_def Let_def split: sum.splits)

lemma reportOverages_try_frame:
  "callLogs (snd (reportOverages_try now s uid w)) = callLogs w
   \<and> agentConfigurations (snd (reportOverages_try now s uid w)) = agentConfigurations w
   \<and> users (snd (reportOverages_try now s uid w)) = users w
   \<and> subscriptionPrices (snd (reportOverages_try now s uid w)) = subscriptionPrices w"
  by (simp add: reportOverages_try_def submit_overage_frame split: list.splits option.splits prod.splits)

lemma reportOveragesToStripe_frame:
  "callLogs (snd (reportOveragesToStripe now s uid w)) = callLogs w
   \<and> agentConfigurations (snd (reportOveragesToStripe now s uid w)) = agentConfigurations w
   \<and> users (snd (reportOveragesToStripe now s uid w)) = users w
   \<and> subscriptionPrices (snd (reportOveragesToStripe now s uid w)) = subscriptionPrices w"
proof (cases "reportOverages_try now s uid w")
  case (Pair e w')
  with reportOverages_try_frame [of now s uid w] show ?thesis
    by (cases e) (simp_all add: reportOveragesToStripe_def)
qed

lemma reportOveragesToStripe_returns: "fst (reportOveragesToStripe now s uid w) = None"
  by (simp add: reportOveragesToStripe_def split: prod.splits option.splits)

subsection \<open>The outcomes of one run\<close>

lemma sql_update_fst: "fst (sql_update c f tbl) = map (\<lambda>r. if c r then f r else r) tbl"
  by (simp add: sql_update_def)

lemma submit_overage_cases:
  fixes now s uid u sid p ty w
  defines "res \<equiv> submit_overage now s uid u sid p ty w"
  defines "unreported \<equiv> unreportedRecords uid ty (usageRecords w)"
  defines "w1 \<equiv> w\<lparr>stripeCalls := stripeCalls w @ [SubscriptionsRetrieve sid]\<rparr>"
  defines "req \<equiv> \<lparr>me_event_name = event_name_of ty,
                    me_value = foldl (\<lambda>sum record. sum + ur_quantity record) 0 unreported,
                    me_stripe_customer_id = u_stripeCustomerId u, me_identifier = (uid, now)\<rparr>"
  defines "w2 \<equiv> w\<lparr>stripeCalls := stripeCalls w @ [SubscriptionsRetrieve sid, MeterEventsCreate req]\<rparr>"
  obtains
    (quiet) "res = (None, w)"
  | (retrieve_failed) e where "res = (Some e, w1)"
  | (no_item) "res = (None, w1)"
  | (create_failed) e where "unreported \<noteq> []" and "sb_create s = Inl e"
      and "res = (Some e, w2\<lparr>console := console w @
              [ConsoleError ''[CRITICAL] Failed to send meter event to Stripe'' e]\<rparr>)"
  | (reported) ev where "unreported \<noteq> []" and "sb_create s = Inr ev"
      and "res = (None, w2\<lparr>usageRecords :=
              marked (set (map ur_id unreported)) (event_id ev) (usageRecords w)\<rparr>)"
      and "\<exists>items. sb_retrieve s = Inr items"
proof (cases "unreported = [] \<or> \<not> truthy (sp_stripeMeteredPriceId p)")
  case True
  then have "res = (None, w)"
    unfolding res_def unreported_def submit_overage_def Let_def by auto
  then show ?thesis by (rule quiet)
next
  case go: False
  show ?thesis
  proof (cases "sb_retrieve s")
    case (Inl e)
    with go have "res = (Some e, w1)"
      unfolding res_def unreported_def w1_def submit_overage_def Let_def by simp
    then show ?thesis by (rule retrieve_failed)
  next
    case (Inr items)
    show ?thesis
    proof (cases "find (\<lambda>priceId. Some priceId = sp_stripeMeteredPriceId p) items")
      case None
      with go Inr have "res = (None, w1)"
        unfolding res_def unreported_def w1_def submit_overage_def Let_def by simp
      then show ?thesis by (rule no_item)
    next
      case item: (Some meteredItem)
      show ?thesis
      proof (cases "sb_create s")
        case (Inl e)
        with go Inr item have "res = (Some e, w2\<lparr>console := console w @
              [ConsoleError ''[CRITICAL] Failed to send meter event to Stripe'' e]\<rparr>)"
          unfolding res_def unreported_def w2_def req_def submit_overage_def Let_def by simp
        with go Inl show ?thesis by (intro create_failed) auto
      next
        case (Inr ev)
        with go \<open>sb_retrieve s = Inr items\<close> item
        have "res = (None, w2\<lparr>usageRecords :=
              marked (set (map ur_id unreported)) (event_id ev) (usageRecords w)\<rparr>)"
          unfolding res_def unreported_def w2_def req_def submit_overage_def Let_def marked_def
          by (simp add: sql_update_fst)
        with go Inr \<open>sb_retrieve s = Inr items\<close> show ?thesis by (intro reported) auto
      qed
    qed
  qed
qed

lemma reportOverages_try_cases:
  obtains
    (quiet) "reportOverages_try now s uid w = (None, w)"
  | (submit) user rest sid plan p prest ty q where
      "sql_select (\<lambda>u. u_id u = uid) (users w) = user # rest"
      and "u_stripeSubscriptionId user = Some sid"
      and "u_subscriptionPlan user = Some plan" and "plan \<noteq> []"
      and "sql_select (\<lambda>p. sp_plan p = capitalize plan) (subscriptionPrices w) = p # prest"
      and "overage user p = (Some ty, q)" and "q > 0"
      and "reportOverages_try now s uid w = submit_overage now s uid user sid p ty w"
proof (cases "sql_select (\<lambda>u. u_id u = uid) (users w)")
  case Nil
  then have "reportOverages_try now s uid w = (None, w)"
    by (simp add: reportOverages_try_def)
  then show ?thesis by (rule quiet)
next
  case users: (Cons user rest)
  show ?thesis
  proof (cases "truthy (u_stripeSubscriptionId user) \<and> truthy (u_subscriptionPlan user)")
    case False
    with users have "reportOverages_try now s uid w = (None, w)"
      by (auto simp: reportOverages_try_def)
    then show ?thesis by (rule quiet)
  next
    case True
    then obtain sid plan where sid: "u_stripeSubscriptionId user = Some sid"
      and plan: "u_subscriptionPlan user = Some plan" "plan \<noteq> []"
      by (cases "u_stripeSubscriptionId user"; cases "u_subscriptionPlan user") auto
    show ?thesis
    proof (cases "sql_select (\<lambda>p. sp_plan p = capitalize plan) (subscriptionPrices w)")
      case Nil
      with users True sid plan have "reportOverages_try now s uid w = (None, w)"
        by (simp add: reportOverages_try_def)
      then show ?thesis by (rule quiet)
    next
      case prices: (Cons p prest)
      obtain oty q where ov: "overage user p = (oty, q)"
        by (cases "overage user p")
      show ?thesis
      proof (cases "oty \<noteq> None \<and> q > 0")
        case False
        with users True sid plan prices ov have "reportOverages_try now s uid w = (None, w)"
          by (cases oty) (simp_all add: reportOverages_try_def)
        then show ?thesis by (rule quiet)
      next
        case go: True
        then obtain ty where ty: "oty = Some ty" by auto
        with users True sid plan prices ov go
        have "reportOverages_try now s uid w = submit_overage now s uid user sid p ty w"
          by (simp add: reportOverages_try_def)
        with users sid plan prices ov ty go show ?thesis
          by (intro submit [of user rest sid plan p prest ty q]) auto
      qed
    qed
  qed
qed

lemma submissions_append [simp]:
  "submissions (w\<lparr>stripeCalls := stripeCalls w @ cs\<rparr>) = submissions w + length (filter is_submission cs)"
  by (simp add: submissions_def)

lemma submissions_frame [simp]:
  "submissions (w\<lparr>console := c\<rparr>) = submissions w"
  "submissions (w\<lparr>usageRecords := u\<rparr>) = submissions w"
  by (simp_all add: submissions_def)

lemma reportOveragesToStripe_cases:
  fixes now s uid w
  defines "res \<equiv> reportOveragesToStripe now s uid w"
  obtains
    (quiet) "res = (None, w)"
  | (no_event) sid lg where
      "res = (None, w\<lparr>stripeCalls := stripeCalls w @ [SubscriptionsRetrieve sid],
                       console := console w @ lg\<rparr>)"
  | (create_failed) user rest sid plan p prest ty q e where
      "sql_select (\<lambda>u. u_id u = uid) (users w) = user # rest"
      and "u_stripeSubscriptionId user = Some sid"
      and "u_subscriptionPlan user = Some plan" and "plan \<noteq> []"
      and "sql_select (\<lambda>p. sp_plan p = capitalize plan) (subscriptionPrices w) = p # prest"
      and "overage user p = (Some ty, q)" and "q > 0"
      and "unreportedRecords uid ty (usageRecords w) \<noteq> []"
      and "sb_create s = Inl e"
      and "res = (None,
             w\<lparr>stripeCalls := stripeCalls w @
                  [SubscriptionsRetrieve sid,
                   MeterEventsCreate
                     \<lparr>me_event_name = event_name_of ty,
                      me_value = foldl (\<lambda>sum record. sum + ur_quantity record) 0
                                   (unreportedRecords uid ty (usageRecords w)),
                      me_stripe_customer_id = u_stripeCustomerId user,
                      me_identifier = (uid, now)\<rparr>],
               console := console w @
                  [ConsoleError ''[CRITICAL] Failed to send meter event to Stripe'' e,
                   ConsoleError ''[reportOveragesToStripe] Error:'' e]\<rparr>)"
  | (reported) user rest sid plan p prest ty q ev where
      "sql_select (\<lambda>u. u_id u = uid) (users w) = user # rest"
      and "u_stripeSubscriptionId user = Some sid"
      and "u_subscriptionPlan user = Some plan" and "plan \<noteq> []"
      and "sql_select (\<lambda>p. sp_plan p = capitalize plan) (subscriptionPrices w) = p # prest"
      and "overage user p = (Some ty, q)" and "q > 0"
      and "unreportedRecords uid ty (usageRecords w) \<noteq> []"
      and "sb_create s = Inr ev"
      and "res = (None,
             w\<lparr>stripeCalls := stripeCalls w @
                  [SubscriptionsRetrieve sid,
                   MeterEventsCreate
                     \<lparr>me_event_name = event_name_of ty,
                      me_value = foldl (\<lambda>sum record. sum + ur_quantity record) 0
                                   (unreportedRecords uid ty (usageRecords w)),
                      me_stripe_customer_id = u_stripeCustomerId user,
                      me_identifier = (uid, now)\<rparr>],
               usageRecords := marked (set (map ur_id (unreportedRecords uid ty (usageRecords w))))
                                 (event_id ev) (usageRecords w)\<rparr>)"
      and "\<exists>items. sb_retrieve s = Inr items"
proof (cases rule: reportOverages_try_cases [of now s uid w])
  case quiet
  then have "res = (None, w)" by (simp add: res_def reportOveragesToStripe_def)
  then show ?thesis by (rule that(1))
next
  case ctx: (submit user rest sid plan p prest ty q)
  show ?thesis
  proof (cases rule: submit_overage_cases [of now s uid user sid p ty w])
    case quiet
    with ctx(8) have "res = (None, w)" by (simp add: res_def reportOveragesToStripe_def)
    then show ?thesis by (rule that(1))
  next
    case (retrieve_failed e)
    with ctx(8) have "res = (None, w\<lparr>stripeCalls := stripeCalls w @ [SubscriptionsRetrieve sid],
                       console := console w @ [ConsoleError ''[reportOveragesToStripe] Error:'' e]\<rparr>)"
      by (simp add: res_def reportOveragesToStripe_def)
    then show ?thesis by (rule that(2))
  next
    case no_item
    with ctx(8) have "res = (None, w\<lparr>stripeCalls := stripeCalls w @ [SubscriptionsRetrieve sid],
                       console := console w @ []\<rparr>)"
      by (simp add: res_def reportOveragesToStripe_def)
    then show ?thesis by (rule that(2))
  next
    case (create_failed e)
    from create_failed(3) ctx(8) have "res = (None,
             w\<lparr>stripeCalls := stripeCalls w @
                  [SubscriptionsRetrieve sid,
                   MeterEventsCreate
                     \<lparr>me_event_name = event_name_of ty,
                      me_value = foldl (\<lambda>sum record. sum + ur_quantity record) 0
                                   (unreportedRecords uid ty (usageRecords w)),
                      me_stripe_customer_id = u_stripeCustomerId user,
                      me_identifier = (uid, now)\<rparr>],
               console := console w @
                  [ConsoleError ''[CRITICAL] Failed to send meter event to Stripe'' e,
                   ConsoleError ''[reportOveragesToStripe] Error:'' e]\<rparr>)"
      by (simp add: res_def reportOveragesToStripe_def)
    with ctx create_failed(1,2) show ?thesis by (intro that(3)) 
  next
    case (reported ev)
    from reported(3) ctx(8) have "res = (None,
             w\<lparr>stripeCalls := stripeCalls w @
                  [SubscriptionsRetrieve sid,
                   MeterEventsCreate
                     \<lparr>me_event_name = event_name_of ty,
                      me_value = foldl (\<lambda>sum record. sum + ur_quantity record) 0
                                   (unreportedRecords uid ty (usageRecords w)),
                      me_stripe_customer_id = u_stripeCustomerId user,
                      me_identifier = (uid, now)\<rparr>],
               usageRecords := marked (set (map ur_id (unreportedRecords uid ty (usageRecords w))))
                                 (event_id ev) (usageRecords w)\<rparr>)"
      by (simp add: res_def reportOveragesToStripe_def)
    with ctx reported(1,2,4) show ?thesis by (intro that(4))
  qed
qed

lemma foldl_quantity: "foldl (\<lambda>sum record. sum + ur_quantity record) a xs = a + sum_list (map ur_quantity xs)"
  by (induction xs arbitrary: a) simp_all

lemma unreportedRecords_mem:
  "r \<in> set (unreportedRecords uid ty tbl) \<longleftrightarrow>
     r \<in> set tbl \<and> ur_userId r = uid \<and> ur_type r = ty \<and> ur_reportedToStripe r = Some False"
  by (auto simp: unreportedRecords_def sql_select_def)

lemma mark_reported_simps [simp]:
  "ur_id (mark_reported eid r) = ur_id r"
  "ur_userId (mark_reported eid r) = ur_userId r"
  "ur_type (mark_reported eid r) = ur_type r"
  "ur_quantity (mark_reported eid r) = ur_quantity r"
  "ur_reportedToStripe (mark_reported eid r) = Some True"
  "ur_stripeUsageRecordId (mark_reported eid r) = Some eid"
  by (simp_all add: mark_reported_def)

lemma marked_included:
  assumes "r' \<in> set (marked ids eid tbl)" and "ur_id r' \<in> ids"
  shows "ur_reportedToStripe r' = Some True \<and> ur_stripeUsageRecordId r' = Some eid"
proof -
  from assms(1) obtain r where r: "r \<in> set tbl"
    and r': "r' = (if ur_id r \<in> ids then mark_reported eid r else r)"
    by (auto simp: marked_def)
  show ?thesis
  proof (cases "ur_id r \<in> ids")
    case True
    with r' show ?thesis by simp
  next
    case False
    with r' assms(2) show ?thesis by simp
  qed
qed

lemma marked_changes:
  assumes "unreportedRecords uid ty tbl \<noteq> []"
  shows "marked (ur_id ` set (unreportedRecords uid ty tbl)) eid tbl \<noteq> tbl"
proof
  assume same: "marked (ur_id ` set (unreportedRecords uid ty tbl)) eid tbl = tbl"
  from assms obtain r where r: "r \<in> set (unreportedRecords uid ty tbl)"
    by (cases "unreportedRecords uid ty tbl") auto
  then have mem: "r \<in> set tbl" and un: "ur_reportedToStripe r = Some False"
    by (simp_all add: unreportedRecords_mem)
  from mem same have "r \<in> set (marked (ur_id ` set (unreportedRecords uid ty tbl)) eid tbl)"
    by simp
  moreover from r have "ur_id r \<in> ur_id ` set (unreportedRecords uid ty tbl)"
    by (rule imageI)
  ultimately have "ur_reportedToStripe r = Some True"
    using marked_included by blast
  with un show False by simp
qed

lemma unreported_marked:
  "unreportedRecords uid ty (marked (ur_id ` set (unreportedRecords uid ty tbl)) eid tbl) = []"
proof -
  have "\<not> (ur_userId r' = uid \<and> ur_type r' = ty \<and> ur_reportedToStripe r' = Some False)"
    if "r' \<in> set (marked (ur_id ` set (unreportedRecords uid ty tbl)) eid tbl)" for r'
  proof -
    from that obtain r where r: "r \<in> set tbl"
      and r': "r' = (if ur_id r \<in> ur_id ` set (unreportedRecords uid ty tbl)
                     then mark_reported eid r else r)"
      by (auto simp: marked_def)
    show ?thesis
    proof (cases "ur_id r \<in> ur_id ` set (unreportedRecords uid ty tbl)")
      case True
      with r' show ?thesis by simp
    next
      case False
      then have "r \<notin> set (unreportedRecords uid ty tbl)" by blast
      with r False r' show ?thesis by (simp add: unreportedRecords_mem)
    qed
  qed
  then show ?thesis
    unfolding unreportedRecords_def sql_select_def filter_empty_conv by blast
qed

subsection \<open>Entries are marked exactly when Stripe accepts the event\<close>

text \<open>
  C4, as the code has it. \<open>reportOveragesToStripe\<close> never lets an exception reach its
  caller: the outer \<open>catch\<close> logs it. The ledger changes in a run exactly when a meter
  event was sent and Stripe accepted it. In that case one event was sent, for one usage
  type, with the sum of the quantities of that user's unreported entries of that type, and
  every entry with the id of one of them is now reported and carries the provider's event
  identifier, the others being as before. When Stripe rejects the event the ledger is
  unchanged and the error is written to \<open>console.error\<close> twice, by the inner and the outer
  \<open>catch\<close>.
\<close>

theorem reportOveragesToStripe_marks_iff_accepted:
  "fst (reportOveragesToStripe now s uid w) = None
   \<and> (usageRecords (snd (reportOveragesToStripe now s uid w)) \<noteq> usageRecords w \<longleftrightarrow>
        submissions (snd (reportOveragesToStripe now s uid w)) = submissions w + 1
        \<and> (\<exists>ev. sb_create s = Inr ev))
   \<and> (\<forall>ev. submissions (snd (reportOveragesToStripe now s uid w)) = submissions w + 1
            \<and> sb_create s = Inr ev \<longrightarrow>
          (\<exists>ty req sid.
              stripeCalls (snd (reportOveragesToStripe now s uid w)) =
                stripeCalls w @ [SubscriptionsRetrieve sid, MeterEventsCreate req]
            \<and> me_event_name req = event_name_of ty
            \<and> me_value req = sum_list (map ur_quantity (unreportedRecords uid ty (usageRecords w)))
            \<and> usageRecords (snd (reportOveragesToStripe now s uid w)) =
                marked (ur_id ` set (unreportedRecords uid ty (usageRecords w))) (event_id ev)
                  (usageRecords w)
            \<and> (\<forall>r \<in> set (usageRecords (snd (reportOveragesToStripe now s uid w))).
                  ur_id r \<in> ur_id ` set (unreportedRecords uid ty (usageRecords w)) \<longrightarrow>
                  ur_reportedToStripe r = Some True
                  \<and> ur_stripeUsageRecordId r = Some (event_id ev))))
   \<and> (\<forall>e. sb_create s = Inl e \<longrightarrow>
          usageRecords (snd (reportOveragesToStripe now s uid w)) = usageRecords w
          \<and> (submissions (snd (reportOveragesToStripe now s uid w)) = submissions w + 1 \<longrightarrow>
               console (snd (reportOveragesToStripe now s uid w)) =
                 console w @ [ConsoleError ''[CRITICAL] Failed to send meter event to Stripe'' e,
                              ConsoleError ''[reportOveragesToStripe] Error:'' e]))"
  (is "?A \<and> ?B \<and> ?C \<and> ?D")
proof (cases rule: reportOveragesToStripe_cases [of now s uid w])
  case quiet
  then show ?thesis by simp
next
  case (no_event sid lg)
  then show ?thesis by simp
next
  case (create_failed user rest sid plan p prest ty q e)
  from create_failed(9,10) show ?thesis by simp
next
  case (reported user rest sid plan p prest ty q ev)
  let ?un = "unreportedRecords uid ty (usageRecords w)"
  note res = reported(10) and acc = reported(9)
  have ch: "marked (ur_id ` set ?un) (event_id ev) (usageRecords w) \<noteq> usageRecords w"
    using reported(8) by (rule marked_changes)
  have a: ?A using res by simp
  have b: ?B using res acc ch by simp
  have d: ?D using acc by simp
  have c: ?C
  proof (intro allI impI)
    fix ev' assume "submissions (snd (reportOveragesToStripe now s uid w)) = submissions w + 1
            \<and> sb_create s = Inr ev'"
    with acc have ev': "ev' = ev" by simp
    let ?req = "\<lparr>me_event_name = event_name_of ty,
                  me_value = foldl (\<lambda>sum record. sum + ur_quantity record) 0 ?un,
                  me_stripe_customer_id = u_stripeCustomerId user,
                  me_identifier = (uid, now)\<rparr>"
    have "stripeCalls (snd (reportOveragesToStripe now s uid w)) =
                stripeCalls w @ [SubscriptionsRetrieve sid, MeterEventsCreate ?req]
            \<and> me_event_name ?req = event_name_of ty
            \<and> me_value ?req = sum_list (map ur_quantity ?un)
            \<and> usageRecords (snd (reportOveragesToStripe now s uid w)) =
                marked (ur_id ` set ?un) (event_id ev') (usageRecords w)
            \<and> (\<forall>r \<in> set (usageRecords (snd (reportOveragesToStripe now s uid w))).
                  ur_id r \<in> ur_id ` set ?un \<longrightarrow>
                  ur_reportedToStripe r = Some True
                  \<and> ur_stripeUsageRecordId r = Some (event_id ev'))"
      using res ev' marked_included [of _ "ur_id ` set ?un" "event_id ev" "usageRecords w"]
      by (simp add: foldl_quantity)
    then show "\<exists>ty req sid.
              stripeCalls (snd (reportOveragesToStripe now s uid w)) =
                stripeCalls w @ [SubscriptionsRetrieve sid, MeterEventsCreate req]
            \<and> me_event_name req = event_name_of ty
            \<and> me_value req = sum_list (map ur_quantity (unreportedRecords uid ty (usageRecords w)))
            \<and> usageRecords (snd (reportOveragesToStripe now s uid w)) =
                marked (ur_id ` set (unreportedRecords uid ty (usageRecords w))) (event_id ev')
                  (usageRecords w)
            \<and> (\<forall>r \<in> set (usageRecords (snd (reportOveragesToStripe now s uid w))).
                  ur_id r \<in> ur_id ` set (unreportedRecords uid ty (usageRecords w)) \<longrightarrow>
                  ur_reportedToStripe r = Some True
                  \<and> ur_stripeUsageRecordId r = Some (event_id ev'))"
      by blast
  qed
  from a b c d show ?thesis by blast
qed

theorem reportOveragesToStripe_marks_iff_accepted_witness:
  "submissions (snd (reportOveragesToStripe 1000 stripe_ok ''u1'' world2)) = submissions world2 + 1
   \<and> sb_create stripe_ok = Inr \<lparr>ev_id = None, ev_identifier = ''u1_1000''\<rparr>
   \<and> usageRecords (snd (reportOveragesToStripe 1000 stripe_ok ''u1'' world2)) \<noteq> usageRecords world2
   \<and> map ur_stripeUsageRecordId (usageRecords (snd (reportOveragesToStripe 1000 stripe_ok ''u1'' world2)))
       = [Some ''u1_1000'']
   \<and> sb_create stripe_down = Inl (StripeError ''timeout'')
   \<and> submissions (snd (reportOveragesToStripe 1000 stripe_down ''u1'' world2)) = submissions world2 + 1
   \<and> usageRecords (snd (reportOveragesToStripe 1000 stripe_down ''u1'' world2)) = usageRecords world2"
proof -
  have s1: "submissions (snd (reportOveragesToStripe 1000 stripe_ok ''u1'' world2)) = submissions world2 + 1"
    by code_simp
  have c1: "sb_create stripe_ok = Inr \<lparr>ev_id = None, ev_identifier = ''u1_1000''\<rparr>"
    by (simp add: stripe_ok_def)
  have i1: "map ur_stripeUsageRecordId (usageRecords (snd (reportOveragesToStripe 1000 stripe_ok ''u1'' world2)))
       = [Some ''u1_1000'']"
    by code_simp
  have s2: "submissions (snd (reportOveragesToStripe 1000 stripe_down ''u1'' world2)) = submissions world2 + 1"
    by code_simp
  have c2: "sb_create stripe_down = Inl (StripeError ''timeout'')"
    by (simp add: stripe_down_def)
  have ch: "usageRecords (snd (reportOveragesToStripe 1000 stripe_ok ''u1'' world2)) \<noteq> usageRecords world2"
    using reportOveragesToStripe_marks_iff_accepted [of 1000 stripe_ok "''u1''" world2] s1 c1
    by blast
  have same: "usageRecords (snd (reportOveragesToStripe 1000 stripe_down ''u1'' world2)) = usageRecords world2"
    using reportOveragesToStripe_marks_iff_accepted [of 1000 stripe_down "''u1''" world2] c2
    by blast
  from s1 c1 i1 s2 c2 ch same show ?thesis by blast
qed

text \<open>
  C4 as stated fails on its last part: with Stripe rejecting the event for the account of
  \<open>world2\<close>, the submission is made and fails, and the caller of
  \<open>reportOveragesToStripe\<close> receives no exception.
\<close>

theorem reportOveragesToStripe_error_not_propagated:
  "\<not> (sb_create stripe_down = Inl (StripeError ''timeout'')
       \<and> submissions (snd (reportOveragesToStripe 1000 stripe_down ''u1'' world2)) = submissions world2 + 1
       \<longrightarrow> fst (reportOveragesToStripe 1000 stripe_down ''u1'' world2) = Some (StripeError ''timeout''))"
  by code_simp

subsection \<open>Reporting twice submits once\<close>

text \<open>
  C7. If a run of \<open>reportOveragesToStripe\<close> sent a meter event and Stripe accepted it, then
  a second run on the state it left, whatever the time and whatever Stripe would answer,
  changes nothing and sends nothing: it reaches the query for the unreported entries of
  the plan's usage type and finds none. One submission is made across the two runs.
\<close>

theorem reportOveragesToStripe_twice:
  assumes "submissions (snd (reportOveragesToStripe now1 s1 uid w)) = submissions w + 1"
    and "sb_create s1 = Inr ev"
  shows "reportOveragesToStripe now2 s2 uid (snd (reportOveragesToStripe now1 s1 uid w)) =
           (None, snd (reportOveragesToStripe now1 s1 uid w))
       \<and> submissions (snd (reportOveragesToStripe now2 s2 uid
                              (snd (reportOveragesToStripe now1 s1 uid w)))) = submissions w + 1
       \<and> (\<exists>user rest plan priceConfig prest overageType overageQuantity.
             sql_select (\<lambda>u. u_id u = uid) (users (snd (reportOveragesToStripe now1 s1 uid w))) = user # rest
           \<and> u_subscriptionPlan user = Some plan
           \<and> sql_select (\<lambda>p. sp_plan p = capitalize plan)
                (subscriptionPrices (snd (reportOveragesToStripe now1 s1 uid w))) = priceConfig # prest
           \<and> overage user priceConfig = (Some overageType, overageQuantity)
           \<and> unreportedRecords uid overageType
                (usageRecords (snd (reportOveragesToStripe now1 s1 uid w))) = [])"
proof (cases rule: reportOveragesToStripe_cases [of now1 s1 uid w])
  case quiet
  with assms(1) show ?thesis by simp
next
  case (no_event sid lg)
  with assms(1) show ?thesis by simp
next
  case (create_failed user rest sid plan p prest ty q e)
  with assms(2) show ?thesis by simp
next
  case (reported user rest sid plan p prest ty q ev')
  define w1 where "w1 = snd (reportOveragesToStripe now1 s1 uid w)"
  have w1: "users w1 = users w" "subscriptionPrices w1 = subscriptionPrices w"
    "usageRecords w1 = marked (ur_id ` set (unreportedRecords uid ty (usageRecords w))) (event_id ev')
                         (usageRecords w)"
    unfolding w1_def using reported(10) by simp_all
  have none: "unreportedRecords uid ty (usageRecords w1) = []"
    unfolding w1(3) by (rule unreported_marked)
  have sub: "submit_overage now2 s2 uid user sid p ty w1 = (None, w1)"
    using none by (simp add: submit_overage_def)
  have tried: "reportOverages_try now2 s2 uid w1 = (None, w1)"
    using reported(1-7) sub by (simp add: reportOverages_try_def w1(1,2))
  then have second: "reportOveragesToStripe now2 s2 uid w1 = (None, w1)"
    by (simp add: reportOveragesToStripe_def)
  have look: "sql_select (\<lambda>u. u_id u = uid) (users w1) = user # rest
           \<and> u_subscriptionPlan user = Some plan
           \<and> sql_select (\<lambda>p. sp_plan p = capitalize plan) (subscriptionPrices w1) = p # prest
           \<and> overage user p = (Some ty, q)
           \<and> unreportedRecords uid ty (usageRecords w1) = []"
    using reported(1-7) none by (simp add: w1(1,2))
  from second assms(1) look show ?thesis
    unfolding w1_def [symmetric] by simp
qed

theorem reportOveragesToStripe_twice_witness:
  "submissions (snd (reportOveragesToStripe 1000 stripe_ok ''u1'' world2)) = submissions world2 + 1
   \<and> sb_create stripe_ok = Inr \<lparr>ev_id = None, ev_identifier = ''u1_1000''\<rparr>
   \<and> submissions (snd (reportOveragesToStripe 2000 stripe_ok ''u1''
                         (snd (reportOveragesToStripe 1000 stripe_ok ''u1'' world2)))) = 1"
proof -
  have s1: "submissions (snd (reportOveragesToStripe 1000 stripe_ok ''u1'' world2)) = submissions world2 + 1"
    by code_simp
  have c1: "sb_create stripe_ok = Inr \<lparr>ev_id = None, ev_identifier = ''u1_1000''\<rparr>"
    by (simp add: stripe_ok_def)
  have z: "submissions world2 = 0"
    by code_simp
  from reportOveragesToStripe_twice [OF s1 c1, of 2000 stripe_ok] s1 c1 z show ?thesis
    by simp
qed

subsection \<open>The overage decision\<close>

lemma reportOveragesToStripe_no_overage:
  assumes "sql_select (\<lambda>u. u_id u = uid) (users w) = user # rest"
    and "u_subscriptionPlan user = Some plan"
    and "sql_select (\<lambda>p. sp_plan p = capitalize plan) (subscriptionPrices w) = priceConfig # prest"
    and "fst (overage user priceConfig) = None"
  shows "reportOveragesToStripe now s uid w = (None, w)"
proof (cases rule: reportOverages_try_cases [of now s uid w])
  case quiet
  then show ?thesis by (simp add: reportOveragesToStripe_def)
next
  case (submit user' rest' sid plan' p prest' ty q)
  with assms have "user' = user" "plan' = plan" by simp_all
  with submit assms have "p = priceConfig" by simp
  with submit(6) \<open>user' = user\<close> assms(4) show ?thesis by simp
qed

lemma reportOveragesToStripe_stripeCalls:
  "stripeCalls (snd (reportOveragesToStripe now s uid w)) = stripeCalls (snd (reportOverages_try now s uid w))"
  by (cases "reportOverages_try now s uid w"; cases "fst (reportOverages_try now s uid w)")
     (auto simp: reportOveragesToStripe_def)

lemma submit_overage_retrieves:
  assumes "unreportedRecords uid ty (usageRecords w) \<noteq> []"
    and "truthy (sp_stripeMeteredPriceId p)"
  shows "\<exists>more. stripeCalls (snd (submit_overage now s uid u sid p ty w)) =
                  stripeCalls w @ SubscriptionsRetrieve sid # more"
proof (cases "sb_retrieve s")
  case (Inl e)
  with assms show ?thesis
    by (simp add: submit_overage_def Let_def)
next
  case (Inr items)
  show ?thesis
  proof (cases "find (\<lambda>priceId. Some priceId = sp_stripeMeteredPriceId p) items")
    case None
    with assms Inr show ?thesis
      by (simp add: submit_overage_def Let_def)
  next
    case (Some meteredItem)
    show ?thesis
    proof (cases "sb_create s")
      case (Inl e)
      with assms Inr Some show ?thesis
        by (simp add: submit_overage_def Let_def)
    next
      case created: (Inr ev)
      with assms Inr Some show ?thesis
        by (simp add: submit_overage_def Let_def)
    qed
  qed
qed

text \<open>
  C6. For the user and the price row that \<open>reportOveragesToStripe\<close> looks up, the computed
  overage quantity and type are those of the reference definition (a null counter or
  allowance counting as 0, as \<open>|| 0\<close> does): calls beyond the included calls for starter,
  minutes beyond the included minutes for growth and pro, nothing for any other plan. For
  the unlimited plan, and whenever the computed overage is 0, the run changes nothing and
  sends nothing to Stripe. When the reference gives a positive quantity of some kind and
  the user has a subscription, the run is the submission of that kind: the \<open>try\<close> block
  does what \<open>submit_overage\<close> does for that kind, and if the ledger has unreported entries
  of the kind and the plan has a metered price, the first request to Stripe retrieves the
  subscription. With 20 included calls, 25 calls used give the quantity 5, and 20 calls
  used give 0 and no external call.
\<close>

theorem overage_equals_reference:
  assumes "sql_select (\<lambda>u. u_id u = uid) (users w) = user # rest"
    and "u_subscriptionPlan user = Some plan"
    and "sql_select (\<lambda>p. sp_plan p = capitalize plan) (subscriptionPrices w) = priceConfig # prest"
  shows "snd (overage user priceConfig) =
           (case overage_reference plan (or_zero (u_monthlyCallsUsed user))
                   (or_zero (u_monthlyMinutesUsed user)) (or_zero (sp_includedCalls priceConfig))
                   (or_zero (sp_includedMinutes priceConfig)) of
              Some (kind, quantity) \<Rightarrow> quantity | None \<Rightarrow> 0)
       \<and> fst (overage user priceConfig) =
           (case overage_reference plan (or_zero (u_monthlyCallsUsed user))
                   (or_zero (u_monthlyMinutesUsed user)) (or_zero (sp_includedCalls priceConfig))
                   (or_zero (sp_includedMinutes priceConfig)) of
              Some (kind, quantity) \<Rightarrow> if quantity > 0 then Some kind else None | None \<Rightarrow> None)
       \<and> (plan = ''unlimited'' \<longrightarrow>
            overage user priceConfig = (None, 0) \<and> reportOveragesToStripe now s uid w = (None, w))
       \<and> (snd (overage user priceConfig) = 0 \<longrightarrow> reportOveragesToStripe now s uid w = (None, w))
       \<and> (plan = ''starter'' \<and> sp_includedCalls priceConfig = Some 20 \<and> u_monthlyCallsUsed user = Some 25
            \<longrightarrow> overage user priceConfig = (Some Call, 5))
       \<and> (plan = ''starter'' \<and> sp_includedCalls priceConfig = Some 20 \<and> u_monthlyCallsUsed user = Some 20
            \<longrightarrow> overage user priceConfig = (None, 0) \<and> reportOveragesToStripe now s uid w = (None, w))
       \<and> (\<forall>kind quantity subscriptionId.
             overage_reference plan (or_zero (u_monthlyCallsUsed user))
                 (or_zero (u_monthlyMinutesUsed user)) (or_zero (sp_includedCalls priceConfig))
                 (or_zero (sp_includedMinutes priceConfig)) = Some (kind, quantity)
             \<and> quantity > 0
             \<and> u_stripeSubscriptionId user = Some subscriptionId \<and> subscriptionId \<noteq> []
             \<longrightarrow> reportOverages_try now s uid w =
                   submit_overage now s uid user subscriptionId priceConfig kind w
                 \<and> (unreportedRecords uid kind (usageRecords w) \<noteq> []
                      \<and> truthy (sp_stripeMeteredPriceId priceConfig)
                    \<longrightarrow> (\<exists>more. stripeCalls (snd (reportOveragesToStripe now s uid w)) =
                                  stripeCalls w @ SubscriptionsRetrieve subscriptionId # more)))"
  (is "?A \<and> ?B \<and> ?C \<and> ?D \<and> ?E \<and> ?F \<and> ?G")
proof -
  have a: ?A using assms(2) by (simp add: overage_def overage_reference_def Let_def)
  have b: ?B using assms(2) by (simp add: overage_def overage_reference_def Let_def)
  have zero: "snd (overage user priceConfig) = 0 \<Longrightarrow> fst (overage user priceConfig) = None"
    by (simp add: overage_def Let_def split: if_splits)
  have quiet: "fst (overage user priceConfig) = None \<Longrightarrow> reportOveragesToStripe now s uid w = (None, w)"
    using assms by (rule reportOveragesToStripe_no_overage)
  have c: ?C using assms(2) quiet by (simp add: overage_def)
  have d: ?D using zero quiet by blast
  have e: ?E using assms(2) by (simp add: overage_def)
  have f: ?F using assms(2) quiet by (simp add: overage_def)
  have g: ?G
  proof (intro allI impI, elim conjE)
    fix kind quantity subscriptionId
    assume ref: "overage_reference plan (or_zero (u_monthlyCallsUsed user))
                 (or_zero (u_monthlyMinutesUsed user)) (or_zero (sp_includedCalls priceConfig))
                 (or_zero (sp_includedMinutes priceConfig)) = Some (kind, quantity)"
      and pos: "quantity > 0"
      and sub: "u_stripeSubscriptionId user = Some subscriptionId" "subscriptionId \<noteq> []"
    from ref have plan: "plan \<noteq> []"
      by (auto simp: overage_reference_def split: if_splits)
    from a b ref pos have "overage user priceConfig = (Some kind, quantity)"
      by (cases "overage user priceConfig") simp
    with assms sub plan pos
    have run: "reportOverages_try now s uid w =
                 submit_overage now s uid user subscriptionId priceConfig kind w"
      by (simp add: reportOverages_try_def)
    have "\<exists>more. stripeCalls (snd (reportOveragesToStripe now s uid w)) =
                    stripeCalls w @ SubscriptionsRetrieve subscriptionId # more"
      if "unreportedRecords uid kind (usageRecords w) \<noteq> [] \<and> truthy (sp_stripeMeteredPriceId priceConfig)"
      unfolding reportOveragesToStripe_stripeCalls run
      using that by (intro submit_overage_retrieves) simp_all
    with run show "reportOverages_try now s uid w =
                   submit_overage now s uid user subscriptionId priceConfig kind w
                 \<and> (unreportedRecords uid kind (usageRecords w) \<noteq> []
                      \<and> truthy (sp_stripeMeteredPriceId priceConfig)
                    \<longrightarrow> (\<exists>more. stripeCalls (snd (reportOveragesToStripe now s uid w)) =
                                  stripeCalls w @ SubscriptionsRetrieve subscriptionId # more))"
      by blast
  qed
  from a b c d e f g show ?thesis by (intro conjI)
qed

theorem overage_equals_reference_witness:
  "sql_select (\<lambda>u. u_id u = ''u1'') (users world2) = [user1\<lparr>u_monthlyCallsUsed := Some 25\<rparr>]
   \<and> u_subscriptionPlan (user1\<lparr>u_monthlyCallsUsed := Some 25\<rparr>) = Some ''starter''
   \<and> sql_select (\<lambda>p. sp_plan p = capitalize ''starter'') (subscriptionPrices world2) = [price1]
   \<and> sp_includedCalls price1 = Some 20
   \<and> overage (user1\<lparr>u_monthlyCallsUsed := Some 25\<rparr>) price1 = (Some Call, 5)
   \<and> overage_reference ''starter'' 25 0 20 0 = Some (Call, 5)
   \<and> u_stripeSubscriptionId (user1\<lparr>u_monthlyCallsUsed := Some 25\<rparr>) = Some ''sub_1''
   \<and> unreportedRecords ''u1'' Call (usageRecords world2) \<noteq> []
   \<and> truthy (sp_stripeMeteredPriceId price1)
   \<and> reportOverages_try 1000 stripe_ok ''u1'' world2 =
       submit_overage 1000 stripe_ok ''u1'' (user1\<lparr>u_monthlyCallsUsed := Some 25\<rparr>) ''sub_1'' price1 Call world2
   \<and> stripeCalls (snd (reportOveragesToStripe 1000 stripe_ok ''u1'' world2)) =
       [SubscriptionsRetrieve ''sub_1'',
        MeterEventsCreate \<lparr>me_event_name = ''otto_calls'', me_value = 1,
                           me_stripe_customer_id = Some ''cus_1'', me_identifier = (''u1'', 1000)\<rparr>]
   \<and> sql_select (\<lambda>u. u_id u = ''u1'') (users (world2\<lparr>users := [user1\<lparr>u_monthlyCallsUsed := Some 20\<rparr>]\<rparr>))
       = [user1\<lparr>u_monthlyCallsUsed := Some 20\<rparr>]
   \<and> overage (user1\<lparr>u_monthlyCallsUsed := Some 20\<rparr>) price1 = (None, 0)
   \<and> stripeCalls (snd (reportOveragesToStripe 1000 stripe_ok ''u1''
                         (world2\<lparr>users := [user1\<lparr>u_monthlyCallsUsed := Some 20\<rparr>]\<rparr>))) = []
   \<and> map u_subscriptionPlan (sql_select (\<lambda>u. u_id u = ''u1'') (users world4)) = [Some ''unlimited'']
   \<and> sql_select (\<lambda>p. sp_plan p = capitalize ''unlimited'') (subscriptionPrices world4) = [price_unlimited]
   \<and> stripeCalls (snd (reportOveragesToStripe 1000 stripe_ok ''u1'' world4)) = []"
proof -
  let ?u25 = "user1\<lparr>u_monthlyCallsUsed := Some 25\<rparr>"
  let ?u20 = "user1\<lparr>u_monthlyCallsUsed := Some 20\<rparr>"
  let ?w20 = "world2\<lparr>users := [?u20]\<rparr>"
  let ?uu = "user1\<lparr>u_subscriptionPlan := Some ''unlimited'', u_monthlyCallsUsed := Some 5000,
                    u_monthlyMinutesUsed := Some 90000\<rparr>"
  have h1: "sql_select (\<lambda>u. u_id u = ''u1'') (users world2) = ?u25 # []"
    by (simp add: sql_select_def world2_def world1_def user1_def)
  have h2: "u_subscriptionPlan ?u25 = Some ''starter''"
    by (simp add: user1_def)
  have h3: "sql_select (\<lambda>p. sp_plan p = capitalize ''starter'') (subscriptionPrices world2) = price1 # []"
    by code_simp
  have h4: "sp_includedCalls price1 = Some 20" "u_monthlyCallsUsed ?u25 = Some 25"
    by (simp_all add: price1_def)
  have t1: "overage ?u25 price1 = (Some Call, 5)"
    using overage_equals_reference [OF h1 h2 h3] h4 by blast
  have p1: "overage_reference ''starter'' (or_zero (u_monthlyCallsUsed ?u25))
              (or_zero (u_monthlyMinutesUsed ?u25)) (or_zero (sp_includedCalls price1))
              (or_zero (sp_includedMinutes price1)) = Some (Call, 5)"
    by (simp add: overage_reference_def user1_def price1_def)
  have p0: "overage_reference ''starter'' 25 0 20 0 = Some (Call, 5)"
    by (simp add: overage_reference_def)
  have p2: "u_stripeSubscriptionId ?u25 = Some ''sub_1''"
    by (simp add: user1_def)
  have p3: "unreportedRecords ''u1'' Call (usageRecords world2) \<noteq> []"
    by code_simp
  have p4: "truthy (sp_stripeMeteredPriceId price1)"
    by (simp add: price1_def)
  have t4: "reportOverages_try 1000 stripe_ok ''u1'' world2 =
              submit_overage 1000 stripe_ok ''u1'' ?u25 ''sub_1'' price1 Call world2"
    using overage_equals_reference [OF h1 h2 h3, of 1000 stripe_ok, THEN conjunct2, THEN conjunct2,
        THEN conjunct2, THEN conjunct2, THEN conjunct2, THEN conjunct2, rule_format,
        of Call 5 "''sub_1''"] p1 p2
    by simp
  have t5: "stripeCalls (snd (reportOveragesToStripe 1000 stripe_ok ''u1'' world2)) =
       [SubscriptionsRetrieve ''sub_1'',
        MeterEventsCreate \<lparr>me_event_name = ''otto_calls'', me_value = 1,
                           me_stripe_customer_id = Some ''cus_1'', me_identifier = (''u1'', 1000)\<rparr>]"
    by code_simp
  have g1: "sql_select (\<lambda>u. u_id u = ''u1'') (users ?w20) = ?u20 # []"
    by (simp add: sql_select_def user1_def)
  have g2: "u_subscriptionPlan ?u20 = Some ''starter''"
    by (simp add: user1_def)
  have g3: "sql_select (\<lambda>p. sp_plan p = capitalize ''starter'') (subscriptionPrices ?w20) = price1 # []"
    by code_simp
  have g4: "u_monthlyCallsUsed ?u20 = Some 20"
    by simp
  have t2: "overage ?u20 price1 = (None, 0)
            \<and> reportOveragesToStripe 1000 stripe_ok ''u1'' ?w20 = (None, ?w20)"
    using overage_equals_reference [OF g1 g2 g3, of 1000 stripe_ok] h4(1) g4 by blast
  have s20: "stripeCalls ?w20 = []"
    by (simp add: world2_def world1_def)
  have k1: "sql_select (\<lambda>u. u_id u = ''u1'') (users world4) = ?uu # []"
    by (simp add: sql_select_def world4_def user1_def)
  have k2: "u_subscriptionPlan ?uu = Some ''unlimited''"
    by simp
  have k3: "sql_select (\<lambda>p. sp_plan p = capitalize ''unlimited'') (subscriptionPrices world4)
              = price_unlimited # []"
    by code_simp
  have t3: "reportOveragesToStripe 1000 stripe_ok ''u1'' world4 = (None, world4)"
    using overage_equals_reference [OF k1 k2 k3, of 1000 stripe_ok] by blast
  have s4: "stripeCalls world4 = []"
    by (simp add: world4_def world2_def world1_def)
  from t1 t2 t3 t4 t5 p0 p2 p3 p4 h1 h2 h3 h4 g1 s20 k1 k2 k3 s4 show ?thesis
    by simp
qed

section \<open>Reset sweepers: a row changed since it was read is skipped\<close>

lemma sql_update_no_match:
  "\<forall>r \<in> set tbl. \<not> c r \<Longrightarrow> sql_update c f tbl = (tbl, [])"
  by (simp add: sql_update_def map_idI filter_empty_conv)

lemma conditionalReset_nth:
  assumes "k < length tbl"
    and "ac_id agent = ac_id (tbl ! k) \<longrightarrow> ac_resetWaitTimeAt agent \<noteq> ac_resetWaitTimeAt (tbl ! k)"
  shows "fst (conditionalReset agent tbl) ! k = tbl ! k"
  using assms by (auto simp: conditionalReset_def sql_update_def)

lemma conditionalReset_length [simp]: "length (fst (conditionalReset agent tbl)) = length tbl"
  by (simp add: conditionalReset_def sql_update_def)

lemma resetLoop_nth:
  assumes "k < length tbl"
    and "\<forall>a \<in> set agents. ac_id a = ac_id (tbl ! k) \<longrightarrow> ac_resetWaitTimeAt a \<noteq> ac_resetWaitTimeAt (tbl ! k)"
  shows "fst (resetLoop fails agents (tbl, n, errs)) ! k = tbl ! k"
  using assms
proof (induction agents arbitrary: tbl n errs)
  case Nil
  then show ?case by simp
next
  case (Cons agent rest)
  show ?case
  proof (cases "fails (ac_id agent)")
    case True
    with Cons show ?thesis by simp
  next
    case False
    obtain tbl' result where upd: "conditionalReset agent tbl = (tbl', result)"
      by (cases "conditionalReset agent tbl")
    have k: "tbl' ! k = tbl ! k" "k < length tbl'"
      using conditionalReset_nth [of k tbl agent] conditionalReset_length [of agent tbl] Cons.prems upd
      by simp_all
    have "fst (resetLoop fails rest (tbl', m, errs)) ! k = tbl' ! k" for m
      using Cons.IH [of tbl' m errs] k Cons.prems(2) by simp
    with False upd k show ?thesis by simp
  qed
qed

lemma conditionalDelete_nth:
  assumes "k < length tbl"
    and "mo_id override = mo_id (tbl ! k) \<longrightarrow>
           mo_resetAt override \<noteq> mo_resetAt (tbl ! k) \<or> mo_status override \<noteq> mo_status (tbl ! k)"
  shows "fst (conditionalDelete override tbl) ! k = tbl ! k"
  using assms by (auto simp: conditionalDelete_def sql_update_def)

lemma conditionalDelete_length [simp]: "length (fst (conditionalDelete override tbl)) = length tbl"
  by (simp add: conditionalDelete_def sql_update_def)

lemma deleteLoop_nth:
  assumes "k < length tbl"
    and "\<forall>a \<in> set overrides. mo_id a = mo_id (tbl ! k) \<longrightarrow>
           mo_resetAt a \<noteq> mo_resetAt (tbl ! k) \<or> mo_status a \<noteq> mo_status (tbl ! k)"
  shows "fst (deleteLoop fails overrides (tbl, n, errs)) ! k = tbl ! k"
  using assms
proof (induction overrides arbitrary: tbl n errs)
  case Nil
  then show ?case by simp
next
  case (Cons override rest)
  show ?case
  proof (cases "fails (mo_id override)")
    case True
    with Cons show ?thesis by simp
  next
    case False
    obtain tbl' result where upd: "conditionalDelete override tbl = (tbl', result)"
      by (cases "conditionalDelete override tbl")
    have k: "tbl' ! k = tbl ! k" "k < length tbl'"
      using conditionalDelete_nth [of k tbl override] conditionalDelete_length [of override tbl]
        Cons.prems upd
      by simp_all
    have "fst (deleteLoop fails rest (tbl', m, errs)) ! k = tbl' ! k" for m
      using Cons.IH [of tbl' m errs] k Cons.prems(2) by simp
    with False upd k show ?thesis by simp
  qed
qed

text \<open>
  C8. Let a sweeper process a row as it was read (\<open>agent\<close>, \<open>override\<close>) against the table as
  it is at the time of the write. If the row with that id now has another reset-at
  timestamp (for a menu override: another timestamp or another status) and the statement
  does not throw, then the conditional update returns no row and leaves the whole table as
  it is, concurrent edit included, and the loop goes on with the remaining rows with its
  counter and its error log unchanged: a skip, not an error. Over a whole run, a row of the
  table that differs in this way from every row read under its id is the same afterwards.
\<close>

theorem sweepers_skip_changed_rows:
  "(\<not> fails (ac_id agent)
      \<and> (\<forall>r \<in> set tbl. ac_id r = ac_id agent \<longrightarrow> ac_resetWaitTimeAt r \<noteq> ac_resetWaitTimeAt agent)
     \<longrightarrow> conditionalReset agent tbl = (tbl, [])
         \<and> resetLoop fails (agent # rest) (tbl, n, errs) = resetLoop fails rest (tbl, n, errs))
   \<and> (k < length tbl
      \<and> (\<forall>a \<in> set agents. ac_id a = ac_id (tbl ! k) \<longrightarrow> ac_resetWaitTimeAt a \<noteq> ac_resetWaitTimeAt (tbl ! k))
     \<longrightarrow> fst (resetLoop fails agents (tbl, n, errs)) ! k = tbl ! k)
   \<and> (\<not> fails (mo_id override)
      \<and> (\<forall>r \<in> set mtbl. mo_id r = mo_id override \<longrightarrow>
            mo_resetAt r \<noteq> mo_resetAt override \<or> mo_status r \<noteq> mo_status override)
     \<longrightarrow> conditionalDelete override mtbl = (mtbl, [])
         \<and> deleteLoop fails (override # mrest) (mtbl, n, errs) = deleteLoop fails mrest (mtbl, n, errs))
   \<and> (j < length mtbl
      \<and> (\<forall>a \<in> set overrides. mo_id a = mo_id (mtbl ! j) \<longrightarrow>
            mo_resetAt a \<noteq> mo_resetAt (mtbl ! j) \<or> mo_status a \<noteq> mo_status (mtbl ! j))
     \<longrightarrow> fst (deleteLoop fails overrides (mtbl, n, errs)) ! j = mtbl ! j)"
  (is "?A \<and> ?B \<and> ?C \<and> ?D")
proof -
  have a: ?A
  proof (intro impI, elim conjE)
    assume ok: "\<not> fails (ac_id agent)"
      and ch: "\<forall>r \<in> set tbl. ac_id r = ac_id agent \<longrightarrow> ac_resetWaitTimeAt r \<noteq> ac_resetWaitTimeAt agent"
    have "conditionalReset agent tbl = (tbl, [])"
      unfolding conditionalReset_def using ch by (intro sql_update_no_match) blast
    with ok show "conditionalReset agent tbl = (tbl, [])
         \<and> resetLoop fails (agent # rest) (tbl, n, errs) = resetLoop fails rest (tbl, n, errs)"
      by simp
  qed
  have b: ?B using resetLoop_nth [of k tbl agents fails n errs] by blast
  have c: ?C
  proof (intro impI, elim conjE)
    assume ok: "\<not> fails (mo_id override)"
      and ch: "\<forall>r \<in> set mtbl. mo_id r = mo_id override \<longrightarrow>
            mo_resetAt r \<noteq> mo_resetAt override \<or> mo_status r \<noteq> mo_status override"
    have "conditionalDelete override mtbl = (mtbl, [])"
      unfolding conditionalDelete_def using ch by (intro sql_update_no_match) blast
    with ok show "conditionalDelete override mtbl = (mtbl, [])
         \<and> deleteLoop fails (override # mrest) (mtbl, n, errs) = deleteLoop fails mrest (mtbl, n, errs)"
      by simp
  qed
  have d: ?D using deleteLoop_nth [of j mtbl overrides fails n errs] by blast
  from a b c d show ?thesis by blast
qed

theorem sweepers_skip_changed_rows_witness:
  "resetLoop (\<lambda>i. False) [agent1]
      ([agent1\<lparr>ac_waitTimeMinutes := 50, ac_resetWaitTimeAt := Some 200\<rparr>], 0, [])
     = ([agent1\<lparr>ac_waitTimeMinutes := 50, ac_resetWaitTimeAt := Some 200\<rparr>], 0, [])
   \<and> conditionalReset agent1 [agent1\<lparr>ac_waitTimeMinutes := 50, ac_resetWaitTimeAt := Some 200\<rparr>]
     = ([agent1\<lparr>ac_waitTimeMinutes := 50, ac_resetWaitTimeAt := Some 200\<rparr>], [])
   \<and> deleteLoop (\<lambda>i. False) [override1] ([override1\<lparr>mo_status := Deleted\<rparr>], 0, [])
     = ([override1\<lparr>mo_status := Deleted\<rparr>], 0, [])
   \<and> fst (resetLoop (\<lambda>i. False) [agent1]
        ([agent1\<lparr>ac_waitTimeMinutes := 50, ac_resetWaitTimeAt := Some 200\<rparr>], 0, [])) ! 0
     = agent1\<lparr>ac_waitTimeMinutes := 50, ac_resetWaitTimeAt := Some 200\<rparr>
   \<and> fst (deleteLoop (\<lambda>i. False) [override1] ([override1\<lparr>mo_resetAt := None\<rparr>], 0, [])) ! 0
     = override1\<lparr>mo_resetAt := None\<rparr>"
proof -
  let ?edited = "agent1\<lparr>ac_waitTimeMinutes := 50, ac_resetWaitTimeAt := Some 200\<rparr>"
  have h1: "\<not> (\<lambda>i. False) (ac_id agent1)
      \<and> (\<forall>r \<in> set [?edited]. ac_id r = ac_id agent1 \<longrightarrow> ac_resetWaitTimeAt r \<noteq> ac_resetWaitTimeAt agent1)"
    by (simp add: agent1_def)
  have h2: "0 < length [?edited]
      \<and> (\<forall>a \<in> set [agent1]. ac_id a = ac_id ([?edited] ! 0) \<longrightarrow>
             ac_resetWaitTimeAt a \<noteq> ac_resetWaitTimeAt ([?edited] ! 0))"
    by (simp add: agent1_def)
  have h3: "\<not> (\<lambda>i. False) (mo_id override1)
      \<and> (\<forall>r \<in> set [override1\<lparr>mo_status := Deleted\<rparr>]. mo_id r = mo_id override1 \<longrightarrow>
            mo_resetAt r \<noteq> mo_resetAt override1 \<or> mo_status r \<noteq> mo_status override1)"
    by (simp add: override1_def)
  have h4: "0 < length [override1\<lparr>mo_resetAt := None\<rparr>]
      \<and> (\<forall>a \<in> set [override1]. mo_id a = mo_id ([override1\<lparr>mo_resetAt := None\<rparr>] ! 0) \<longrightarrow>
            mo_resetAt a \<noteq> mo_resetAt ([override1\<lparr>mo_resetAt := None\<rparr>] ! 0)
            \<or> mo_status a \<noteq> mo_status ([override1\<lparr>mo_resetAt := None\<rparr>] ! 0))"
    by (simp add: override1_def)
  note t = sweepers_skip_changed_rows [where fails = "\<lambda>i. False" and agent = agent1
      and tbl = "[?edited]" and rest = "[]" and n = 0 and errs = "[]" and k = 0
      and agents = "[agent1]" and override = override1
      and mtbl = "[override1\<lparr>mo_status := Deleted\<rparr>]" and mrest = "[]" and j = 0
      and overrides = "[override1]"]
  note t' = sweepers_skip_changed_rows [where fails = "\<lambda>i. False" and n = 0 and errs = "[]"
      and mtbl = "[override1\<lparr>mo_resetAt := None\<rparr>]" and j = 0 and overrides = "[override1]"]
  have t1: "conditionalReset agent1 [?edited] = ([?edited], [])
         \<and> resetLoop (\<lambda>i. False) [agent1] ([?edited], 0, []) = resetLoop (\<lambda>i. False) [] ([?edited], 0, [])"
    using t h1 by blast
  have t2: "fst (resetLoop (\<lambda>i. False) [agent1] ([?edited], 0, [])) ! 0 = [?edited] ! 0"
    using t h2 by blast
  have t3: "deleteLoop (\<lambda>i. False) [override1] ([override1\<lparr>mo_status := Deleted\<rparr>], 0, [])
       = deleteLoop (\<lambda>i. False) [] ([override1\<lparr>mo_status := Deleted\<rparr>], 0, [])"
    using t h3 by blast
  have t4: "fst (deleteLoop (\<lambda>i. False) [override1] ([override1\<lparr>mo_resetAt := None\<rparr>], 0, [])) ! 0
       = [override1\<lparr>mo_resetAt := None\<rparr>] ! 0"
    using t' h4 by blast
  from t1 t2 t3 t4 show ?thesis
    by (simp del: resetLoop.simps(2) deleteLoop.simps(2))
qed

section \<open>Recording usage\<close>

lemma select_user_after_update:
  assumes "\<And>u. u_id (f u) = u_id u"
  shows "filter (\<lambda>u. u_id u = b) (map (\<lambda>r. if u_id r = b then f r else r) tbl) =
           map f (filter (\<lambda>u. u_id u = b) tbl)"
  using assms by (induction tbl) simp_all

lemma add_usage_select:
  "sql_select (\<lambda>u. u_id u = b) (add_usage b ty q tbl) =
     map (\<lambda>u. if ty = Call then u\<lparr>u_monthlyCallsUsed := increment q (u_monthlyCallsUsed u)\<rparr>
               else u\<lparr>u_monthlyMinutesUsed := increment q (u_monthlyMinutesUsed u)\<rparr>)
       (sql_select (\<lambda>u. u_id u = b) tbl)"
proof (cases "ty = Call")
  case True
  then show ?thesis
    unfolding add_usage_def sql_update_def sql_select_def
    by (simp add: select_user_after_update)
next
  case False
  then show ?thesis
    unfolding add_usage_def sql_update_def sql_select_def
    by (simp add: select_user_after_update)
qed

lemma add_usage_head:
  assumes "sql_select (\<lambda>u. u_id u = b) tbl = user # rest"
  shows "\<exists>user' rest'. sql_select (\<lambda>u. u_id u = b) (add_usage b ty q tbl) = user' # rest'
           \<and> u_stripeSubscriptionId user' = u_stripeSubscriptionId user
           \<and> u_billingCycleStart user' = u_billingCycleStart user"
  using assms by (simp add: add_usage_select)

lemma add_usage_Call_minutes:
  "counter_overflows b Minute m (add_usage b Call q tbl) = counter_overflows b Minute m tbl"
  unfolding counter_overflows_def add_usage_def sql_update_def
  by (induction tbl) (simp_all add: counter_of_def)

lemma recordUsage_cases:
  fixes e b rid ty q w
  defines "res \<equiv> recordUsage e b rid ty q w"
  obtains
    (no_user) "sql_select (\<lambda>u. u_id u = b) (users w) = []" and "res = (Some UserNotFound, w)"
  | (insert_failed) user rest error where
      "sql_select (\<lambda>u. u_id u = b) (users w) = user # rest"
      and "insert_error e rid q = Some error" and "res = (Some error, w)"
  | (counter_failed) user rest where
      "sql_select (\<lambda>u. u_id u = b) (users w) = user # rest"
      and "insert_error e rid q = None" and "counter_overflows b ty q (users w)"
      and "res = (Some (DatabaseError ''integer out of range''),
                  w\<lparr>usageRecords := usageRecords w @ [new_usage_record e user b rid ty q]\<rparr>)"
  | (recorded) user rest where
      "sql_select (\<lambda>u. u_id u = b) (users w) = user # rest"
      and "insert_error e rid q = None" and "\<not> counter_overflows b ty q (users w)"
      and "res = reportOveragesToStripe (e_now e) (e_stripe e) b
                   (w\<lparr>usageRecords := usageRecords w @ [new_usage_record e user b rid ty q],
                      users := add_usage b ty q (users w)\<rparr>)"
proof (cases "sql_select (\<lambda>u. u_id u = b) (users w)")
  case Nil
  then have "res = (Some UserNotFound, w)"
    by (simp add: res_def recordUsage_def)
  with Nil show ?thesis by (rule no_user)
next
  case look: (Cons user rest)
  show ?thesis
  proof (cases "insert_error e rid q")
    case (Some error)
    with look have "res = (Some error, w)"
      by (simp add: res_def recordUsage_def)
    with look Some show ?thesis by (rule insert_failed)
  next
    case None
    show ?thesis
    proof (cases "counter_overflows b ty q (users w)")
      case True
      with look None
      have "res = (Some (DatabaseError ''integer out of range''),
                   w\<lparr>usageRecords := usageRecords w @ [new_usage_record e user b rid ty q]\<rparr>)"
        by (simp add: res_def recordUsage_def count_usage_def Let_def)
      with look None True show ?thesis by (rule counter_failed)
    next
      case False
      with look None
      have "res = reportOveragesToStripe (e_now e) (e_stripe e) b
                   (w\<lparr>usageRecords := usageRecords w @ [new_usage_record e user b rid ty q],
                      users := add_usage b ty q (users w)\<rparr>)"
        by (simp add: res_def recordUsage_def count_usage_def Let_def)
      with look None False show ?thesis by (rule recorded)
    qed
  qed
qed

lemma insert_error_None:
  "\<not> e_insertFails e \<Longrightarrow> int4 q \<Longrightarrow> valid_text rid \<Longrightarrow> insert_error e rid q = None"
  by (simp add: insert_error_def)

lemma reportOveragesToStripe_ledger:
  "ledger (snd (reportOveragesToStripe now s uid w)) = ledger w"
proof (cases rule: reportOveragesToStripe_cases [of now s uid w])
  case (reported user rest sid plan p prest ty q ev)
  have "map (\<lambda>r. (ur_type r, ur_quantity r)) (marked ids eid tbl) = map (\<lambda>r. (ur_type r, ur_quantity r)) tbl"
    for ids eid tbl
    by (simp add: marked_def)
  with reported(10) show ?thesis by (simp add: ledger_def)
qed (simp_all add: ledger_def)

lemma reportOveragesToStripe_rejected:
  assumes "(\<exists>err. sb_retrieve s = Inl err) \<or> (\<exists>err. sb_create s = Inl err)"
  shows "usageRecords (snd (reportOveragesToStripe now s uid w)) = usageRecords w"
proof (cases rule: reportOveragesToStripe_cases [of now s uid w])
  case (reported user rest sid plan p prest ty q ev)
  from reported(9,11) assms have False by auto
  then show ?thesis ..
qed simp_all

lemma reportOveragesToStripe_no_subscription:
  assumes "sql_select (\<lambda>u. u_id u = uid) (users w) = user # rest"
    and "\<not> truthy (u_stripeSubscriptionId user)"
  shows "reportOveragesToStripe now s uid w = (None, w)"
  using assms by (simp add: reportOveragesToStripe_def reportOverages_try_def)

lemma minutes_of_div: "minutes_of d = - ((- d) div 60)"
  unfolding minutes_of_def by (metis ceiling_divide_eq_div of_int_numeral)

lemma minutes_of_ceiling: "60 * (minutes_of d - 1) < d \<and> d \<le> 60 * minutes_of d"
  unfolding minutes_of_div by presburger

lemma int4_minutes_of:
  assumes "int4 d"
  shows "int4 (minutes_of d)"
proof -
  from assms have d: "- 2147483648 \<le> d" "d \<le> 2147483647"
    by (simp_all add: int4_def)
  from minutes_of_ceiling [of d]
  have m: "60 * minutes_of d - 60 < d" "d \<le> 60 * minutes_of d"
    by (simp_all add: algebra_simps)
  have lower: "- 2147483648 \<le> minutes_of d"
  proof (rule ccontr)
    assume "\<not> - 2147483648 \<le> minutes_of d"
    then have "minutes_of d \<le> - 2147483649" by simp
    then have "60 * minutes_of d \<le> 60 * (- 2147483649)" by (simp only: mult_le_cancel_left_pos)
    with d(1) m(2) show False by simp
  qed
  have upper: "minutes_of d \<le> 2147483647"
  proof (rule ccontr)
    assume "\<not> minutes_of d \<le> 2147483647"
    then have "2147483648 \<le> minutes_of d" by simp
    then have "60 * 2147483648 \<le> 60 * minutes_of d" by (simp only: mult_le_cancel_left_pos)
    with d(2) m(1) show False by simp
  qed
  from lower upper show ?thesis
    by (simp add: int4_def)
qed

lemma ledger_append [simp]:
  "ledger (w\<lparr>usageRecords := usageRecords w @ [r], users := us\<rparr>) = ledger w @ [(ur_type r, ur_quantity r)]"
  "ledger (w\<lparr>usageRecords := usageRecords w @ [r]\<rparr>) = ledger w @ [(ur_type r, ur_quantity r)]"
  by (simp_all add: ledger_def)

lemma new_usage_record_simps [simp]:
  "ur_type (new_usage_record e user b rid ty q) = ty"
  "ur_quantity (new_usage_record e user b rid ty q) = q"
  "ur_reportedToStripe (new_usage_record e user b rid ty q) = Some False"
  by (simp_all add: new_usage_record_def)

text \<open>\<open>recordUsage\<close> never touches the call logs, the agents or the prices.\<close>

lemma recordUsage_frame:
  "callLogs (snd (recordUsage e b rid ty q w)) = callLogs w"
  "agentConfigurations (snd (recordUsage e b rid ty q w)) = agentConfigurations w"
  "subscriptionPrices (snd (recordUsage e b rid ty q w)) = subscriptionPrices w"
proof -
  let ?res = "recordUsage e b rid ty q w"
  have "callLogs (snd ?res) = callLogs w \<and> agentConfigurations (snd ?res) = agentConfigurations w
        \<and> subscriptionPrices (snd ?res) = subscriptionPrices w"
  proof (cases rule: recordUsage_cases [where e = e and b = b and rid = rid and ty = ty and q = q and w = w])
    case (recorded user rest)
    let ?w2 = "w\<lparr>usageRecords := usageRecords w @ [new_usage_record e user b rid ty q],
                 users := add_usage b ty q (users w)\<rparr>"
    from recorded(4) reportOveragesToStripe_frame [of "e_now e" "e_stripe e" b ?w2]
    show ?thesis by simp
  qed simp_all
  then show "callLogs (snd ?res) = callLogs w"
    and "agentConfigurations (snd ?res) = agentConfigurations w"
    and "subscriptionPrices (snd ?res) = subscriptionPrices w"
    by simp_all
qed

text \<open>When the counter update throws, the ledger row stays.\<close>

lemma recordUsage_counter_failed:
  assumes "sql_select (\<lambda>u. u_id u = b) (users w) = user # rest"
    and "insert_error e rid q = None"
    and "counter_overflows b ty q (users w)"
  shows "recordUsage e b rid ty q w =
           (Some (DatabaseError ''integer out of range''),
            w\<lparr>usageRecords := usageRecords w @ [new_usage_record e user b rid ty q]\<rparr>)"
  using assms by (simp add: recordUsage_def count_usage_def Let_def)

lemma recordUsage_ok:
  assumes "sql_select (\<lambda>u. u_id u = b) (users w) = user # rest"
    and "insert_error e rid q = None"
    and "\<not> counter_overflows b ty q (users w)"
  shows "recordUsage e b rid ty q w =
           reportOveragesToStripe (e_now e) (e_stripe e) b
             (w\<lparr>usageRecords := usageRecords w @ [new_usage_record e user b rid ty q],
                users := add_usage b ty q (users w)\<rparr>)"
  using assms by (simp add: recordUsage_def count_usage_def Let_def)

lemma recordUsage_ok_props:
  assumes look: "sql_select (\<lambda>u. u_id u = b) (users w) = user # rest"
    and ins: "insert_error e rid q = None"
    and cnt: "\<not> counter_overflows b ty q (users w)"
  shows "fst (recordUsage e b rid ty q w) = None"
    and "users (snd (recordUsage e b rid ty q w)) = add_usage b ty q (users w)"
    and "\<not> truthy (u_stripeSubscriptionId user) \<Longrightarrow>
           stripeCalls (snd (recordUsage e b rid ty q w)) = stripeCalls w
           \<and> console (snd (recordUsage e b rid ty q w)) = console w"
proof -
  let ?w2 = "w\<lparr>usageRecords := usageRecords w @ [new_usage_record e user b rid ty q],
               users := add_usage b ty q (users w)\<rparr>"
  have eq: "recordUsage e b rid ty q w = reportOveragesToStripe (e_now e) (e_stripe e) b ?w2"
    using look ins cnt by (rule recordUsage_ok)
  show "fst (recordUsage e b rid ty q w) = None"
    unfolding eq by (rule reportOveragesToStripe_returns)
  show "users (snd (recordUsage e b rid ty q w)) = add_usage b ty q (users w)"
    unfolding eq using reportOveragesToStripe_frame [of "e_now e" "e_stripe e" b ?w2] by simp
  show "stripeCalls (snd (recordUsage e b rid ty q w)) = stripeCalls w
           \<and> console (snd (recordUsage e b rid ty q w)) = console w"
    if nosub: "\<not> truthy (u_stripeSubscriptionId user)"
  proof -
    let ?f = "\<lambda>u. if ty = Call then u\<lparr>u_monthlyCallsUsed := increment q (u_monthlyCallsUsed u)\<rparr>
                    else u\<lparr>u_monthlyMinutesUsed := increment q (u_monthlyMinutesUsed u)\<rparr>"
    have "sql_select (\<lambda>u. u_id u = b) (users ?w2) = ?f user # map ?f rest"
      by (simp add: add_usage_select look)
    moreover have "\<not> truthy (u_stripeSubscriptionId (?f user))"
      using nosub by simp
    ultimately have "reportOveragesToStripe (e_now e) (e_stripe e) b ?w2 = (None, ?w2)"
      by (rule reportOveragesToStripe_no_subscription)
    then show ?thesis unfolding eq by simp
  qed
qed

text \<open>
  Once the insert is accepted the ledger has the new entry, whether or not the counter
  update throws after it.
\<close>

lemma recordUsage_written:
  assumes look: "sql_select (\<lambda>u. u_id u = b) (users w) = user # rest"
    and ins: "insert_error e rid q = None"
  shows "ledger (snd (recordUsage e b rid ty q w)) = ledger w @ [(ty, q)]"
    and "(\<exists>err. sb_retrieve (e_stripe e) = Inl err) \<or> (\<exists>err. sb_create (e_stripe e) = Inl err) \<Longrightarrow>
           usageRecords (snd (recordUsage e b rid ty q w)) =
             usageRecords w @ [new_usage_record e user b rid ty q]"
    and "\<not> truthy (u_stripeSubscriptionId user) \<Longrightarrow>
           stripeCalls (snd (recordUsage e b rid ty q w)) = stripeCalls w"
proof -
  let ?n = "new_usage_record e user b rid ty q"
  let ?w1 = "w\<lparr>usageRecords := usageRecords w @ [?n]\<rparr>"
  let ?w2 = "w\<lparr>usageRecords := usageRecords w @ [?n], users := add_usage b ty q (users w)\<rparr>"
  show "ledger (snd (recordUsage e b rid ty q w)) = ledger w @ [(ty, q)]"
  proof (cases "counter_overflows b ty q (users w)")
    case True
    with look ins show ?thesis by (simp add: recordUsage_counter_failed)
  next
    case False
    with look ins show ?thesis by (simp add: recordUsage_ok reportOveragesToStripe_ledger)
  qed
  show "usageRecords (snd (recordUsage e b rid ty q w)) = usageRecords w @ [?n]"
    if rej: "(\<exists>err. sb_retrieve (e_stripe e) = Inl err) \<or> (\<exists>err. sb_create (e_stripe e) = Inl err)"
  proof (cases "counter_overflows b ty q (users w)")
    case True
    with look ins show ?thesis by (simp add: recordUsage_counter_failed)
  next
    case False
    with look ins reportOveragesToStripe_rejected [OF rej, of "e_now e" b ?w2]
    show ?thesis by (simp add: recordUsage_ok)
  qed
  show "stripeCalls (snd (recordUsage e b rid ty q w)) = stripeCalls w"
    if nosub: "\<not> truthy (u_stripeSubscriptionId user)"
  proof (cases "counter_overflows b ty q (users w)")
    case True
    with look ins show ?thesis by (simp add: recordUsage_counter_failed)
  next
    case False
    with recordUsage_ok_props(3) [OF look ins False nosub] show ?thesis by simp
  qed
qed

text \<open>The billing user is still there after a call of \<open>recordUsage\<close>.\<close>

lemma recordUsage_user_kept:
  assumes look: "sql_select (\<lambda>u. u_id u = b) (users w) = user # rest"
  shows "\<exists>user' rest'. sql_select (\<lambda>u. u_id u = b) (users (snd (recordUsage e b rid ty q w))) = user' # rest'
           \<and> u_stripeSubscriptionId user' = u_stripeSubscriptionId user
           \<and> u_billingCycleStart user' = u_billingCycleStart user"
proof (cases rule: recordUsage_cases [where e = e and b = b and rid = rid and ty = ty and q = q and w = w])
  case no_user
  with look show ?thesis by simp
next
  case (insert_failed user0 rest0 error)
  with look show ?thesis by simp
next
  case (counter_failed user0 rest0)
  with look show ?thesis by simp
next
  case (recorded user0 rest0)
  let ?w2 = "w\<lparr>usageRecords := usageRecords w @ [new_usage_record e user0 b rid ty q],
               users := add_usage b ty q (users w)\<rparr>"
  have "users (snd (recordUsage e b rid ty q w)) = add_usage b ty q (users w)"
    using recorded(4) reportOveragesToStripe_frame [of "e_now e" "e_stripe e" b ?w2] by simp
  with add_usage_head [OF look, of ty q] show ?thesis by simp
qed

section \<open>The status callback\<close>

subsection \<open>The duration\<close>

text \<open>
  \<open>Number(CallDuration ?? 0)\<close> is reached only when the update carries no duration and the
  call log has none; \<open>CallDuration\<close> is then absent or empty and the expression is 0.
\<close>

lemma Number_only_of_falsy:
  assumes "up_duration (status_updates now req callLog) = None" and "cl_duration callLog = None"
  shows "CallDuration req = None \<or> CallDuration req = Some []"
  using assms by (auto simp: status_updates_def split: option.splits if_splits)

lemma Number_or_zero_falsy:
  "v = None \<or> v = Some [] \<Longrightarrow> Number_or_zero v = JNum 0"
  by (auto simp: Number_or_zero_def)

text \<open>
  Once the status update is accepted the duration used for billing is an integer, and it
  fits the column when the stored one does.
\<close>

lemma durationSeconds_accepted:
  assumes accepted: "updates_accepted (status_updates now req callLog)"
    and stored: "\<forall>d. cl_duration callLog = Some d \<longrightarrow> int4 d"
  shows "\<exists>d. durationSeconds (status_updates now req callLog) callLog req = JNum d \<and> int4 d"
proof (cases "up_duration (status_updates now req callLog)")
  case (Some x)
  with accepted have "integer_accepted x"
    by (simp add: updates_accepted_def)
  then obtain n where "x = JNum n" and "int4 n"
    by (cases x) simp_all
  with Some show ?thesis
    by (simp add: durationSeconds_def)
next
  case None
  show ?thesis
  proof (cases "cl_duration callLog")
    case (Some d)
    with stored have "int4 d" by simp
    with None Some show ?thesis
      by (simp add: durationSeconds_def)
  next
    case no_duration: None
    from None no_duration have "CallDuration req = None \<or> CallDuration req = Some []"
      by (rule Number_only_of_falsy)
    then have "Number_or_zero (CallDuration req) = JNum 0"
      by (rule Number_or_zero_falsy)
    with None no_duration show ?thesis
      by (simp add: durationSeconds_def int4_def)
  qed
qed

lemma parseInt_61: "parseInt ''61'' = JNum 61"
  by code_simp

lemma durationSeconds_61:
  assumes "cl_duration callLog = None" and "CallDuration req = Some ''61''"
  shows "durationSeconds (status_updates now req callLog) callLog req = JNum 61"
  using assms by (simp add: durationSeconds_def status_updates_def parseInt_61)

lemma minutes_of_61: "minutes_of 61 = 2"
  by (simp add: minutes_of_div)

subsection \<open>The paths through the handler\<close>

lemma status_updates_simps [simp]:
  "up_usageRecordedAt (status_updates now req callLog) = None"
  "up_status (status_updates now req callLog) =
     Some (if CallStatus req = Some ''completed'' then Completed else Failed)"
  by (simp_all add: status_updates_def)

lemma set_call_log_usageRecordedAt:
  "cl_usageRecordedAt (set_call_log u r) =
     (case up_usageRecordedAt u of None \<Rightarrow> cl_usageRecordedAt r | Some v \<Rightarrow> v)"
  by (simp add: set_call_log_def)

lemma set_call_log_status:
  "cl_status (set_call_log u r) = (case up_status u of None \<Rightarrow> cl_status r | Some s \<Rightarrow> s)"
  by (simp add: set_call_log_def)

lemma write_call_log_mem:
  "r \<in> set tbl \<Longrightarrow> set_call_log u r \<in> set (snd (write_call_log (cl_id r) u tbl))"
  unfolding write_call_log_snd by (induction tbl) auto

lemma getAgentConfiguration_valid:
  "getAgentConfiguration restaurantId tbl = Inr a \<Longrightarrow> valid_text restaurantId"
  by (simp add: getAgentConfiguration_def split: if_splits)

lemma statusCallback_rejected:
  assumes found: "findCallLog restaurantId req (callLogs w) = Inr (Some callLog)"
    and rejected: "\<not> updates_accepted (status_updates (h_now env) req callLog)"
  shows "statusCallback env restaurantId req w =
           (500, w\<lparr>console := console w @
                    [ConsoleError ''Status callback error:'' (DatabaseError ''parameter rejected'')]\<rparr>)"
  using assms by (simp add: statusCallback_def Let_def updateCallLog_def status_error_def)

lemma statusCallback_claims:
  assumes found: "findCallLog restaurantId req (callLogs w) = Inr (Some callLog)"
    and accepted: "updates_accepted (status_updates (h_now env) req callLog)"
    and completed: "CallStatus req = Some ''completed''"
    and unclaimed: "cl_usageRecordedAt callLog = None"
  shows "statusCallback env restaurantId req w =
           (200, record_call_usage env restaurantId req callLog
                   (status_updates (h_now env) req callLog) (claimed_state env req callLog w))"
proof -
  let ?u = "status_updates (h_now env) req callLog"
  let ?tbl = "snd (write_call_log (cl_id callLog) ?u (callLogs w))"
  have "callLog \<in> set (callLogs w)"
    using found by (rule findCallLog_mem)
  then have "set_call_log ?u callLog \<in> set ?tbl"
    by (rule write_call_log_mem)
  moreover have "cl_id (set_call_log ?u callLog) = cl_id callLog"
    and "cl_usageRecordedAt (set_call_log ?u callLog) = None"
    using unclaimed by (simp_all add: set_call_log_usageRecordedAt)
  ultimately have won: "fst (markUsageRecorded (h_now env) (cl_id callLog) ?tbl)"
    unfolding markUsageRecorded_won by blast
  show ?thesis
    using found accepted completed unclaimed won
    by (simp add: statusCallback_def updateCallLog_def Let_def claimed_state_def split_beta)
qed

lemma statusCallback_other_status:
  assumes found: "findCallLog restaurantId req (callLogs w) = Inr (Some callLog)"
    and accepted: "updates_accepted (status_updates (h_now env) req callLog)"
    and other: "CallStatus req \<noteq> Some ''completed''"
  shows "statusCallback env restaurantId req w =
           (200, w\<lparr>callLogs := snd (write_call_log (cl_id callLog)
                                      (status_updates (h_now env) req callLog) (callLogs w))\<rparr>)"
  using assms by (simp add: statusCallback_def updateCallLog_def Let_def split_beta)

lemma claimed_state_frame [simp]:
  "agentConfigurations (claimed_state env req callLog w) = agentConfigurations w"
  "users (claimed_state env req callLog w) = users w"
  "subscriptionPrices (claimed_state env req callLog w) = subscriptionPrices w"
  "usageRecords (claimed_state env req callLog w) = usageRecords w"
  "stripeCalls (claimed_state env req callLog w) = stripeCalls w"
  "console (claimed_state env req callLog w) = console w"
  "ledger (claimed_state env req callLog w) = ledger w"
  by (simp_all add: claimed_state_def ledger_def)

lemma claimed_state_claimed:
  assumes "callLog \<in> set (callLogs w)"
  shows "\<exists>t. usageRecordedAt_of (cl_id callLog) (claimed_state env req callLog w) = Some (Some t)"
proof -
  from assms obtain r0 where r0: "getCallLogById (cl_id callLog) (callLogs w) = Some r0"
    using getCallLogById_mem by fastforce
  let ?r1 = "set_call_log (status_updates (h_now env) req callLog) r0"
  have "getCallLogById (cl_id callLog) (callLogs (claimed_state env req callLog w)) =
          Some (if cl_usageRecordedAt ?r1 = None then ?r1\<lparr>cl_usageRecordedAt := Some (h_now env)\<rparr> else ?r1)"
    by (simp add: claimed_state_def getCallLogById_markUsageRecorded getCallLogById_write_call_log r0)
  then show ?thesis
    by (cases "cl_usageRecordedAt ?r1") (simp_all add: usageRecordedAt_of_def)
qed

lemma claimed_state_not_reclaimed:
  "\<not> fst (markUsageRecorded later (cl_id callLog) (callLogs (claimed_state env req callLog w)))"
  unfolding markUsageRecorded_won claimed_state_def
  using markUsageRecorded_claimed by fastforce

lemma rollback_claim_frame [simp]:
  "agentConfigurations (rollback_claim i w) = agentConfigurations w"
  "users (rollback_claim i w) = users w"
  "subscriptionPrices (rollback_claim i w) = subscriptionPrices w"
  "usageRecords (rollback_claim i w) = usageRecords w"
  "stripeCalls (rollback_claim i w) = stripeCalls w"
  "console (rollback_claim i w) = console w"
  by (simp_all add: rollback_claim_def)

lemma rollback_claim_cleared:
  assumes "usageRecordedAt_of i w = Some v"
  shows "usageRecordedAt_of i (rollback_claim i w) = Some None"
    and "fst (markUsageRecorded now i (callLogs (rollback_claim i w)))"
proof -
  from assms obtain r where r: "getCallLogById i (callLogs w) = Some r"
    by (auto simp: usageRecordedAt_of_def)
  let ?u = "no_updates\<lparr>up_usageRecordedAt := Some None\<rparr>"
  have g: "getCallLogById i (callLogs (rollback_claim i w)) = Some (set_call_log ?u r)"
    by (simp add: rollback_claim_def getCallLogById_write_call_log r)
  have n: "cl_usageRecordedAt (set_call_log ?u r) = None"
    by (simp add: set_call_log_usageRecordedAt)
  from g n show "usageRecordedAt_of i (rollback_claim i w) = Some None"
    by (simp add: usageRecordedAt_of_def)
  from g have "set_call_log ?u r \<in> set (callLogs (rollback_claim i w)) \<and> cl_id (set_call_log ?u r) = i"
    by (rule getCallLogById_SomeD)
  with n show "fst (markUsageRecorded now i (callLogs (rollback_claim i w)))"
    unfolding markUsageRecorded_won by blast
qed

text \<open>The first \<open>recordUsage\<close> throws: the error is logged and the claim rolled back.\<close>

lemma record_call_usage_first_fails:
  assumes "getAgentConfiguration restaurantId (agentConfigurations w) = Inr (Some agentConfig)"
    and "ac_billingUserId agentConfig \<noteq> []"
    and "recordUsage (h_record env Call) (ac_billingUserId agentConfig) restaurantId Call 1 w
           = (Some error, w1)"
  shows "record_call_usage env restaurantId req callLog updates w =
           rollback_claim (cl_id callLog)
             (w1\<lparr>console := console w1 @ [ConsoleError ''Failed to record usage:'' error]\<rparr>)"
  using assms by (simp add: record_call_usage_def Let_def)

text \<open>
  The first \<open>recordUsage\<close> returns: the minutes are recorded if there are any, and an
  exception of that second call is only logged.
\<close>

lemma record_call_usage_started:
  assumes "getAgentConfiguration restaurantId (agentConfigurations w) = Inr (Some agentConfig)"
    and "ac_billingUserId agentConfig \<noteq> []"
    and "recordUsage (h_record env Call) (ac_billingUserId agentConfig) restaurantId Call 1 w
           = (None, w1)"
    and "durationSeconds updates callLog req = JNum d"
  shows "record_call_usage env restaurantId req callLog updates w =
           (if minutes_of d > 0
            then (snd (recordUsage (h_record env Minute) (ac_billingUserId agentConfig) restaurantId
                         Minute (minutes_of d) w1))
                   \<lparr>console :=
                      console (snd (recordUsage (h_record env Minute) (ac_billingUserId agentConfig)
                                      restaurantId Minute (minutes_of d) w1))
                      @ (case fst (recordUsage (h_record env Minute) (ac_billingUserId agentConfig)
                                     restaurantId Minute (minutes_of d) w1) of
                           None \<Rightarrow> []
                         | Some usageError \<Rightarrow> [ConsoleError ''Failed to record usage:'' usageError])\<rparr>
            else w1)"
proof -
  let ?r2 = "recordUsage (h_record env Minute) (ac_billingUserId agentConfig) restaurantId
               Minute (minutes_of d) w1"
  obtain err w2 where r2: "?r2 = (err, w2)"
    by (cases ?r2)
  show ?thesis
    using assms r2 by (cases err) (simp_all add: record_call_usage_def Let_def)
qed

lemma record_call_usage_no_billing_user:
  assumes "getAgentConfiguration restaurantId (agentConfigurations w) = Inr None
           \<or> (\<exists>a. getAgentConfiguration restaurantId (agentConfigurations w) = Inr (Some a)
                    \<and> ac_billingUserId a = [])"
  shows "record_call_usage env restaurantId req callLog updates w =
           rollback_claim (cl_id callLog)
             (w\<lparr>console := console w @ [ConsoleWarn ''no billing user set, rolling back usage claim'']\<rparr>)"
  using assms by (auto simp: record_call_usage_def)

lemma ledger_console [simp]: "ledger (w\<lparr>console := c\<rparr>) = ledger w"
  by (simp add: ledger_def)

subsection \<open>A status other than completed\<close>

text \<open>
  C10 as stated fails: the status update is one statement with the duration read from the
  request, and the database rejects the whole statement when the duration does not fit the
  column. In \<open>world1\<close> the callback \<open>request3\<close> reports the call busy with a duration of
  2147483648 seconds; the handler answers 500 and the call is still in progress.
\<close>

theorem rejected_update_keeps_status:
  "findCallLog ''r1'' request3 (callLogs world1) = Inr (Some call1)
   \<and> CallStatus request3 = Some ''busy''
   \<and> fst (statusCallback (henv False stripe_ok) ''r1'' request3 world1) = 500
   \<and> map_option cl_status
        (getCallLogById ''c1''
           (callLogs (snd (statusCallback (henv False stripe_ok) ''r1'' request3 world1))))
       = Some InProgress"
  by code_simp

text \<open>
  C10, as the code has it. When the callback matches a call record and \<open>CallStatus\<close> is
  anything but \<open>completed\<close> (ringing, in-progress, busy, no-answer, or absent), then, if the
  database accepts the status update, the handler answers 200 and the record's status is
  \<open>failed\<close> afterwards, whatever it was before: the record found under the call's id, and
  every row with that id, has status \<open>failed\<close>. If the database rejects the update (a
  \<open>CallDuration\<close> that \<open>parseInt\<close> reads as \<open>NaN\<close> or as a number outside the integer column,
  or a \<open>CallSid\<close> it does not take), the handler answers 500, logs the error, and no call
  log is changed.
\<close>

theorem other_status_marks_call_failed:
  assumes found: "findCallLog restaurantId req (callLogs w) = Inr (Some callLog)"
    and other: "CallStatus req \<noteq> Some ''completed''"
  shows "(updates_accepted (status_updates (h_now env) req callLog) \<longrightarrow>
            fst (statusCallback env restaurantId req w) = 200
            \<and> map_option cl_status
                (getCallLogById (cl_id callLog) (callLogs (snd (statusCallback env restaurantId req w))))
                = Some Failed
            \<and> (\<forall>r \<in> set (callLogs (snd (statusCallback env restaurantId req w))).
                  cl_id r = cl_id callLog \<longrightarrow> cl_status r = Failed))
       \<and> (\<not> updates_accepted (status_updates (h_now env) req callLog) \<longrightarrow>
            fst (statusCallback env restaurantId req w) = 500
            \<and> callLogs (snd (statusCallback env restaurantId req w)) = callLogs w
            \<and> console (snd (statusCallback env restaurantId req w)) =
                console w @ [ConsoleError ''Status callback error:'' (DatabaseError ''parameter rejected'')])"
proof (cases "updates_accepted (status_updates (h_now env) req callLog)")
  case accepted: True
  let ?u = "status_updates (h_now env) req callLog"
  let ?tbl = "snd (write_call_log (cl_id callLog) ?u (callLogs w))"
  have res: "statusCallback env restaurantId req w = (200, w\<lparr>callLogs := ?tbl\<rparr>)"
    using found accepted other by (rule statusCallback_other_status)
  have st: "cl_status (set_call_log ?u r) = Failed" for r
    using other by (simp add: set_call_log_status)
  have "callLog \<in> set (callLogs w)"
    using found by (rule findCallLog_mem)
  then obtain r0 where "getCallLogById (cl_id callLog) (callLogs w) = Some r0"
    using getCallLogById_mem by fastforce
  then have first: "map_option cl_status (getCallLogById (cl_id callLog) ?tbl) = Some Failed"
    by (simp add: getCallLogById_write_call_log st)
  have every: "cl_status r = Failed" if "r \<in> set ?tbl" and "cl_id r = cl_id callLog" for r
  proof -
    from that(1) obtain r' where "r' \<in> set (callLogs w)"
      and r: "r = (if cl_id r' = cl_id callLog then set_call_log ?u r' else r')"
      unfolding write_call_log_snd by auto
    show ?thesis
    proof (cases "cl_id r' = cl_id callLog")
      case True
      with r st show ?thesis by simp
    next
      case False
      with r that(2) show ?thesis by simp
    qed
  qed
  from res first every accepted show ?thesis by simp
next
  case rejected: False
  with found have "statusCallback env restaurantId req w =
           (500, w\<lparr>console := console w @
                    [ConsoleError ''Status callback error:'' (DatabaseError ''parameter rejected'')]\<rparr>)"
    by (rule statusCallback_rejected)
  with rejected show ?thesis by simp
qed

theorem other_status_marks_call_failed_witness:
  "findCallLog ''r1'' request2 (callLogs world1) = Inr (Some call1)
   \<and> CallStatus request2 \<noteq> Some ''completed''
   \<and> updates_accepted (status_updates (h_now (henv False stripe_ok)) request2 call1)
   \<and> cl_status call1 = InProgress
   \<and> map_option cl_status
        (getCallLogById ''c1''
          (callLogs (snd (statusCallback (henv False stripe_ok) ''r1'' request2 world1)))) = Some Failed
   \<and> findCallLog ''r1'' request3 (callLogs world1) = Inr (Some call1)
   \<and> CallStatus request3 \<noteq> Some ''completed''
   \<and> \<not> updates_accepted (status_updates (h_now (henv False stripe_ok)) request3 call1)
   \<and> fst (statusCallback (henv False stripe_ok) ''r1'' request3 world1) = 500
   \<and> callLogs (snd (statusCallback (henv False stripe_ok) ''r1'' request3 world1)) = [call1]"
proof -
  have h1: "findCallLog ''r1'' request2 (callLogs world1) = Inr (Some call1)"
    by code_simp
  have h2: "CallStatus request2 \<noteq> Some ''completed''"
    by (simp add: request2_def request1_def)
  have h3: "updates_accepted (status_updates (h_now (henv False stripe_ok)) request2 call1)"
    by code_simp
  have i: "cl_id call1 = ''c1''" and s: "cl_status call1 = InProgress"
    by (simp_all add: call1_def)
  have g1: "findCallLog ''r1'' request3 (callLogs world1) = Inr (Some call1)"
    by code_simp
  have g2: "CallStatus request3 \<noteq> Some ''completed''"
    by (simp add: request3_def request1_def)
  have g3: "\<not> updates_accepted (status_updates (h_now (henv False stripe_ok)) request3 call1)"
    by code_simp
  have c: "callLogs world1 = [call1]"
    by (simp add: world1_def)
  have t1: "map_option cl_status
        (getCallLogById (cl_id call1)
          (callLogs (snd (statusCallback (henv False stripe_ok) ''r1'' request2 world1)))) = Some Failed"
    using other_status_marks_call_failed [OF h1 h2, of "henv False stripe_ok"] h3 by blast
  have t2: "fst (statusCallback (henv False stripe_ok) ''r1'' request3 world1) = 500
            \<and> callLogs (snd (statusCallback (henv False stripe_ok) ''r1'' request3 world1)) = callLogs world1"
    using other_status_marks_call_failed [OF g1 g2, of "henv False stripe_ok"] g3 by blast
  from t1 t2 h1 h2 h3 i s g1 g2 g3 c show ?thesis by simp
qed

subsection \<open>The ledger entries of a completed call\<close>

text \<open>
  C9. When a completed, unclaimed call is matched, the database accepts the status update,
  the agent's billing user exists, the inserts into the ledger are not failed by the
  environment and the call counter of the billing user has room for one more call, then
  the duration used for billing is an integer \<open>d\<close>, the handler answers 200 and the ledger
  grows by exactly one call entry of quantity 1, followed by one minute entry of quantity
  \<open>\<lceil>d / 60\<rceil>\<close> if that is greater than 0, and by nothing else; \<open>minutes_of d\<close> is the ceiling:
  the least \<open>m\<close> with \<open>d \<le> 60 m\<close>. The stored durations fit their column. A call log without a
  duration and a \<open>CallDuration\<close> of 61 seconds give the entries (call, 1) and (minute, 2).
\<close>

theorem completed_call_records_usage:
  assumes found: "findCallLog restaurantId req (callLogs w) = Inr (Some callLog)"
    and accepted: "updates_accepted (status_updates (h_now env) req callLog)"
    and completed: "CallStatus req = Some ''completed''"
    and unclaimed: "cl_usageRecordedAt callLog = None"
    and stored: "\<forall>d. cl_duration callLog = Some d \<longrightarrow> int4 d"
    and agent: "getAgentConfiguration restaurantId (agentConfigurations w) = Inr (Some agentConfig)"
    and billing: "ac_billingUserId agentConfig \<noteq> []"
    and look: "sql_select (\<lambda>u. u_id u = ac_billingUserId agentConfig) (users w) = user # rest"
    and ins: "\<not> e_insertFails (h_record env Call)" "\<not> e_insertFails (h_record env Minute)"
    and room: "\<not> counter_overflows (ac_billingUserId agentConfig) Call 1 (users w)"
  shows "fst (statusCallback env restaurantId req w) = 200
       \<and> (\<exists>d. durationSeconds (status_updates (h_now env) req callLog) callLog req = JNum d
              \<and> ledger (snd (statusCallback env restaurantId req w)) =
                  ledger w @ (Call, 1) # (if minutes_of d > 0 then [(Minute, minutes_of d)] else [])
              \<and> 60 * (minutes_of d - 1) < d \<and> d \<le> 60 * minutes_of d)
       \<and> (cl_duration callLog = None \<and> CallDuration req = Some ''61'' \<longrightarrow>
            ledger (snd (statusCallback env restaurantId req w)) = ledger w @ [(Call, 1), (Minute, 2)])"
proof -
  let ?w2 = "claimed_state env req callLog w"
  let ?u = "status_updates (h_now env) req callLog"
  let ?b = "ac_billingUserId agentConfig"
  let ?r1 = "recordUsage (h_record env Call) ?b restaurantId Call 1 ?w2"
  let ?w' = "snd (statusCallback env restaurantId req w)"
  have res: "statusCallback env restaurantId req w = (200, record_call_usage env restaurantId req callLog ?u ?w2)"
    using found accepted completed unclaimed by (rule statusCallback_claims)
  have look2: "sql_select (\<lambda>u. u_id u = ?b) (users ?w2) = user # rest"
    using look by simp
  have agent2: "getAgentConfiguration restaurantId (agentConfigurations ?w2) = Inr (Some agentConfig)"
    using agent by simp
  have valid: "valid_text restaurantId"
    using agent by (rule getAgentConfiguration_valid)
  have ins1: "insert_error (h_record env Call) restaurantId 1 = None"
    using ins(1) valid by (simp add: insert_error_None int4_def)
  have room2: "\<not> counter_overflows ?b Call 1 (users ?w2)"
    using room by simp
  have "fst ?r1 = None"
    using look2 ins1 room2 by (rule recordUsage_ok_props(1))
  then have first: "?r1 = (None, snd ?r1)"
    by (cases ?r1) simp
  obtain d where dur: "durationSeconds ?u callLog req = JNum d" and d: "int4 d"
    using durationSeconds_accepted [OF accepted stored] by blast
  let ?m = "minutes_of d"
  let ?r2 = "recordUsage (h_record env Minute) ?b restaurantId Minute ?m (snd ?r1)"
  have rcu: "?w' = (if ?m > 0
                    then (snd ?r2)\<lparr>console := console (snd ?r2) @
                           (case fst ?r2 of None \<Rightarrow> []
                            | Some usageError \<Rightarrow> [ConsoleError ''Failed to record usage:'' usageError])\<rparr>
                    else snd ?r1)"
    using res record_call_usage_started [OF agent2 billing first dur] by simp
  have l1: "ledger (snd ?r1) = ledger w @ [(Call, 1)]"
    using recordUsage_written(1) [OF look2 ins1, of Call] by simp
  obtain user' rest' where look': "sql_select (\<lambda>u. u_id u = ?b) (users (snd ?r1)) = user' # rest'"
    using recordUsage_user_kept [OF look2] by blast
  have ins2: "insert_error (h_record env Minute) restaurantId ?m = None"
    using ins(2) valid d by (simp add: insert_error_None int4_minutes_of)
  have l2: "ledger (snd ?r2) = ledger w @ [(Call, 1), (Minute, ?m)]"
    using recordUsage_written(1) [OF look' ins2, of Minute] l1 by simp
  have led: "ledger ?w' = ledger w @ (Call, 1) # (if ?m > 0 then [(Minute, ?m)] else [])"
    using rcu l1 l2 by simp
  have a: "\<exists>d. durationSeconds ?u callLog req = JNum d
              \<and> ledger ?w' = ledger w @ (Call, 1) # (if minutes_of d > 0 then [(Minute, minutes_of d)] else [])
              \<and> 60 * (minutes_of d - 1) < d \<and> d \<le> 60 * minutes_of d"
    using dur led minutes_of_ceiling [of d] by blast
  have b: "ledger ?w' = ledger w @ [(Call, 1), (Minute, 2)]"
    if "cl_duration callLog = None \<and> CallDuration req = Some ''61''"
  proof -
    from that have "durationSeconds ?u callLog req = JNum 61"
      by (simp add: durationSeconds_61)
    with dur have "d = 61" by simp
    with led show ?thesis by (simp add: minutes_of_61)
  qed
  from res a b show ?thesis by simp
qed

theorem completed_call_records_usage_witness:
  "findCallLog ''r1'' request1 (callLogs world1) = Inr (Some call1)
   \<and> updates_accepted (status_updates (h_now (henv False stripe_ok)) request1 call1)
   \<and> CallStatus request1 = Some ''completed''
   \<and> cl_usageRecordedAt call1 = None
   \<and> getAgentConfiguration ''r1'' (agentConfigurations world1) = Inr (Some agent1)
   \<and> ac_billingUserId agent1 \<noteq> []
   \<and> sql_select (\<lambda>u. u_id u = ac_billingUserId agent1) (users world1) = [user1]
   \<and> \<not> e_insertFails (h_record (henv False stripe_ok) Call)
   \<and> \<not> e_insertFails (h_record (henv False stripe_ok) Minute)
   \<and> \<not> counter_overflows (ac_billingUserId agent1) Call 1 (users world1)
   \<and> cl_duration call1 = None \<and> CallDuration request1 = Some ''61''
   \<and> ledger (snd (statusCallback (henv False stripe_ok) ''r1'' request1 world1)) = [(Call, 1), (Minute, 2)]"
proof -
  have h1: "findCallLog ''r1'' request1 (callLogs world1) = Inr (Some call1)"
    by code_simp
  have h2: "updates_accepted (status_updates (h_now (henv False stripe_ok)) request1 call1)"
    by code_simp
  have h3: "CallStatus request1 = Some ''completed''"
    by (simp add: request1_def)
  have h4: "cl_usageRecordedAt call1 = None"
    by (simp add: call1_def)
  have h5: "\<forall>d. cl_duration call1 = Some d \<longrightarrow> int4 d"
    by (simp add: call1_def)
  have h6: "getAgentConfiguration ''r1'' (agentConfigurations world1) = Inr (Some agent1)"
    by code_simp
  have h7: "ac_billingUserId agent1 \<noteq> []"
    by (simp add: agent1_def)
  have h8: "sql_select (\<lambda>u. u_id u = ac_billingUserId agent1) (users world1) = user1 # []"
    by code_simp
  have h9: "\<not> e_insertFails (h_record (henv False stripe_ok) Call)"
    and h10: "\<not> e_insertFails (h_record (henv False stripe_ok) Minute)"
    by (simp_all add: henv_def env_of_def)
  have h11: "\<not> counter_overflows (ac_billingUserId agent1) Call 1 (users world1)"
    by code_simp
  have d: "cl_duration call1 = None \<and> CallDuration request1 = Some ''61''"
    by (simp add: call1_def request1_def)
  have l: "ledger world1 = []"
    by (simp add: ledger_def world1_def)
  have t: "ledger (snd (statusCallback (henv False stripe_ok) ''r1'' request1 world1)) =
             ledger world1 @ [(Call, 1), (Minute, 2)]"
    using completed_call_records_usage [OF h1 h2 h3 h4 h5 h6 h7 h8 h9 h10 h11] d by blast
  from t h1 h2 h3 h4 h6 h7 h8 h9 h10 h11 d l show ?thesis by simp
qed

subsection \<open>A failed ledger write rolls the claim back\<close>

text \<open>
  C2. When a completed, unclaimed call is matched and claimed, its agent has a billing
  user, and the first call of \<open>recordUsage\<close> throws (the billing user is missing, the insert
  into the ledger fails, or the update of the call counter that follows the insert is
  rejected because the counter would leave its 32 bits), then nothing was sent to Stripe,
  the handler sets the call's usage-recorded timestamp back to null, so that a later claim
  attempt on the call wins again, and the error is written to \<open>console.error\<close>
  (\<open>Failed to record usage\<close>); the callback is still answered with 200. No counter is
  changed. The ledger is unchanged when the user is missing or the insert fails; when the
  counter update is what throws, the call entry is already written and stays.
\<close>

theorem ledger_failure_rolls_back_claim:
  assumes found: "findCallLog restaurantId req (callLogs w) = Inr (Some callLog)"
    and accepted: "updates_accepted (status_updates (h_now env) req callLog)"
    and completed: "CallStatus req = Some ''completed''"
    and unclaimed: "cl_usageRecordedAt callLog = None"
    and agent: "getAgentConfiguration restaurantId (agentConfigurations w) = Inr (Some agentConfig)"
    and billing: "ac_billingUserId agentConfig \<noteq> []"
    and fails: "sql_select (\<lambda>u. u_id u = ac_billingUserId agentConfig) (users w) = []
                \<or> e_insertFails (h_record env Call)
                \<or> counter_overflows (ac_billingUserId agentConfig) Call 1 (users w)"
  shows "fst (statusCallback env restaurantId req w) = 200
       \<and> usageRecordedAt_of (cl_id callLog) (snd (statusCallback env restaurantId req w)) = Some None
       \<and> fst (markUsageRecorded later (cl_id callLog)
                 (callLogs (snd (statusCallback env restaurantId req w))))
       \<and> stripeCalls (snd (statusCallback env restaurantId req w)) = stripeCalls w
       \<and> users (snd (statusCallback env restaurantId req w)) = users w
       \<and> usageRecords (snd (statusCallback env restaurantId req w)) =
           usageRecords w @
             (case sql_select (\<lambda>u. u_id u = ac_billingUserId agentConfig) (users w) of
                [] \<Rightarrow> []
              | user # _ \<Rightarrow>
                  if e_insertFails (h_record env Call) then []
                  else [new_usage_record (h_record env Call) user (ac_billingUserId agentConfig)
                          restaurantId Call 1])
       \<and> console (snd (statusCallback env restaurantId req w)) =
           console w @ [ConsoleError ''Failed to record usage:''
                          (if sql_select (\<lambda>u. u_id u = ac_billingUserId agentConfig) (users w) = []
                           then UserNotFound
                           else if e_insertFails (h_record env Call) then LedgerWriteFailed
                           else DatabaseError ''integer out of range'')]"
proof -
  let ?w2 = "claimed_state env req callLog w"
  let ?u = "status_updates (h_now env) req callLog"
  let ?b = "ac_billingUserId agentConfig"
  let ?e = "h_record env Call"
  let ?r1 = "recordUsage ?e ?b restaurantId Call 1 ?w2"
  let ?new = "case sql_select (\<lambda>u. u_id u = ?b) (users w) of
                [] \<Rightarrow> []
              | user # _ \<Rightarrow>
                  if e_insertFails ?e then [] else [new_usage_record ?e user ?b restaurantId Call 1]"
  let ?err = "if sql_select (\<lambda>u. u_id u = ?b) (users w) = [] then UserNotFound
              else if e_insertFails ?e then LedgerWriteFailed
              else DatabaseError ''integer out of range''"
  have res: "statusCallback env restaurantId req w = (200, record_call_usage env restaurantId req callLog ?u ?w2)"
    using found accepted completed unclaimed by (rule statusCallback_claims)
  have agent2: "getAgentConfiguration restaurantId (agentConfigurations ?w2) = Inr (Some agentConfig)"
    using agent by simp
  have valid: "valid_text restaurantId"
    using agent by (rule getAgentConfiguration_valid)
  have ins: "insert_error ?e restaurantId 1 = (if e_insertFails ?e then Some LedgerWriteFailed else None)"
    using valid by (simp add: insert_error_def int4_def)
  have thrown: "\<exists>w1. ?r1 = (Some ?err, w1) \<and> w1 = ?w2\<lparr>usageRecords := usageRecords w @ ?new\<rparr>"
  proof (cases "sql_select (\<lambda>u. u_id u = ?b) (users w)")
    case Nil
    then show ?thesis
      by (simp add: recordUsage_def)
  next
    case look: (Cons user rest)
    show ?thesis
    proof (cases "e_insertFails ?e")
      case True
      with look ins show ?thesis
        by (simp add: recordUsage_def)
    next
      case False
      with look fails have "counter_overflows ?b Call 1 (users ?w2)"
        by simp
      moreover have "sql_select (\<lambda>u. u_id u = ?b) (users ?w2) = user # rest"
        using look by simp
      moreover have "insert_error ?e restaurantId 1 = None"
        using ins False by simp
      ultimately have "?r1 = (Some (DatabaseError ''integer out of range''),
                              ?w2\<lparr>usageRecords := usageRecords ?w2 @
                                     [new_usage_record ?e user ?b restaurantId Call 1]\<rparr>)"
        by (simp add: recordUsage_counter_failed)
      with look False show ?thesis
        by simp
    qed
  qed
  then obtain w1 where r1: "?r1 = (Some ?err, w1)"
    and w1: "w1 = ?w2\<lparr>usageRecords := usageRecords w @ ?new\<rparr>"
    by blast
  let ?w3 = "w1\<lparr>console := console w1 @ [ConsoleError ''Failed to record usage:'' ?err]\<rparr>"
  have "record_call_usage env restaurantId req callLog ?u ?w2 = rollback_claim (cl_id callLog) ?w3"
    using agent2 billing r1 by (rule record_call_usage_first_fails)
  with res have final: "statusCallback env restaurantId req w = (200, rollback_claim (cl_id callLog) ?w3)"
    by simp
  have "callLog \<in> set (callLogs w)"
    using found by (rule findCallLog_mem)
  then obtain t where "usageRecordedAt_of (cl_id callLog) ?w2 = Some (Some t)"
    using claimed_state_claimed by blast
  then have "usageRecordedAt_of (cl_id callLog) ?w3 = Some (Some t)"
    using w1 by (simp add: usageRecordedAt_of_def)
  then have "usageRecordedAt_of (cl_id callLog) (rollback_claim (cl_id callLog) ?w3) = Some None"
    and "fst (markUsageRecorded later (cl_id callLog) (callLogs (rollback_claim (cl_id callLog) ?w3)))"
    by (rule rollback_claim_cleared)+
  moreover have "stripeCalls ?w3 = stripeCalls w" and "users ?w3 = users w"
    and "usageRecords ?w3 = usageRecords w @ ?new"
    and "console ?w3 = console w @ [ConsoleError ''Failed to record usage:'' ?err]"
    using w1 by simp_all
  ultimately show ?thesis
    using final by simp
qed

theorem ledger_failure_rolls_back_claim_witness:
  "findCallLog ''r1'' request1 (callLogs world1) = Inr (Some call1)
   \<and> updates_accepted (status_updates (h_now (henv True stripe_ok)) request1 call1)
   \<and> CallStatus request1 = Some ''completed''
   \<and> cl_usageRecordedAt call1 = None
   \<and> getAgentConfiguration ''r1'' (agentConfigurations world1) = Inr (Some agent1)
   \<and> ac_billingUserId agent1 \<noteq> []
   \<and> e_insertFails (h_record (henv True stripe_ok) Call)
   \<and> usageRecordedAt_of ''c1'' (snd (statusCallback (henv True stripe_ok) ''r1'' request1 world1)) = Some None
   \<and> console (snd (statusCallback (henv True stripe_ok) ''r1'' request1 world1)) =
       [ConsoleError ''Failed to record usage:'' LedgerWriteFailed]
   \<and> findCallLog ''r1'' request1 (callLogs world5) = Inr (Some call1)
   \<and> getAgentConfiguration ''r1'' (agentConfigurations world5) = Inr (Some agent1)
   \<and> counter_overflows (ac_billingUserId agent1) Call 1 (users world5)
   \<and> usageRecordedAt_of ''c1'' (snd (statusCallback (henv False stripe_ok) ''r1'' request1 world5)) = Some None
   \<and> ledger (snd (statusCallback (henv False stripe_ok) ''r1'' request1 world5)) = [(Call, 1)]"
proof -
  have h1: "findCallLog ''r1'' request1 (callLogs world1) = Inr (Some call1)"
    by code_simp
  have h2: "updates_accepted (status_updates (h_now (henv True stripe_ok)) request1 call1)"
    by code_simp
  have h3: "CallStatus request1 = Some ''completed''"
    by (simp add: request1_def)
  have h4: "cl_usageRecordedAt call1 = None" and i: "cl_id call1 = ''c1''"
    by (simp_all add: call1_def)
  have h5: "getAgentConfiguration ''r1'' (agentConfigurations world1) = Inr (Some agent1)"
    by code_simp
  have h6: "ac_billingUserId agent1 \<noteq> []"
    by (simp add: agent1_def)
  have h7: "e_insertFails (h_record (henv True stripe_ok) Call)"
    by (simp add: henv_def env_of_def)
  have u: "sql_select (\<lambda>u. u_id u = ac_billingUserId agent1) (users world1) \<noteq> []"
    by code_simp
  have c: "console world1 = []"
    by (simp add: world1_def)
  have g1: "findCallLog ''r1'' request1 (callLogs world5) = Inr (Some call1)"
    by code_simp
  have g2: "updates_accepted (status_updates (h_now (henv False stripe_ok)) request1 call1)"
    by code_simp
  have g5: "getAgentConfiguration ''r1'' (agentConfigurations world5) = Inr (Some agent1)"
    by code_simp
  have g7: "counter_overflows (ac_billingUserId agent1) Call 1 (users world5)"
    by code_simp
  have l: "ledger (snd (statusCallback (henv False stripe_ok) ''r1'' request1 world5)) = [(Call, 1)]"
    by code_simp
  have t1: "usageRecordedAt_of (cl_id call1) (snd (statusCallback (henv True stripe_ok) ''r1'' request1 world1))
              = Some None
            \<and> console (snd (statusCallback (henv True stripe_ok) ''r1'' request1 world1)) =
                console world1 @ [ConsoleError ''Failed to record usage:''
                  (if sql_select (\<lambda>u. u_id u = ac_billingUserId agent1) (users world1) = []
                   then UserNotFound
                   else if e_insertFails (h_record (henv True stripe_ok) Call) then LedgerWriteFailed
                   else DatabaseError ''integer out of range'')]"
    using ledger_failure_rolls_back_claim [OF h1 h2 h3 h4 h5 h6, of 2000] h7 by blast
  have t2: "usageRecordedAt_of (cl_id call1) (snd (statusCallback (henv False stripe_ok) ''r1'' request1 world5))
              = Some None"
    using ledger_failure_rolls_back_claim [OF g1 g2 h3 h4 g5 h6, of 2000] g7 by blast
  from t1 t2 h1 h2 h3 h4 h5 h6 h7 i u c g1 g5 g7 l show ?thesis by simp
qed

subsection \<open>A failed provider call rolls nothing back\<close>

text \<open>
  C3. When the claim and the ledger writes succeed (the status update is accepted, the
  billing user exists, the inserts are not failed by the environment and the call counter
  has room) but Stripe fails every time it is asked during the callback (it rejects the
  retrieval of the subscription or the meter event), the call's usage-recorded timestamp
  stays set, so that a later claim attempt loses, the ledger is the old ledger followed by
  the new entries (the call entry and, for a positive minute count, the minute entry), and
  each new entry has reported-to-provider = false. No old entry is changed. The callback is
  answered with 200.
\<close>

theorem provider_failure_keeps_claim_and_entries:
  assumes found: "findCallLog restaurantId req (callLogs w) = Inr (Some callLog)"
    and accepted: "updates_accepted (status_updates (h_now env) req callLog)"
    and completed: "CallStatus req = Some ''completed''"
    and unclaimed: "cl_usageRecordedAt callLog = None"
    and stored: "\<forall>d. cl_duration callLog = Some d \<longrightarrow> int4 d"
    and agent: "getAgentConfiguration restaurantId (agentConfigurations w) = Inr (Some agentConfig)"
    and billing: "ac_billingUserId agentConfig \<noteq> []"
    and look: "sql_select (\<lambda>u. u_id u = ac_billingUserId agentConfig) (users w) = user # rest"
    and ins: "\<not> e_insertFails (h_record env Call)" "\<not> e_insertFails (h_record env Minute)"
    and room: "\<not> counter_overflows (ac_billingUserId agentConfig) Call 1 (users w)"
    and rejects: "\<forall>type. (\<exists>err. sb_retrieve (e_stripe (h_record env type)) = Inl err)
                        \<or> (\<exists>err. sb_create (e_stripe (h_record env type)) = Inl err)"
  shows "fst (statusCallback env restaurantId req w) = 200
       \<and> (\<exists>t. usageRecordedAt_of (cl_id callLog) (snd (statusCallback env restaurantId req w)) = Some (Some t))
       \<and> \<not> fst (markUsageRecorded later (cl_id callLog)
                   (callLogs (snd (statusCallback env restaurantId req w))))
       \<and> (\<exists>d new. durationSeconds (status_updates (h_now env) req callLog) callLog req = JNum d
             \<and> usageRecords (snd (statusCallback env restaurantId req w)) = usageRecords w @ new
             \<and> map (\<lambda>r. (ur_type r, ur_quantity r, ur_reportedToStripe r)) new =
                 (Call, 1, Some False) #
                 (if minutes_of d > 0 then [(Minute, minutes_of d, Some False)] else []))"
proof -
  let ?w2 = "claimed_state env req callLog w"
  let ?u = "status_updates (h_now env) req callLog"
  let ?b = "ac_billingUserId agentConfig"
  let ?r1 = "recordUsage (h_record env Call) ?b restaurantId Call 1 ?w2"
  let ?w' = "snd (statusCallback env restaurantId req w)"
  have res: "statusCallback env restaurantId req w = (200, record_call_usage env restaurantId req callLog ?u ?w2)"
    using found accepted completed unclaimed by (rule statusCallback_claims)
  have look2: "sql_select (\<lambda>u. u_id u = ?b) (users ?w2) = user # rest"
    using look by simp
  have agent2: "getAgentConfiguration restaurantId (agentConfigurations ?w2) = Inr (Some agentConfig)"
    using agent by simp
  have valid: "valid_text restaurantId"
    using agent by (rule getAgentConfiguration_valid)
  have ins1: "insert_error (h_record env Call) restaurantId 1 = None"
    using ins(1) valid by (simp add: insert_error_None int4_def)
  have room2: "\<not> counter_overflows ?b Call 1 (users ?w2)"
    using room by simp
  have "fst ?r1 = None"
    using look2 ins1 room2 by (rule recordUsage_ok_props(1))
  then have first: "?r1 = (None, snd ?r1)"
    by (cases ?r1) simp
  obtain d where dur: "durationSeconds ?u callLog req = JNum d" and d: "int4 d"
    using durationSeconds_accepted [OF accepted stored] by blast
  let ?m = "minutes_of d"
  let ?r2 = "recordUsage (h_record env Minute) ?b restaurantId Minute ?m (snd ?r1)"
  have rcu: "?w' = (if ?m > 0
                    then (snd ?r2)\<lparr>console := console (snd ?r2) @
                           (case fst ?r2 of None \<Rightarrow> []
                            | Some usageError \<Rightarrow> [ConsoleError ''Failed to record usage:'' usageError])\<rparr>
                    else snd ?r1)"
    using res record_call_usage_started [OF agent2 billing first dur] by simp
  obtain user' rest' where look': "sql_select (\<lambda>u. u_id u = ?b) (users (snd ?r1)) = user' # rest'"
    using recordUsage_user_kept [OF look2] by blast
  have ins2: "insert_error (h_record env Minute) restaurantId ?m = None"
    using ins(2) valid d by (simp add: insert_error_None int4_minutes_of)
  have c1: "callLogs (snd ?r1) = callLogs ?w2"
    by (rule recordUsage_frame(1))
  have c2: "callLogs (snd ?r2) = callLogs ?w2"
    using recordUsage_frame(1) [of "h_record env Minute" ?b restaurantId Minute ?m "snd ?r1"] c1 by simp
  have logs: "callLogs ?w' = callLogs ?w2"
    using rcu c1 c2 by simp
  from rejects have e1: "(\<exists>err. sb_retrieve (e_stripe (h_record env Call)) = Inl err)
                          \<or> (\<exists>err. sb_create (e_stripe (h_record env Call)) = Inl err)"
    and e2: "(\<exists>err. sb_retrieve (e_stripe (h_record env Minute)) = Inl err)
             \<or> (\<exists>err. sb_create (e_stripe (h_record env Minute)) = Inl err)"
    by blast+
  let ?n1 = "new_usage_record (h_record env Call) user ?b restaurantId Call 1"
  let ?n2 = "new_usage_record (h_record env Minute) user' ?b restaurantId Minute ?m"
  have u1: "usageRecords (snd ?r1) = usageRecords w @ [?n1]"
    using recordUsage_written(2) [OF look2 ins1 e1, of Call] by simp
  have u2: "usageRecords (snd ?r2) = usageRecords w @ [?n1, ?n2]"
    using recordUsage_written(2) [OF look' ins2 e2, of Minute] u1 by simp
  have "callLog \<in> set (callLogs w)"
    using found by (rule findCallLog_mem)
  then have a: "\<exists>t. usageRecordedAt_of (cl_id callLog) ?w' = Some (Some t)"
    using claimed_state_claimed [of callLog w env req] logs by (simp add: usageRecordedAt_of_def)
  have b: "\<not> fst (markUsageRecorded later (cl_id callLog) (callLogs ?w'))"
    unfolding logs by (rule claimed_state_not_reclaimed)
  let ?new = "?n1 # (if ?m > 0 then [?n2] else [])"
  have n: "usageRecords ?w' = usageRecords w @ ?new"
    using rcu u1 u2 by simp
  have k: "map (\<lambda>r. (ur_type r, ur_quantity r, ur_reportedToStripe r)) ?new =
             (Call, 1, Some False) # (if ?m > 0 then [(Minute, ?m, Some False)] else [])"
    by simp
  have c: "\<exists>d new. durationSeconds ?u callLog req = JNum d
             \<and> usageRecords ?w' = usageRecords w @ new
             \<and> map (\<lambda>r. (ur_type r, ur_quantity r, ur_reportedToStripe r)) new =
                 (Call, 1, Some False) # (if minutes_of d > 0 then [(Minute, minutes_of d, Some False)] else [])"
    using dur n k by (intro exI [where x = d] exI [where x = ?new] conjI)
  have r: "fst (statusCallback env restaurantId req w) = 200"
    using res by simp
  from r a b c show ?thesis by (intro conjI)
qed

theorem provider_failure_keeps_claim_and_entries_witness:
  "findCallLog ''r1'' request1 (callLogs world2) = Inr (Some call1)
   \<and> updates_accepted (status_updates (h_now (henv False stripe_down)) request1 call1)
   \<and> CallStatus request1 = Some ''completed''
   \<and> cl_usageRecordedAt call1 = None
   \<and> getAgentConfiguration ''r1'' (agentConfigurations world2) = Inr (Some agent1)
   \<and> ac_billingUserId agent1 \<noteq> []
   \<and> sql_select (\<lambda>u. u_id u = ac_billingUserId agent1) (users world2) = [user1\<lparr>u_monthlyCallsUsed := Some 25\<rparr>]
   \<and> \<not> e_insertFails (h_record (henv False stripe_down) Call)
   \<and> \<not> e_insertFails (h_record (henv False stripe_down) Minute)
   \<and> \<not> counter_overflows (ac_billingUserId agent1) Call 1 (users world2)
   \<and> (\<forall>type. (\<exists>err. sb_retrieve (e_stripe (h_record (henv False stripe_down) type)) = Inl err)
              \<or> (\<exists>err. sb_create (e_stripe (h_record (henv False stripe_down) type)) = Inl err))
   \<and> cl_duration call1 = None
   \<and> submissions (snd (statusCallback (henv False stripe_down) ''r1'' request1 world2)) = 2
   \<and> \<not> fst (markUsageRecorded 2000 ''c1''
               (callLogs (snd (statusCallback (henv False stripe_down) ''r1'' request1 world2))))
   \<and> map ur_reportedToStripe
        (usageRecords (snd (statusCallback (henv False stripe_down) ''r1'' request1 world2)))
       = [Some False, Some False, Some False]"
proof -
  have h1: "findCallLog ''r1'' request1 (callLogs world2) = Inr (Some call1)"
    by code_simp
  have h2: "updates_accepted (status_updates (h_now (henv False stripe_down)) request1 call1)"
    by code_simp
  have h3: "CallStatus request1 = Some ''completed''"
    by (simp add: request1_def)
  have h4: "cl_usageRecordedAt call1 = None" and i: "cl_id call1 = ''c1''"
    by (simp_all add: call1_def)
  have h5: "\<forall>d. cl_duration call1 = Some d \<longrightarrow> int4 d"
    by (simp add: call1_def)
  have h6: "getAgentConfiguration ''r1'' (agentConfigurations world2) = Inr (Some agent1)"
    by code_simp
  have h7: "ac_billingUserId agent1 \<noteq> []"
    by (simp add: agent1_def)
  have h8: "sql_select (\<lambda>u. u_id u = ac_billingUserId agent1) (users world2) = user1\<lparr>u_monthlyCallsUsed := Some 25\<rparr> # []"
    by code_simp
  have h9: "\<not> e_insertFails (h_record (henv False stripe_down) Call)"
    and h10: "\<not> e_insertFails (h_record (henv False stripe_down) Minute)"
    by (simp_all add: henv_def env_of_def)
  have h11: "\<not> counter_overflows (ac_billingUserId agent1) Call 1 (users world2)"
    by code_simp
  have h12: "\<forall>type. (\<exists>err. sb_retrieve (e_stripe (h_record (henv False stripe_down) type)) = Inl err)
              \<or> (\<exists>err. sb_create (e_stripe (h_record (henv False stripe_down) type)) = Inl err)"
    by (simp add: henv_def env_of_def stripe_down_def)
  have s: "submissions (snd (statusCallback (henv False stripe_down) ''r1'' request1 world2)) = 2"
    by code_simp
  have r: "map ur_reportedToStripe
        (usageRecords (snd (statusCallback (henv False stripe_down) ''r1'' request1 world2)))
       = [Some False, Some False, Some False]"
    by code_simp
  have t: "\<not> fst (markUsageRecorded 2000 (cl_id call1)
               (callLogs (snd (statusCallback (henv False stripe_down) ''r1'' request1 world2))))"
    using provider_failure_keeps_claim_and_entries [OF h1 h2 h3 h4 h5 h6 h7 h8 h9 h10 h11 h12, of 2000]
    by blast
  have n: "cl_duration call1 = None"
    by (simp add: call1_def)
  from t h1 h2 h3 h4 h6 h7 h8 h9 h10 h11 h12 i s r n show ?thesis by simp
qed

subsection \<open>Accounts without billing configuration\<close>

text \<open>
  C5 as stated fails: in \<open>world3\<close> the billing user has no Stripe subscription, and after the
  callback the call is still claimed.
\<close>

theorem no_subscription_keeps_claim:
  "\<not> (getAgentConfiguration ''r1'' (agentConfigurations world3) = Inr (Some agent1)
       \<and> map u_stripeSubscriptionId (sql_select (\<lambda>u. u_id u = ac_billingUserId agent1) (users world3)) = [None]
       \<longrightarrow> usageRecordedAt_of ''c1'' (snd (statusCallback (henv False stripe_ok) ''r1'' request1 world3))
             = Some None)"
  by code_simp

text \<open>
  C5, as the code has it. What clears the claim is a missing billing user, not a missing
  subscription. Take a completed, unclaimed call that is matched and whose status update
  the database accepts. If the restaurant has no agent configuration, or its billing user
  id is empty, the handler clears the call's usage-recorded timestamp, writes nothing to
  the ledger, the counters or Stripe, logs a warning and no error, and answers 200. If the
  billing user exists but has no Stripe subscription (and the inserts are not failed by the
  environment and both counters have room), the claim stays set and the call and minute
  entries are written to the ledger as usual; overage reporting then does nothing: no
  request to Stripe and no error.
\<close>

theorem missing_billing_user_clears_claim:
  assumes found: "findCallLog restaurantId req (callLogs w) = Inr (Some callLog)"
    and accepted: "updates_accepted (status_updates (h_now env) req callLog)"
    and completed: "CallStatus req = Some ''completed''"
    and unclaimed: "cl_usageRecordedAt callLog = None"
  shows "(getAgentConfiguration restaurantId (agentConfigurations w) = Inr None
          \<or> (\<exists>a. getAgentConfiguration restaurantId (agentConfigurations w) = Inr (Some a)
                   \<and> ac_billingUserId a = [])
          \<longrightarrow> fst (statusCallback env restaurantId req w) = 200
              \<and> usageRecordedAt_of (cl_id callLog) (snd (statusCallback env restaurantId req w)) = Some None
              \<and> usageRecords (snd (statusCallback env restaurantId req w)) = usageRecords w
              \<and> users (snd (statusCallback env restaurantId req w)) = users w
              \<and> stripeCalls (snd (statusCallback env restaurantId req w)) = stripeCalls w
              \<and> console (snd (statusCallback env restaurantId req w)) =
                  console w @ [ConsoleWarn ''no billing user set, rolling back usage claim''])
       \<and> (\<forall>agentConfig user rest d.
             getAgentConfiguration restaurantId (agentConfigurations w) = Inr (Some agentConfig)
             \<and> ac_billingUserId agentConfig \<noteq> []
             \<and> sql_select (\<lambda>u. u_id u = ac_billingUserId agentConfig) (users w) = user # rest
             \<and> \<not> truthy (u_stripeSubscriptionId user)
             \<and> \<not> e_insertFails (h_record env Call) \<and> \<not> e_insertFails (h_record env Minute)
             \<and> durationSeconds (status_updates (h_now env) req callLog) callLog req = JNum d
             \<and> int4 d
             \<and> \<not> counter_overflows (ac_billingUserId agentConfig) Call 1 (users w)
             \<and> \<not> counter_overflows (ac_billingUserId agentConfig) Minute (minutes_of d) (users w)
          \<longrightarrow> fst (statusCallback env restaurantId req w) = 200
              \<and> (\<exists>t. usageRecordedAt_of (cl_id callLog) (snd (statusCallback env restaurantId req w))
                       = Some (Some t))
              \<and> ledger (snd (statusCallback env restaurantId req w)) =
                  ledger w @ (Call, 1) # (if minutes_of d > 0 then [(Minute, minutes_of d)] else [])
              \<and> stripeCalls (snd (statusCallback env restaurantId req w)) = stripeCalls w
              \<and> console (snd (statusCallback env restaurantId req w)) = console w)"
  (is "(?noUser \<longrightarrow> ?cleared) \<and> ?noSub")
proof -
  let ?w2 = "claimed_state env req callLog w"
  let ?u = "status_updates (h_now env) req callLog"
  let ?w' = "snd (statusCallback env restaurantId req w)"
  have res: "statusCallback env restaurantId req w = (200, record_call_usage env restaurantId req callLog ?u ?w2)"
    using found accepted completed unclaimed by (rule statusCallback_claims)
  have mem: "callLog \<in> set (callLogs w)"
    using found by (rule findCallLog_mem)
  then obtain t where claimed: "usageRecordedAt_of (cl_id callLog) ?w2 = Some (Some t)"
    using claimed_state_claimed by blast
  have a: ?cleared if ?noUser
  proof -
    let ?w3 = "?w2\<lparr>console := console ?w2 @ [ConsoleWarn ''no billing user set, rolling back usage claim'']\<rparr>"
    have "record_call_usage env restaurantId req callLog ?u ?w2 = rollback_claim (cl_id callLog) ?w3"
      using record_call_usage_no_billing_user [of restaurantId ?w2 env req callLog ?u] that by simp
    with res have final: "statusCallback env restaurantId req w = (200, rollback_claim (cl_id callLog) ?w3)"
      by simp
    from claimed have "usageRecordedAt_of (cl_id callLog) ?w3 = Some (Some t)"
      by (simp add: usageRecordedAt_of_def)
    then have "usageRecordedAt_of (cl_id callLog) (rollback_claim (cl_id callLog) ?w3) = Some None"
      by (rule rollback_claim_cleared(1))
    with final show ?thesis by simp
  qed
  have b: ?noSub
  proof (intro allI impI, elim conjE)
    fix agentConfig user rest d
    assume agent: "getAgentConfiguration restaurantId (agentConfigurations w) = Inr (Some agentConfig)"
      and billing: "ac_billingUserId agentConfig \<noteq> []"
      and look: "sql_select (\<lambda>u. u_id u = ac_billingUserId agentConfig) (users w) = user # rest"
      and nosub: "\<not> truthy (u_stripeSubscriptionId user)"
      and ins: "\<not> e_insertFails (h_record env Call)" "\<not> e_insertFails (h_record env Minute)"
      and dur: "durationSeconds ?u callLog req = JNum d"
      and d: "int4 d"
      and room: "\<not> counter_overflows (ac_billingUserId agentConfig) Call 1 (users w)"
        "\<not> counter_overflows (ac_billingUserId agentConfig) Minute (minutes_of d) (users w)"
    let ?b = "ac_billingUserId agentConfig"
    let ?m = "minutes_of d"
    let ?r1 = "recordUsage (h_record env Call) ?b restaurantId Call 1 ?w2"
    let ?r2 = "recordUsage (h_record env Minute) ?b restaurantId Minute ?m (snd ?r1)"
    have look2: "sql_select (\<lambda>u. u_id u = ?b) (users ?w2) = user # rest"
      using look by simp
    have agent2: "getAgentConfiguration restaurantId (agentConfigurations ?w2) = Inr (Some agentConfig)"
      using agent by simp
    have valid: "valid_text restaurantId"
      using agent by (rule getAgentConfiguration_valid)
    have ins1: "insert_error (h_record env Call) restaurantId 1 = None"
      using ins(1) valid by (simp add: insert_error_None int4_def)
    have ins2: "insert_error (h_record env Minute) restaurantId ?m = None"
      using ins(2) valid d by (simp add: insert_error_None int4_minutes_of)
    have room1: "\<not> counter_overflows ?b Call 1 (users ?w2)"
      using room(1) by simp
    have "fst ?r1 = None"
      using look2 ins1 room1 by (rule recordUsage_ok_props(1))
    then have first: "?r1 = (None, snd ?r1)"
      by (cases ?r1) simp
    have rcu: "?w' = (if ?m > 0
                      then (snd ?r2)\<lparr>console := console (snd ?r2) @
                             (case fst ?r2 of None \<Rightarrow> []
                              | Some usageError \<Rightarrow> [ConsoleError ''Failed to record usage:'' usageError])\<rparr>
                      else snd ?r1)"
      using res record_call_usage_started [OF agent2 billing first dur] by simp
    have us: "users (snd ?r1) = add_usage ?b Call 1 (users ?w2)"
      using look2 ins1 room1 by (rule recordUsage_ok_props(2))
    obtain user' rest' where look': "sql_select (\<lambda>u. u_id u = ?b) (users (snd ?r1)) = user' # rest'"
      and sub': "u_stripeSubscriptionId user' = u_stripeSubscriptionId user"
      using recordUsage_user_kept [OF look2] by blast
    have nosub': "\<not> truthy (u_stripeSubscriptionId user')"
      using nosub sub' by simp
    have room2: "\<not> counter_overflows ?b Minute ?m (users (snd ?r1))"
      using room(2) unfolding us by (simp add: add_usage_Call_minutes)
    have f2: "fst ?r2 = None"
      using look' ins2 room2 by (rule recordUsage_ok_props(1))
    have c1: "callLogs (snd ?r1) = callLogs ?w2"
      by (rule recordUsage_frame(1))
    have c2: "callLogs (snd ?r2) = callLogs ?w2"
      using recordUsage_frame(1) [of "h_record env Minute" ?b restaurantId Minute ?m "snd ?r1"] c1 by simp
    have l1: "ledger (snd ?r1) = ledger w @ [(Call, 1)]"
      using recordUsage_written(1) [OF look2 ins1, of Call] by simp
    have l2: "ledger (snd ?r2) = ledger w @ [(Call, 1), (Minute, ?m)]"
      using recordUsage_written(1) [OF look' ins2, of Minute] l1 by simp
    have q1: "stripeCalls (snd ?r1) = stripeCalls w \<and> console (snd ?r1) = console w"
      using recordUsage_ok_props(3) [OF look2 ins1 room1 nosub] by simp
    have q2: "stripeCalls (snd ?r2) = stripeCalls w \<and> console (snd ?r2) = console w"
      using recordUsage_ok_props(3) [OF look' ins2 room2 nosub'] q1 by simp
    have logs: "callLogs ?w' = callLogs ?w2"
      using rcu c1 c2 by simp
    have k: "\<exists>t. usageRecordedAt_of (cl_id callLog) ?w' = Some (Some t)"
      using claimed logs by (auto simp: usageRecordedAt_of_def)
    have l: "ledger ?w' = ledger w @ (Call, 1) # (if ?m > 0 then [(Minute, ?m)] else [])"
      using rcu l1 l2 by simp
    have q: "stripeCalls ?w' = stripeCalls w \<and> console ?w' = console w"
      using rcu q1 q2 f2 by simp
    from res k l q show "fst (statusCallback env restaurantId req w) = 200
              \<and> (\<exists>t. usageRecordedAt_of (cl_id callLog) ?w' = Some (Some t))
              \<and> ledger ?w' = ledger w @ (Call, 1) # (if ?m > 0 then [(Minute, ?m)] else [])
              \<and> stripeCalls ?w' = stripeCalls w
              \<and> console ?w' = console w"
      by simp
  qed
  from a b show ?thesis by blast
qed

theorem missing_billing_user_clears_claim_witness:
  "findCallLog ''r1'' request1 (callLogs (world1\<lparr>agentConfigurations := []\<rparr>)) = Inr (Some call1)
   \<and> updates_accepted (status_updates (h_now (henv False stripe_ok)) request1 call1)
   \<and> CallStatus request1 = Some ''completed''
   \<and> cl_usageRecordedAt call1 = None
   \<and> getAgentConfiguration ''r1'' (agentConfigurations (world1\<lparr>agentConfigurations := []\<rparr>)) = Inr None
   \<and> usageRecordedAt_of ''c1''
        (snd (statusCallback (henv False stripe_ok) ''r1'' request1 (world1\<lparr>agentConfigurations := []\<rparr>)))
       = Some None
   \<and> findCallLog ''r1'' request1 (callLogs world3) = Inr (Some call1)
   \<and> getAgentConfiguration ''r1'' (agentConfigurations world3) = Inr (Some agent1)
   \<and> ac_billingUserId agent1 \<noteq> []
   \<and> sql_select (\<lambda>u. u_id u = ac_billingUserId agent1) (users world3) = [user1\<lparr>u_stripeSubscriptionId := None\<rparr>]
   \<and> \<not> truthy (u_stripeSubscriptionId (user1\<lparr>u_stripeSubscriptionId := None\<rparr>))
   \<and> \<not> e_insertFails (h_record (henv False stripe_ok) Call)
   \<and> \<not> e_insertFails (h_record (henv False stripe_ok) Minute)
   \<and> durationSeconds (status_updates (h_now (henv False stripe_ok)) request1 call1) call1 request1 = JNum 61
   \<and> int4 61
   \<and> \<not> counter_overflows (ac_billingUserId agent1) Call 1 (users world3)
   \<and> \<not> counter_overflows (ac_billingUserId agent1) Minute (minutes_of 61) (users world3)
   \<and> usageRecordedAt_of ''c1'' (snd (statusCallback (henv False stripe_ok) ''r1'' request1 world3))
       = Some (Some 1000)
   \<and> ledger (snd (statusCallback (henv False stripe_ok) ''r1'' request1 world3)) = [(Call, 1), (Minute, 2)]
   \<and> stripeCalls (snd (statusCallback (henv False stripe_ok) ''r1'' request1 world3)) = []"
proof -
  let ?w0 = "world1\<lparr>agentConfigurations := []\<rparr>"
  have h1: "findCallLog ''r1'' request1 (callLogs ?w0) = Inr (Some call1)"
    by code_simp
  have h2: "updates_accepted (status_updates (h_now (henv False stripe_ok)) request1 call1)"
    by code_simp
  have h3: "CallStatus request1 = Some ''completed''"
    by (simp add: request1_def)
  have h4: "cl_usageRecordedAt call1 = None" and i: "cl_id call1 = ''c1''"
    by (simp_all add: call1_def)
  have h5: "getAgentConfiguration ''r1'' (agentConfigurations ?w0) = Inr None"
    by code_simp
  have g1: "findCallLog ''r1'' request1 (callLogs world3) = Inr (Some call1)"
    by code_simp
  have g4: "getAgentConfiguration ''r1'' (agentConfigurations world3) = Inr (Some agent1)"
    by code_simp
  have g5: "ac_billingUserId agent1 \<noteq> []"
    by (simp add: agent1_def)
  have g6: "sql_select (\<lambda>u. u_id u = ac_billingUserId agent1) (users world3)
              = user1\<lparr>u_stripeSubscriptionId := None\<rparr> # []"
    by code_simp
  have g7: "\<not> truthy (u_stripeSubscriptionId (user1\<lparr>u_stripeSubscriptionId := None\<rparr>))"
    by simp
  have g8: "\<not> e_insertFails (h_record (henv False stripe_ok) Call)"
    and g9: "\<not> e_insertFails (h_record (henv False stripe_ok) Minute)"
    by (simp_all add: henv_def env_of_def)
  have g10: "durationSeconds (status_updates (h_now (henv False stripe_ok)) request1 call1) call1 request1
               = JNum 61"
    by (rule durationSeconds_61) (simp_all add: call1_def request1_def)
  have g11: "int4 61"
    by (simp add: int4_def)
  have g12: "\<not> counter_overflows (ac_billingUserId agent1) Call 1 (users world3)"
    by code_simp
  have g13: "\<not> counter_overflows (ac_billingUserId agent1) Minute (minutes_of 61) (users world3)"
    unfolding minutes_of_61 by code_simp
  have s0: "stripeCalls world3 = []" and l0: "ledger world3 = []"
    by (simp_all add: world3_def world1_def ledger_def)
  have v: "usageRecordedAt_of ''c1'' (snd (statusCallback (henv False stripe_ok) ''r1'' request1 world3))
       = Some (Some 1000)"
    by code_simp
  have t1: "usageRecordedAt_of (cl_id call1) (snd (statusCallback (henv False stripe_ok) ''r1'' request1 ?w0))
             = Some None"
    using missing_billing_user_clears_claim [OF h1 h2 h3 h4] h5 by blast
  have t2: "ledger (snd (statusCallback (henv False stripe_ok) ''r1'' request1 world3)) =
              ledger world3 @ (Call, 1) # (if minutes_of 61 > 0 then [(Minute, minutes_of 61)] else [])
            \<and> stripeCalls (snd (statusCallback (henv False stripe_ok) ''r1'' request1 world3)) = stripeCalls world3"
    using missing_billing_user_clears_claim [OF g1 h2 h3 h4] g4 g5 g6 g7 g8 g9 g10 g11 g12 g13
    by blast
  from t1 t2 h1 h2 h3 h4 h5 i g1 g4 g5 g6 g7 g8 g9 g10 g11 g12 g13 s0 l0 v show ?thesis
    by (simp add: minutes_of_61)
qed

end
